theory Spec2Isabelle
  imports Complex_Main
begin

section \<open>Bytes and errors\<close>

text \<open>
  The package under verification is \<^verbatim>\<open>gpx.go\<close>: two entry points (\<^verbatim>\<open>ParseFile\<close>,
  \<^verbatim>\<open>Parse\<close>) and a family of structs whose field tags bind them to GPX 1.1 elements and
  attributes. All decoding is done by \<^verbatim>\<open>xml.Unmarshal\<close> of Go's \<^verbatim>\<open>encoding/xml\<close>, driven
  by those tags. The development therefore has three layers:
  \<^item> the parts of \<^verbatim>\<open>strconv\<close> and \<^verbatim>\<open>encoding/xml\<close> that \<^verbatim>\<open>xml.Unmarshal\<close> runs for the kinds
    of field this package declares (strings, \<^verbatim>\<open>int\<close>, \<^verbatim>\<open>float64\<close>, structs, slices of
    structs), following the library's \<^verbatim>\<open>rawToken\<close>, \<^verbatim>\<open>Token\<close>, \<^verbatim>\<open>unmarshal\<close>,
    \<^verbatim>\<open>unmarshalPath\<close>, \<^verbatim>\<open>unmarshalAttr\<close>, \<^verbatim>\<open>copyValue\<close> and \<^verbatim>\<open>Skip\<close>;
  \<^item> the structs of \<^verbatim>\<open>gpx.go\<close> as records, each with the table of its tagged fields;
  \<^item> \<^verbatim>\<open>Parse\<close> and \<^verbatim>\<open>ParseFile\<close> themselves.

  A byte slice and a Go string are both a \<^typ>\<open>string\<close> (a list of 8-bit characters).
\<close>

type_synonym bytes = string

definition byte :: "char \<Rightarrow> nat" where
  "byte c = of_char c"

text \<open>
  Errors are values. \<open>IOError\<close> is whatever \<^verbatim>\<open>ioutil.ReadFile\<close> reports; \<open>EOF\<close> is
  \<^verbatim>\<open>io.EOF\<close>; \<open>SyntaxError\<close> carries the \<^verbatim>\<open>Msg\<close> of an \<^verbatim>\<open>*xml.SyntaxError\<close> (its
  \<^verbatim>\<open>Line\<close> is not tracked, and operands the library formats with \<^verbatim>\<open>%U\<close> are left out of the
  message); \<open>NumError\<close> is \<^verbatim>\<open>*strconv.NumError\<close> with its \<^verbatim>\<open>Func\<close>, \<^verbatim>\<open>Num\<close> and \<^verbatim>\<open>Err\<close>;
  \<open>UnsupportedVersion\<close> and \<open>UnsupportedEncoding\<close> are the two \<^verbatim>\<open>fmt.Errorf\<close> errors of the
  XML declaration. \<open>NotModelled\<close> is not an error of the library: it marks an input that
  leaves the fragment of XML this development covers (a name with a byte above 0x7F,
  whose validity the library decides with its Unicode tables).
\<close>

datatype num_err = ErrSyntax | ErrRange

datatype error =
    IOError string
  | EOF
  | SyntaxError string
  | UnmarshalError string
  | NumError string string num_err
  | UnsupportedVersion string
  | UnsupportedEncoding string
  | NotModelled string

section \<open>strconv\<close>

definition is_digit :: "char \<Rightarrow> bool" where
  "is_digit c = (byte (CHR ''0'') \<le> byte c \<and> byte c \<le> byte (CHR ''9''))"

definition digit_val :: "char \<Rightarrow> nat" where
  "digit_val c = byte c - byte (CHR ''0'')"

text \<open>\<^verbatim>\<open>'a' <= lower(c) && lower(c) <= 'f'\<close>, where \<^verbatim>\<open>lower(c) = c | 0x20\<close>.\<close>

definition is_hex_letter :: "char \<Rightarrow> bool" where
  "is_hex_letter c =
     ((byte (CHR ''a'') \<le> byte c \<and> byte c \<le> byte (CHR ''f'')) \<or>
      (byte (CHR ''A'') \<le> byte c \<and> byte c \<le> byte (CHR ''F'')))"

definition hex_val :: "char \<Rightarrow> nat" where
  "hex_val c =
     (if byte (CHR ''a'') \<le> byte c then byte c - byte (CHR ''a'') + 10
      else byte c - byte (CHR ''A'') + 10)"

subsection \<open>strings.TrimSpace\<close>

text \<open>
  The UTF-8 encodings of the code points for which \<^verbatim>\<open>unicode.IsSpace\<close> holds:
  U+0009..U+000D, U+0020, U+0085, U+00A0, U+1680, U+2000..U+200A, U+2028, U+2029,
  U+202F, U+205F, U+3000.
\<close>

definition space_runes :: "string list" where
  "space_runes =
     [[CHR 0x09], [CHR 0x0A], [CHR 0x0B], [CHR 0x0C], [CHR 0x0D], [CHR 0x20],
      [CHR 0xC2, CHR 0x85], [CHR 0xC2, CHR 0xA0], [CHR 0xE1, CHR 0x9A, CHR 0x80],
      [CHR 0xE2, CHR 0x80, CHR 0x80], [CHR 0xE2, CHR 0x80, CHR 0x81],
      [CHR 0xE2, CHR 0x80, CHR 0x82], [CHR 0xE2, CHR 0x80, CHR 0x83],
      [CHR 0xE2, CHR 0x80, CHR 0x84], [CHR 0xE2, CHR 0x80, CHR 0x85],
      [CHR 0xE2, CHR 0x80, CHR 0x86], [CHR 0xE2, CHR 0x80, CHR 0x87],
      [CHR 0xE2, CHR 0x80, CHR 0x88], [CHR 0xE2, CHR 0x80, CHR 0x89],
      [CHR 0xE2, CHR 0x80, CHR 0x8A], [CHR 0xE2, CHR 0x80, CHR 0xA8],
      [CHR 0xE2, CHR 0x80, CHR 0xA9], [CHR 0xE2, CHR 0x80, CHR 0xAF],
      [CHR 0xE2, CHR 0x81, CHR 0x9F], [CHR 0xE3, CHR 0x80, CHR 0x80]]"

text \<open>The length of the white-space rune at the head of \<open>s\<close> among \<open>runes\<close>, 0 if none.\<close>

fun space_len :: "string list \<Rightarrow> string \<Rightarrow> nat" where
  "space_len [] s = 0"
| "space_len (r # rs) s = (if r \<noteq> [] \<and> take (length r) s = r then length r else space_len rs s)"

lemma space_len_Nil: "space_len rs [] = 0"
  by (induction rs) auto

function trim_left :: "string list \<Rightarrow> string \<Rightarrow> string" where
  "trim_left rs s = (if space_len rs s = 0 then s else trim_left rs (drop (space_len rs s) s))"
  by pat_completeness auto
termination
proof (relation "measure (\<lambda>(rs, s). length s)")
  fix rs :: "string list" and s :: string
  assume "space_len rs s \<noteq> 0"
  then have "s \<noteq> []" and "0 < space_len rs s"
    by (auto simp: space_len_Nil)
  then show "((rs, drop (space_len rs s) s), (rs, s)) \<in> measure (\<lambda>(rs, s). length s)"
    by simp
qed simp

declare trim_left.simps [simp del]

definition TrimSpace :: "string \<Rightarrow> string" where
  "TrimSpace s = rev (trim_left (map rev space_runes) (rev (trim_left space_runes s)))"

subsection \<open>strconv.ParseInt(s, 10, 64)\<close>

text \<open>
  The digit loop of \<^verbatim>\<open>ParseUint\<close> for base 10 and 64 bits: a byte that is not a decimal
  digit is a syntax error (an underscore too, since the base is given), and the loop
  stops with a range error as soon as the value leaves \<^verbatim>\<open>uint64\<close>.
\<close>

fun ParseUint_digits :: "string \<Rightarrow> nat \<Rightarrow> num_err + nat" where
  "ParseUint_digits [] n = Inr n"
| "ParseUint_digits (c # cs) n =
     (if \<not> is_digit c then Inl ErrSyntax
      else if 2 ^ 64 - 1 < n * 10 + digit_val c then Inl ErrRange
      else ParseUint_digits cs (n * 10 + digit_val c))"

text \<open>Go's \<^verbatim>\<open>int\<close> is taken to be 64 bits wide, as on every 64-bit platform.\<close>

definition ParseInt :: "string \<Rightarrow> error + int" where
  "ParseInt s0 =
     (if s0 = [] then Inl (NumError ''ParseInt'' s0 ErrSyntax)
      else
        let neg = (hd s0 = CHR ''-'');
            s = (if hd s0 = CHR ''+'' \<or> hd s0 = CHR ''-'' then tl s0 else s0)
        in if s = [] then Inl (NumError ''ParseInt'' s0 ErrSyntax)
           else case ParseUint_digits s 0 of
             Inl k \<Rightarrow> Inl (NumError ''ParseInt'' s0 k)
           | Inr un \<Rightarrow>
               if \<not> neg \<and> 2 ^ 63 \<le> un then Inl (NumError ''ParseInt'' s0 ErrRange)
               else if neg \<and> 2 ^ 63 < un then Inl (NumError ''ParseInt'' s0 ErrRange)
               else Inr (if neg then - int un else int un))"

subsection \<open>float64 and strconv.ParseFloat(s, 64)\<close>

text \<open>
  A \<^verbatim>\<open>float64\<close> is its sign and the rational it stands for, an infinity, or NaN. The zero
  value of the type is \<open>Finite False 0\<close>; \<open>Finite True 0\<close> is the negative zero.
\<close>

datatype float64 = Finite bool rat | Inf bool | NaN

definition float64_zero :: float64 where
  "float64_zero = Finite False 0"

text \<open>The number of binary digits of \<open>n\<close>.\<close>

fun bitlen :: "nat \<Rightarrow> nat" where
  "bitlen n = (if n = 0 then 0 else Suc (bitlen (n div 2)))"

declare bitlen.simps [simp del]

text \<open>\<open>pow2_le k n d\<close>: \<open>2 ^ k \<le> n / d\<close>, for an integer \<open>k\<close> of either sign.\<close>

definition pow2_le :: "int \<Rightarrow> nat \<Rightarrow> nat \<Rightarrow> bool" where
  "pow2_le k n d = (if 0 \<le> k then d * 2 ^ nat k \<le> n else d \<le> n * 2 ^ nat (- k))"

text \<open>The binary exponent of \<open>n / d\<close> (both positive): the \<open>k\<close> with \<open>2 ^ k \<le> n / d < 2 ^ (k + 1)\<close>.\<close>

definition binexp :: "nat \<Rightarrow> nat \<Rightarrow> int" where
  "binexp n d = (let k = int (bitlen n) - int (bitlen d) in if pow2_le k n d then k else k - 1)"

text \<open>The integer nearest to \<open>n / d\<close>, a tie going to the even neighbour.\<close>

definition nearest_even :: "nat \<Rightarrow> nat \<Rightarrow> nat" where
  "nearest_even n d =
     (let q = n div d; r = n mod d
      in if 2 * r < d then q else if d < 2 * r then q + 1 else if even q then q else q + 1)"

text \<open>
  IEEE 754 round-to-nearest-even of the positive rational \<open>n / d\<close> to binary64: 53
  significant bits, the unit in the last place never below \<open>2 ^ -1074\<close> (subnormals);
  \<open>None\<close> when the rounded value would reach \<open>2 ^ 1024\<close> (overflow).
\<close>

definition round_float64 :: "nat \<Rightarrow> nat \<Rightarrow> rat option" where
  "round_float64 n d =
     (if n = 0 then Some 0
      else
        let p = max (binexp n d - 52) (- 1074);
            m = (if 0 \<le> p then nearest_even n (d * 2 ^ nat p)
                 else nearest_even (n * 2 ^ nat (- p)) d)
        in if 971 < p \<or> (p = 971 \<and> m = 2 ^ 53) then None
           else if 0 \<le> p then Some (of_nat (m * 2 ^ nat p))
           else Some (Fract (int m) (2 ^ nat (- p))))"

text \<open>
  \<^verbatim>\<open>special\<close>: an optional sign and \<^verbatim>\<open>inf\<close> or \<^verbatim>\<open>infinity\<close>, or an unsigned \<^verbatim>\<open>nan\<close>, in any
  letter case. \<^verbatim>\<open>ParseFloat\<close> wants the whole string consumed, so only whole-string
  matches are kept.
\<close>

definition to_lower :: "char \<Rightarrow> char" where
  "to_lower c =
     (if byte (CHR ''A'') \<le> byte c \<and> byte c \<le> byte (CHR ''Z'') then char_of (byte c + 32) else c)"

definition special :: "string \<Rightarrow> float64 option" where
  "special s =
     (case s of
        [] \<Rightarrow> None
      | c # cs \<Rightarrow>
          if c = CHR ''+'' \<or> c = CHR ''-'' then
            (if map to_lower cs = ''inf'' \<or> map to_lower cs = ''infinity''
             then Some (Inf (c = CHR ''-'')) else None)
          else if c = CHR ''i'' \<or> c = CHR ''I'' then
            (if map to_lower s = ''inf'' \<or> map to_lower s = ''infinity''
             then Some (Inf False) else None)
          else if c = CHR ''n'' \<or> c = CHR ''N'' then
            (if map to_lower s = ''nan'' then Some NaN else None)
          else None)"

text \<open>
  The mantissa loop of \<^verbatim>\<open>readFloat\<close>. \<open>m\<close> is the value of the digits read so far, \<open>fr\<close>
  the number of digits read after the point, \<open>dot\<close>, \<open>dig\<close> and \<open>us\<close> are \<^verbatim>\<open>sawdot\<close>,
  \<^verbatim>\<open>sawdigits\<close> and \<^verbatim>\<open>underscores\<close>. The library keeps 19 digits and a \<^verbatim>\<open>trunc\<close> flag and
  falls back to exact decimal arithmetic when digits were dropped; the result is the
  correctly rounded one in every case, so all digits are kept here.
\<close>

fun readMantissa ::
  "nat \<Rightarrow> string \<Rightarrow> nat \<Rightarrow> nat \<Rightarrow> bool \<Rightarrow> bool \<Rightarrow> bool \<Rightarrow> nat \<times> nat \<times> bool \<times> bool \<times> string" where
  "readMantissa base [] m fr dot dig us = (m, fr, dig, us, [])"
| "readMantissa base (c # cs) m fr dot dig us =
     (if c = CHR ''_'' then readMantissa base cs m fr dot dig True
      else if c = CHR ''.'' then
        (if dot then (m, fr, dig, us, c # cs) else readMantissa base cs m fr True dig us)
      else if is_digit c then
        readMantissa base cs (m * base + digit_val c) (if dot then Suc fr else fr) dot True us
      else if base = 16 \<and> is_hex_letter c then
        readMantissa base cs (m * 16 + hex_val c) (if dot then Suc fr else fr) dot True us
      else (m, fr, dig, us, c # cs))"

text \<open>The exponent digits: the exponent stops growing once it has reached 10000.\<close>

fun readExponent :: "string \<Rightarrow> nat \<Rightarrow> bool \<Rightarrow> nat \<times> bool \<times> string" where
  "readExponent [] e us = (e, us, [])"
| "readExponent (c # cs) e us =
     (if c = CHR ''_'' then readExponent cs e True
      else if is_digit c then readExponent cs (if e < 10000 then e * 10 + digit_val c else e) us
      else (e, us, c # cs))"

text \<open>
  \<^verbatim>\<open>underscoreOK\<close>: an underscore stands only between digits, or between a base prefix
  and a digit. \<open>saw\<close> is the last character class seen.
\<close>

fun underscore_scan :: "bool \<Rightarrow> char \<Rightarrow> string \<Rightarrow> bool" where
  "underscore_scan hex saw [] = (saw \<noteq> CHR ''_'')"
| "underscore_scan hex saw (c # cs) =
     (if is_digit c \<or> (hex \<and> is_hex_letter c) then underscore_scan hex (CHR ''0'') cs
      else if c = CHR ''_'' then (if saw \<noteq> CHR ''0'' then False else underscore_scan hex (CHR ''_'') cs)
      else if saw = CHR ''_'' then False
      else underscore_scan hex (CHR ''!'') cs)"

definition underscoreOK :: "string \<Rightarrow> bool" where
  "underscoreOK s0 =
     (let s = (if s0 \<noteq> [] \<and> (hd s0 = CHR ''-'' \<or> hd s0 = CHR ''+'') then tl s0 else s0)
      in if 2 \<le> length s \<and> hd s = CHR ''0'' \<and> to_lower (s ! 1) \<in> {CHR ''b'', CHR ''o'', CHR ''x''}
         then underscore_scan (to_lower (s ! 1) = CHR ''x'') (CHR ''0'') (drop 2 s)
         else underscore_scan False (CHR ''^'') s)"

text \<open>
  \<^verbatim>\<open>readFloat\<close> on the whole string: \<open>Some (neg, hex, m, e)\<close> when the string is a
  well-formed decimal or hexadecimal floating-point number, standing for
  \<open>m * 10 ^ e\<close> (decimal) or \<open>m * 2 ^ e\<close> (hexadecimal), negated when \<open>neg\<close>.
\<close>

definition readFloat :: "string \<Rightarrow> (bool \<times> bool \<times> nat \<times> int) option" where
  "readFloat s0 =
     (if s0 = [] then None
      else
        let neg = (hd s0 = CHR ''-'');
            s1 = (if hd s0 = CHR ''+'' \<or> hd s0 = CHR ''-'' then tl s0 else s0);
            hex = (2 < length s1 \<and> hd s1 = CHR ''0'' \<and> to_lower (s1 ! 1) = CHR ''x'');
            s2 = (if hex then drop 2 s1 else s1)
        in case readMantissa (if hex then 16 else 10) s2 0 0 False False False of
          (m, fr, dig, us, s3) \<Rightarrow>
            if \<not> dig then None
            else
              let dp = - int (if hex then 4 * fr else fr) in
              if s3 \<noteq> [] \<and> to_lower (hd s3) = (if hex then CHR ''p'' else CHR ''e'') then
                (let s4 = tl s3 in
                 if s4 = [] then None
                 else
                   let eneg = (hd s4 = CHR ''-'');
                       s5 = (if hd s4 = CHR ''+'' \<or> hd s4 = CHR ''-'' then tl s4 else s4)
                   in if s5 = [] \<or> \<not> is_digit (hd s5) then None
                      else case readExponent s5 0 False of
                        (e, us', s6) \<Rightarrow>
                          if s6 \<noteq> [] then None
                          else if (us \<or> us') \<and> \<not> underscoreOK s0 then None
                          else Some (neg, hex, m, dp + (if eneg then - int e else int e)))
              else if hex then None
              else if s3 \<noteq> [] then None
              else if us \<and> \<not> underscoreOK s0 then None
              else Some (neg, hex, m, dp))"

definition ParseFloat :: "string \<Rightarrow> error + float64" where
  "ParseFloat s =
     (case special s of
        Some f \<Rightarrow> Inr f
      | None \<Rightarrow>
          (case readFloat s of
             None \<Rightarrow> Inl (NumError ''ParseFloat'' s ErrSyntax)
           | Some (neg, hex, m, e) \<Rightarrow>
               let b = (if hex then 2 else 10) in
               (case (if 0 \<le> e then round_float64 (m * b ^ nat e) 1
                      else round_float64 m (b ^ nat (- e))) of
                  None \<Rightarrow> Inl (NumError ''ParseFloat'' s ErrRange)
                | Some q \<Rightarrow> Inr (Finite neg q))))"

section \<open>encoding/xml: tokens\<close>

text \<open>\<^verbatim>\<open>xml.Name\<close>, \<^verbatim>\<open>xml.Attr\<close> and the token types of the decoder.\<close>

record xml_Name =
  Space :: string
  Local :: string

record Attr =
  Name :: xml_Name
  Value :: string

datatype token =
    StartElement xml_Name "Attr list"
  | EndElement xml_Name
  | CharData string
  | Comment string
  | ProcInst string string
  | Directive string

definition unexpectedEOF :: error where
  "unexpectedEOF = SyntaxError ''unexpected EOF''"

subsection \<open>Characters: UTF-8 and the XML character range\<close>

definition cont :: "char \<Rightarrow> bool" where
  "cont c = (0x80 \<le> byte c \<and> byte c \<le> 0xBF)"

text \<open>
  \<^verbatim>\<open>utf8.DecodeRune\<close>: the code point at the head of \<open>s\<close> and the number of bytes it
  takes; \<open>None\<close> where the library returns \<^verbatim>\<open>(RuneError, 1)\<close> (no well-formed
  sequence starts here).
\<close>

fun decodeRune :: "string \<Rightarrow> (nat \<times> nat) option" where
  "decodeRune [] = None"
| "decodeRune (a # s) =
     (let x = byte a in
      if x < 0x80 then Some (x, 1)
      else if 0xC2 \<le> x \<and> x \<le> 0xDF then
        (case s of
           b # _ \<Rightarrow> if cont b then Some ((x - 0xC0) * 64 + (byte b - 0x80), 2) else None
         | _ \<Rightarrow> None)
      else if 0xE0 \<le> x \<and> x \<le> 0xEF then
        (case s of
           b # c # _ \<Rightarrow>
             if (if x = 0xE0 then 0xA0 else 0x80) \<le> byte b \<and>
                byte b \<le> (if x = 0xED then 0x9F else 0xBF) \<and> cont c
             then Some (((x - 0xE0) * 64 + (byte b - 0x80)) * 64 + (byte c - 0x80), 3)
             else None
         | _ \<Rightarrow> None)
      else if 0xF0 \<le> x \<and> x \<le> 0xF4 then
        (case s of
           b # c # d # _ \<Rightarrow>
             if (if x = 0xF0 then 0x90 else 0x80) \<le> byte b \<and>
                byte b \<le> (if x = 0xF4 then 0x8F else 0xBF) \<and> cont c \<and> cont d
             then Some ((((x - 0xF0) * 64 + (byte b - 0x80)) * 64 + (byte c - 0x80)) * 64
                        + (byte d - 0x80), 4)
             else None
         | _ \<Rightarrow> None)
      else None)"

lemma decodeRune_size: "decodeRune s = Some (r, n) \<Longrightarrow> 0 < n"
  by (cases s) (auto simp: Let_def split: if_splits list.splits)

definition isInCharacterRange :: "nat \<Rightarrow> bool" where
  "isInCharacterRange r =
     (r = 0x09 \<or> r = 0x0A \<or> r = 0x0D \<or> (0x20 \<le> r \<and> r \<le> 0xD7FF) \<or>
      (0xE000 \<le> r \<and> r \<le> 0xFFFD) \<or> (0x10000 \<le> r \<and> r \<le> 0x10FFFF))"

text \<open>The last pass of \<^verbatim>\<open>Decoder.text\<close>: every rune well encoded and in range.\<close>

function validate :: "string \<Rightarrow> error option" where
  "validate s =
     (if s = [] then None
      else case decodeRune s of
        None \<Rightarrow> Some (SyntaxError ''invalid UTF-8'')
      | Some (r, n) \<Rightarrow>
          if \<not> isInCharacterRange r then Some (SyntaxError ''illegal character code'')
          else validate (drop n s))"
  by pat_completeness auto
termination
  by (relation "measure length") (auto dest: decodeRune_size)

declare validate.simps [simp del]

text \<open>\<^verbatim>\<open>string(rune(n))\<close> for \<open>n \<le> 0x10FFFF\<close>: UTF-8, a surrogate becoming U+FFFD.\<close>

definition encodeRune :: "nat \<Rightarrow> string" where
  "encodeRune n =
     (if n < 0x80 then [char_of n]
      else if n < 0x800 then [char_of (0xC0 + n div 64), char_of (0x80 + n mod 64)]
      else if 0xD800 \<le> n \<and> n \<le> 0xDFFF then [CHR 0xEF, CHR 0xBF, CHR 0xBD]
      else if n < 0x10000 then
        [char_of (0xE0 + n div 4096), char_of (0x80 + n div 64 mod 64), char_of (0x80 + n mod 64)]
      else
        [char_of (0xF0 + n div 262144), char_of (0x80 + n div 4096 mod 64),
         char_of (0x80 + n div 64 mod 64), char_of (0x80 + n mod 64)])"

subsection \<open>Names\<close>

definition is_space :: "char \<Rightarrow> bool" where
  "is_space c = (c = CHR 0x20 \<or> c = CHR 0x0D \<or> c = CHR 0x0A \<or> c = CHR 0x09)"

definition space :: "string \<Rightarrow> string" where
  "space s = dropWhile is_space s"

definition is_letter :: "char \<Rightarrow> bool" where
  "is_letter c =
     ((byte (CHR ''A'') \<le> byte c \<and> byte c \<le> byte (CHR ''Z'')) \<or>
      (byte (CHR ''a'') \<le> byte c \<and> byte c \<le> byte (CHR ''z'')))"

definition isNameByte :: "char \<Rightarrow> bool" where
  "isNameByte c =
     (is_letter c \<or> is_digit c \<or> c = CHR ''_'' \<or> c = CHR '':'' \<or> c = CHR ''.'' \<or> c = CHR ''-'')"

text \<open>The bytes \<^verbatim>\<open>readName\<close> takes into a name: name bytes and every byte from 0x80 up.\<close>

definition name_byte :: "char \<Rightarrow> bool" where
  "name_byte c = (0x80 \<le> byte c \<or> isNameByte c)"

text \<open>
  \<^verbatim>\<open>isName\<close> on a name of 7-bit bytes: the first is a letter, \<^verbatim>\<open>_\<close> or \<^verbatim>\<open>:\<close>, the others
  are name bytes (the 7-bit parts of the library's tables \<^verbatim>\<open>first\<close> and \<^verbatim>\<open>second\<close>).
\<close>

definition isName :: "string \<Rightarrow> bool" where
  "isName s =
     (s \<noteq> [] \<and> (is_letter (hd s) \<or> hd s = CHR ''_'' \<or> hd s = CHR '':'') \<and> list_all isNameByte (tl s))"

text \<open>
  \<^verbatim>\<open>Decoder.name\<close>. \<open>msg\<close> is the message of the caller for the case that no name starts
  here. The input must go on after the name (\<^verbatim>\<open>readName\<close> reads one byte past it).
\<close>

definition decoder_name :: "string \<Rightarrow> string \<Rightarrow> error + (string \<times> string)" where
  "decoder_name msg s =
     (case s of
        [] \<Rightarrow> Inl unexpectedEOF
      | b # _ \<Rightarrow>
          if \<not> name_byte b then Inl (SyntaxError msg)
          else
            let n = takeWhile name_byte s; rest = dropWhile name_byte s
            in if rest = [] then Inl unexpectedEOF
               else if \<not> list_all (\<lambda>c. byte c < 0x80) n then Inl (NotModelled n)
               else if \<not> isName n then Inl (SyntaxError (''invalid XML name: '' @ n))
               else Inr (n, rest))"

text \<open>\<^verbatim>\<open>Decoder.nsname\<close>: the name split at its colon into prefix and local part.\<close>

definition nsname :: "string \<Rightarrow> string \<Rightarrow> error + (xml_Name \<times> string)" where
  "nsname msg s =
     (case decoder_name msg s of
        Inl e \<Rightarrow> Inl e
      | Inr (n, rest) \<Rightarrow>
          if 1 < count_list n (CHR '':'') then Inl (SyntaxError msg)
          else
            let sp = takeWhile (\<lambda>c. c \<noteq> CHR '':'') n; lo = drop (Suc (length sp)) n
            in if CHR '':'' \<notin> set n \<or> sp = [] \<or> lo = []
               then Inr (\<lparr>Space = [], Local = n\<rparr>, rest)
               else Inr (\<lparr>Space = sp, Local = lo\<rparr>, rest))"

subsection \<open>Character data and attribute values\<close>

text \<open>
  A character reference or entity reference, read after its \<^verbatim>\<open>&\<close>: the text it stands
  for and the rest of the input. The decoder is strict and has no entity map of its
  own, so only the five predefined entities and numeric references are accepted.
\<close>

definition isHexDigit :: "char \<Rightarrow> bool" where
  "isHexDigit c = (is_digit c \<or> is_hex_letter c)"

definition parseDigits :: "nat \<Rightarrow> string \<Rightarrow> nat" where
  "parseDigits base ds = foldl (\<lambda>n c. n * base + (if is_digit c then digit_val c else hex_val c)) 0 ds"

definition entity_table :: "(string \<times> string) list" where
  "entity_table =
     [(''lt'', ''<''), (''gt'', ''>''), (''amp'', ''&''), (''apos'', [CHR 0x27]), (''quot'', [CHR 0x22])]"

definition entity :: "string \<Rightarrow> error + (string \<times> string)" where
  "entity s =
     (case s of
        [] \<Rightarrow> Inl unexpectedEOF
      | b # s1 \<Rightarrow>
          if b = CHR ''#'' then
            (case s1 of
               [] \<Rightarrow> Inl unexpectedEOF
             | b' # s2 \<Rightarrow>
                 let hex = (b' = CHR ''x'');
                     s3 = (if hex then s2 else s1);
                     isdig = (if hex then isHexDigit else is_digit);
                     ds = takeWhile isdig s3;
                     rest = dropWhile isdig s3;
                     ent = ''&#'' @ (if hex then ''x'' else []) @ ds
                 in if rest = [] then Inl unexpectedEOF
                    else if hd rest \<noteq> CHR '';'' then
                      Inl (SyntaxError (''invalid character entity '' @ ent @ '' (no semicolon)''))
                    else if ds \<noteq> [] \<and> parseDigits (if hex then 16 else 10) ds \<le> 0x10FFFF then
                      Inr (encodeRune (parseDigits (if hex then 16 else 10) ds), tl rest)
                    else Inl (SyntaxError (''invalid character entity '' @ ent @ '';'')))
          else
            let n = (if name_byte b then takeWhile name_byte s else []);
                rest = (if name_byte b then dropWhile name_byte s else s)
            in if rest = [] then Inl unexpectedEOF
               else if hd rest \<noteq> CHR '';'' then
                 Inl (SyntaxError (''invalid character entity &'' @ n @ '' (no semicolon)''))
               else
                 (case map_of entity_table n of
                    Some t \<Rightarrow> Inr (t, tl rest)
                  | None \<Rightarrow> Inl (SyntaxError (''invalid character entity &'' @ n @ '';''))))"

lemma tl_dropWhile_le: "length (tl (dropWhile P xs)) \<le> length xs"
  by (metis diff_le_self le_trans length_dropWhile_le length_tl)

lemma entity_length:
  assumes "entity s = Inr (t, r)"
  shows "length r \<le> length s"
proof -
  from assms obtain b s1 where s: "s = b # s1"
    by (cases s) (auto simp: entity_def)
  show ?thesis
  proof (cases "b = CHR ''#''")
    case True
    with assms s obtain b' s2 where s1: "s1 = b' # s2"
      by (cases s1) (auto simp: entity_def)
    from assms s True s1
    have "r = tl (dropWhile isHexDigit s2) \<or> r = tl (dropWhile is_digit (b' # s2))"
      by (auto simp: entity_def Let_def simp del: dropWhile.simps takeWhile.simps
          split: if_splits)
    then show ?thesis
      using tl_dropWhile_le [of isHexDigit s2] tl_dropWhile_le [of is_digit "b' # s2"] s s1
      by auto
  next
    case False
    with assms s have "r = tl (dropWhile name_byte (b # s1)) \<or> r = tl (b # s1)"
      by (auto simp: entity_def Let_def simp del: dropWhile.simps takeWhile.simps
          split: if_splits option.splits)
    then show ?thesis
      using tl_dropWhile_le [of name_byte "b # s1"] s by auto
  qed
qed

text \<open>
  The input loop of \<^verbatim>\<open>Decoder.text\<close>. \<open>quote\<close> is the closing quote of an attribute value
  (\<open>None\<close> for \<^verbatim>\<open>-1\<close>), \<open>cdata\<close> says that a CDATA section is being read, \<open>b0\<close> and \<open>b1\<close> are
  the two bytes read last, \<open>buf\<close> is the text so far. It returns the text and the input
  left. At the end of the input it returns what it has, unless in a CDATA section.
\<close>

function (sequential) text_loop ::
  "char option \<Rightarrow> bool \<Rightarrow> char \<Rightarrow> char \<Rightarrow> string \<Rightarrow> string \<Rightarrow> error + (string \<times> string)" where
  "text_loop quote cdata b0 b1 buf [] =
     (if cdata then Inl (SyntaxError ''unexpected EOF in CDATA section'') else Inr (buf, []))"
| "text_loop quote cdata b0 b1 buf (b # s) =
     (if b0 = CHR '']'' \<and> b1 = CHR '']'' \<and> b = CHR ''>'' then
        (if cdata then Inr (butlast (butlast buf), s)
         else Inl (SyntaxError ''unescaped ]]> not in CDATA section''))
      else if b = CHR ''<'' \<and> \<not> cdata then
        (if quote \<noteq> None then Inl (SyntaxError ''unescaped < inside quoted string'')
         else Inr (buf, b # s))
      else if quote = Some b then Inr (buf, s)
      else if b = CHR ''&'' \<and> \<not> cdata then
        (case entity s of
           Inl e \<Rightarrow> Inl e
         | Inr (t, s') \<Rightarrow> text_loop quote cdata (CHR 0x00) (CHR 0x00) (buf @ t) s')
      else
        text_loop quote cdata b1 b
          (if b = CHR 0x0D then buf @ [CHR 0x0A]
           else if b1 = CHR 0x0D \<and> b = CHR 0x0A then buf
           else buf @ [b]) s)"
  by pat_completeness auto
termination
  by (relation "measure (\<lambda>(quote, cdata, b0, b1, buf, s). length s)")
    (auto dest: entity_length)

lemma text_loop_length:
  "text_loop quote cdata b0 b1 buf s = Inr (d, r) \<Longrightarrow> length r \<le> length s"
proof (induction quote cdata b0 b1 buf s arbitrary: d r rule: text_loop.induct)
  case (1 quote cdata b0 b1 buf)
  then show ?case by (simp split: if_splits)
next
  case (2 quote cdata b0 b1 buf b s)
  show ?case
  proof (cases "b = CHR ''&'' \<and> \<not> cdata \<and> quote \<noteq> Some b
      \<and> \<not> (b0 = CHR '']'' \<and> b1 = CHR '']'' \<and> b = CHR ''>'')")
    case True
    with "2.prems" obtain t s' where e: "entity s = Inr (t, s')"
      and r: "text_loop quote cdata (CHR 0x00) (CHR 0x00) (buf @ t) s' = Inr (d, r)"
      by (auto split: sum.splits)
    from True e r have "length r \<le> length s'"
      by (intro "2.IH"(1)) auto
    with entity_length [OF e] show ?thesis by simp
  next
    case False
    with "2.prems" "2.IH"(2) show ?thesis
      by (fastforce split: if_splits intro: le_SucI)
  qed
qed

declare text_loop.simps [simp del]

definition decoder_text :: "char option \<Rightarrow> bool \<Rightarrow> string \<Rightarrow> error + (string \<times> string)" where
  "decoder_text quote cdata s =
     (case text_loop quote cdata (CHR 0x00) (CHR 0x00) [] s of
        Inl e \<Rightarrow> Inl e
      | Inr (d, r) \<Rightarrow> (case validate d of Some e \<Rightarrow> Inl e | None \<Rightarrow> Inr (d, r)))"

lemma text_length: "decoder_text quote cdata s = Inr (d, r) \<Longrightarrow> length r \<le> length s"
  by (auto simp: decoder_text_def split: sum.splits option.splits dest: text_loop_length)

text \<open>\<^verbatim>\<open>Decoder.attrval\<close> of the strict decoder: a value in double or single quotes.\<close>

definition attrval :: "string \<Rightarrow> error + (string \<times> string)" where
  "attrval s =
     (case s of
        [] \<Rightarrow> Inl unexpectedEOF
      | b # s1 \<Rightarrow>
          if b = CHR 0x22 \<or> b = CHR 0x27 then decoder_text (Some b) False s1
          else Inl (SyntaxError ''unquoted or missing attribute value in element''))"

subsection \<open>Markup\<close>

text \<open>\<^verbatim>\<open>strings.Index\<close>: the first position at which \<open>p\<close> occurs in the string.\<close>

fun index :: "string \<Rightarrow> string \<Rightarrow> nat option" where
  "index p [] = (if p = [] then Some 0 else None)"
| "index p (c # cs) =
     (if take (length p) (c # cs) = p then Some 0 else map_option Suc (index p cs))"

text \<open>
  \<^verbatim>\<open>procInst\<close>: the value of \<^verbatim>\<open>param="..."\<close> or \<^verbatim>\<open>param='...'\<close> in the content of the XML
  declaration, the empty string if there is none.
\<close>

function procInst :: "string \<Rightarrow> string \<Rightarrow> string" where
  "procInst param s =
     (case index (param @ ''='') s of
        None \<Rightarrow> []
      | Some k \<Rightarrow>
          (case drop (k + length (param @ ''='')) s of
             [] \<Rightarrow> []
           | c # rest \<Rightarrow>
               if c = CHR 0x27 \<or> c = CHR 0x22
               then (if c \<in> set rest then takeWhile (\<lambda>x. x \<noteq> c) rest else [])
               else procInst param rest))"
  by pat_completeness auto
termination
proof (relation "measure (\<lambda>(param, s). length s)")
  fix param s :: string and k c rest
  assume "drop (k + length (param @ ''='')) s = c # rest"
  then have "length (c # rest) \<le> length s"
    by (metis diff_le_self length_drop)
  then show "((param, rest), (param, s)) \<in> measure (\<lambda>(param, s). length s)"
    by simp
qed simp

declare procInst.simps [simp del]

text \<open>
  The body of a processing instruction, up to its \<^verbatim>\<open>?>\<close>; \<open>b0\<close> is the byte read last.
\<close>

fun scan_pi :: "char \<Rightarrow> string \<Rightarrow> string \<Rightarrow> (string \<times> string) option" where
  "scan_pi b0 buf [] = None"
| "scan_pi b0 buf (b # s) =
     (if b0 = CHR ''?'' \<and> b = CHR ''>'' then Some (butlast buf, s)
      else scan_pi b (buf @ [b]) s)"

lemma scan_pi_length: "scan_pi b0 buf s = Some (d, r) \<Longrightarrow> length r \<le> length s"
  by (induction b0 buf s rule: scan_pi.induct) (auto split: if_splits intro: le_SucI)

text \<open>
  The body of a comment, read after \<^verbatim>\<open><!--\<close>: once two hyphens in a row have been read
  the next byte must be \<^verbatim>\<open>>\<close>.
\<close>

fun scan_comment :: "char \<Rightarrow> char \<Rightarrow> string \<Rightarrow> string \<Rightarrow> error + (string \<times> string)" where
  "scan_comment b0 b1 buf [] = Inl unexpectedEOF"
| "scan_comment b0 b1 buf (b # s) =
     (if b0 = CHR ''-'' \<and> b1 = CHR ''-'' then
        (if b \<noteq> CHR ''>'' then
           Inl (SyntaxError (''invalid sequence '' @ [CHR 0x22] @ ''--'' @ [CHR 0x22]
                  @ '' not allowed in comments''))
         else Inr (butlast (butlast buf), s))
      else scan_comment b1 b (buf @ [b]) s)"

lemma scan_comment_length:
  "scan_comment b0 b1 buf s = Inr (d, r) \<Longrightarrow> length r \<le> length s"
  by (induction b0 b1 buf s rule: scan_comment.induct) (auto split: if_splits intro: le_SucI)

text \<open>The six bytes \<^verbatim>\<open>CDATA[\<close> that must follow \<^verbatim>\<open><![\<close>, compared one at a time.\<close>

fun expect :: "string \<Rightarrow> string \<Rightarrow> error + string" where
  "expect [] s = Inr s"
| "expect (e # es) [] = Inl unexpectedEOF"
| "expect (e # es) (b # s) =
     (if b \<noteq> e then Inl (SyntaxError ''invalid <![ sequence'') else expect es s)"

lemma expect_length: "expect es s = Inr r \<Longrightarrow> length r \<le> length s"
  by (induction es s rule: expect.induct) (auto split: if_splits intro: le_SucI)

text \<open>A comment inside a directive is skipped up to its \<^verbatim>\<open>-->\<close>.\<close>

fun skip_comment :: "char \<Rightarrow> char \<Rightarrow> string \<Rightarrow> string option" where
  "skip_comment b0 b1 [] = None"
| "skip_comment b0 b1 (b # s) =
     (if b0 = CHR ''-'' \<and> b1 = CHR ''-'' \<and> b = CHR ''>'' then Some s
      else skip_comment b1 b s)"

lemma skip_comment_length: "skip_comment b0 b1 s = Some r \<Longrightarrow> length r \<le> length s"
  by (induction b0 b1 s rule: skip_comment.induct) (auto split: if_splits intro: le_SucI)

text \<open>
  A directive \<^verbatim>\<open><!DOCTYPE ...>\<close>: \<open>directive\<close> is the head of the library's loop and
  \<open>handleB\<close> its label \<^verbatim>\<open>HandleB\<close>. \<open>inquote\<close> is the open quote (0 for none), \<open>depth\<close>
  counts angle brackets open outside quotes; a comment inside is replaced by a space.
\<close>

function directive :: "char \<Rightarrow> int \<Rightarrow> string \<Rightarrow> string \<Rightarrow> error + (string \<times> string)"
  and handleB :: "char \<Rightarrow> int \<Rightarrow> string \<Rightarrow> char \<Rightarrow> string \<Rightarrow> error + (string \<times> string)" where
  "directive inquote depth buf [] = Inl unexpectedEOF"
| "directive inquote depth buf (b # s) =
     (if inquote = CHR 0x00 \<and> b = CHR ''>'' \<and> depth = 0 then Inr (buf, s)
      else handleB inquote depth buf b s)"
| "handleB inquote depth buf b s =
     (if b = inquote then directive (CHR 0x00) depth (buf @ [b]) s
      else if inquote \<noteq> CHR 0x00 then directive inquote depth (buf @ [b]) s
      else if b = CHR 0x27 \<or> b = CHR 0x22 then directive b depth (buf @ [b]) s
      else if b = CHR ''>'' then directive inquote (depth - 1) (buf @ [b]) s
      else if b = CHR ''<'' then
        (case s of
           [] \<Rightarrow> Inl unexpectedEOF
         | c1 # r1 \<Rightarrow>
             if c1 \<noteq> CHR ''!'' then handleB inquote (depth + 1) (buf @ [b]) c1 r1
             else
               (case r1 of
                  [] \<Rightarrow> Inl unexpectedEOF
                | c2 # r2 \<Rightarrow>
                    if c2 \<noteq> CHR ''-'' then handleB inquote (depth + 1) (buf @ [b] @ ''!'') c2 r2
                    else
                      (case r2 of
                         [] \<Rightarrow> Inl unexpectedEOF
                       | c3 # r3 \<Rightarrow>
                           if c3 \<noteq> CHR ''-''
                           then handleB inquote (depth + 1) (buf @ [b] @ ''!-'') c3 r3
                           else
                             (case skip_comment (CHR 0x00) (CHR 0x00) r3 of
                                None \<Rightarrow> Inl unexpectedEOF
                              | Some rest \<Rightarrow> directive inquote depth (buf @ '' '') rest))))
      else directive inquote depth (buf @ [b]) s)"
  by pat_completeness auto
termination
  by (relation "measure (\<lambda>x. case x of
         Inl (inquote, depth, buf, s) \<Rightarrow> 2 * length s
       | Inr (inquote, depth, buf, b, s) \<Rightarrow> 2 * length s + 1)")
    (auto dest: skip_comment_length)

declare directive.simps [simp del] handleB.simps [simp del]

lemma directive_length:
  "directive inquote depth buf s = Inr (d, r) \<Longrightarrow> length r \<le> length s"
  "handleB inquote depth buf b s = Inr (d, r) \<Longrightarrow> length r \<le> length s"
proof (induction inquote depth buf s and inquote depth buf b s arbitrary: d r and d r
    rule: directive_handleB.induct)
  case (1 inquote depth buf)
  then show ?case by (simp add: directive.simps)
next
  case (2 inquote depth buf b s)
  then show ?case by (auto simp: directive.simps split: if_splits intro: le_SucI)
next
  case (3 inquote depth buf b s)
  note prem = "3.prems" [unfolded handleB.simps [of inquote depth buf b s]]
  show ?case
  proof (cases "b = CHR ''<'' \<and> b \<noteq> inquote \<and> inquote = CHR 0x00")
    case False
    with prem "3.IH"(1-4,9) show ?thesis
      by (auto split: if_splits)
  next
    case True
    with prem obtain c1 r1 where s: "s = c1 # r1"
      by (cases s) (auto split: if_splits)
    show ?thesis
    proof (cases "c1 = CHR ''!''")
      case False
      with True s prem have "handleB inquote (depth + 1) (buf @ [b]) c1 r1 = Inr (d, r)"
        by (auto split: if_splits)
      with True s False have "length r \<le> length r1"
        by (intro "3.IH"(5)) auto
      with s show ?thesis by simp
    next
      case c1: True
      with True s prem obtain c2 r2 where r1: "r1 = c2 # r2"
        by (cases r1) (auto split: if_splits)
      show ?thesis
      proof (cases "c2 = CHR ''-''")
        case False
        with True s c1 r1 prem
        have "handleB inquote (depth + 1) (buf @ [b] @ ''!'') c2 r2 = Inr (d, r)"
          by (auto split: if_splits)
        with True s c1 r1 False have "length r \<le> length r2"
          by (intro "3.IH"(6)) auto
        with s r1 show ?thesis by simp
      next
        case c2: True
        with True s c1 r1 prem obtain c3 r3 where r2: "r2 = c3 # r3"
          by (cases r2) (auto split: if_splits)
        show ?thesis
        proof (cases "c3 = CHR ''-''")
          case False
          with True s c1 r1 c2 r2 prem
          have "handleB inquote (depth + 1) (buf @ [b] @ ''!-'') c3 r3 = Inr (d, r)"
            by (auto split: if_splits)
          with True s c1 r1 c2 r2 False have "length r \<le> length r3"
            by (intro "3.IH"(7)) auto
          with s r1 r2 show ?thesis by simp
        next
          case c3: True
          with True s c1 r1 c2 r2 prem obtain rest
            where sk: "skip_comment (CHR 0x00) (CHR 0x00) r3 = Some rest"
              and dr: "directive inquote depth (buf @ '' '') rest = Inr (d, r)"
            by (auto split: if_splits option.splits)
          from True s c1 r1 c2 r2 c3 sk dr have "length r \<le> length rest"
            by (intro "3.IH"(8)) auto
          with skip_comment_length [OF sk] s r1 r2 show ?thesis by simp
        qed
      qed
    qed
  qed
qed


lemma space_length: "length (space s) \<le> length s"
  by (simp add: space_def length_dropWhile_le)

lemma decoder_name_length:
  assumes "decoder_name msg s = Inr (n, r)"
  shows "length r \<le> length s"
proof -
  from assms have "r = dropWhile name_byte s"
    by (auto simp: decoder_name_def Let_def simp del: dropWhile.simps
        split: list.splits if_splits)
  then show ?thesis
    by (simp add: length_dropWhile_le)
qed

lemma nsname_length: "nsname msg s = Inr (n, r) \<Longrightarrow> length r \<le> length s"
  by (auto simp: nsname_def Let_def split: sum.splits if_splits dest: decoder_name_length)

lemma attrval_length: "attrval s = Inr (v, r) \<Longrightarrow> length r \<le> length s"
  by (auto simp: attrval_def split: list.splits if_splits dest!: text_length)

lemma attrs_step_length:
  assumes "space s = b # s1" and "nsname msg (b # s1) = Inr (n, s2)"
    and "space s2 = b2 # s3" and "attrval (space s3) = Inr (v, s4)"
  shows "length s4 < length s"
proof -
  have "length s4 \<le> length (space s3)"
    using assms(4) by (rule attrval_length)
  also have "\<dots> \<le> length s3" by (rule space_length)
  also have "\<dots> < length (space s2)" using assms(3) by simp
  also have "\<dots> \<le> length s2" by (rule space_length)
  also have "\<dots> \<le> length (b # s1)" using assms(2) by (rule nsname_length)
  also have "\<dots> \<le> length s" using assms(1) space_length [of s] by simp
  finally show ?thesis .
qed

text \<open>
  The attribute loop of a start tag, up to its \<^verbatim>\<open>>\<close> or \<^verbatim>\<open>/>\<close>: the attributes in the
  order written, and whether the element is empty (\<^verbatim>\<open>/>\<close>).
\<close>

function attrs :: "string \<Rightarrow> Attr list \<Rightarrow> error + (Attr list \<times> bool \<times> string)" where
  "attrs s acc =
     (case space s of
        [] \<Rightarrow> Inl unexpectedEOF
      | b # s1 \<Rightarrow>
          if b = CHR ''/'' then
            (case s1 of
               [] \<Rightarrow> Inl unexpectedEOF
             | b' # s2 \<Rightarrow>
                 if b' \<noteq> CHR ''>'' then Inl (SyntaxError ''expected /> in element'')
                 else Inr (acc, True, s2))
          else if b = CHR ''>'' then Inr (acc, False, s1)
          else
            (case nsname ''expected attribute name in element'' (b # s1) of
               Inl e \<Rightarrow> Inl e
             | Inr (n, s2) \<Rightarrow>
                 (case space s2 of
                    [] \<Rightarrow> Inl unexpectedEOF
                  | b2 # s3 \<Rightarrow>
                      if b2 \<noteq> CHR ''='' then
                        Inl (SyntaxError ''attribute name without = in element'')
                      else
                        (case attrval (space s3) of
                           Inl e \<Rightarrow> Inl e
                         | Inr (v, s4) \<Rightarrow> attrs s4 (acc @ [\<lparr>Name = n, Value = v\<rparr>])))))"
  by pat_completeness auto
termination
  by (relation "measure (\<lambda>(s, acc). length s)") (auto intro: attrs_step_length)

lemma attrs_length: "attrs s acc = Inr (as, e, r) \<Longrightarrow> length r \<le> length s"
proof (induction s acc arbitrary: as e r rule: attrs.induct)
  case (1 s acc)
  from "1.prems" obtain b s1 where sp: "space s = b # s1"
    by (cases "space s") auto
  have le1: "length s1 < length s"
    using space_length [of s] sp by simp
  show ?case
  proof (cases "b = CHR ''/'' \<or> b = CHR ''>''")
    case True
    with "1.prems" sp le1 show ?thesis
      by (auto split: list.splits if_splits)
  next
    case False
    with "1.prems" sp obtain n s2
      where ns: "nsname ''expected attribute name in element'' (b # s1) = Inr (n, s2)"
      by (auto split: sum.splits)
    with "1.prems" sp False obtain b2 s3 where sp2: "space s2 = b2 # s3"
      by (cases "space s2") auto
    with "1.prems" sp False ns obtain v s4 where eq: "b2 = CHR ''=''"
        and av: "attrval (space s3) = Inr (v, s4)"
        and rec: "attrs s4 (acc @ [\<lparr>Name = n, Value = v\<rparr>]) = Inr (as, e, r)"
      by (auto split: sum.splits if_splits)
    from False sp ns sp2 eq av rec have "length r \<le> length s4"
      by (intro "1.IH") auto
    with attrs_step_length [OF sp ns sp2 av] show ?thesis by simp
  qed
qed

declare attrs.simps [simp del]

text \<open>
  The branches of \<^verbatim>\<open>Decoder.rawToken\<close>, each on the input behind the bytes that select
  it: an end tag (after \<^verbatim>\<open></\<close>), a processing instruction (after \<^verbatim>\<open><?\<close>), a comment
  (after \<^verbatim>\<open><!--\<close>), a CDATA section (after \<^verbatim>\<open><![\<close>), a directive (after \<^verbatim>\<open><!\<close> and its
  first byte \<open>b\<close>) and a start tag (after \<^verbatim>\<open><\<close>).
\<close>

definition rawEndElement :: "string \<Rightarrow> error + (token list \<times> string)" where
  "rawEndElement s =
     (case nsname ''expected element name after </'' s of
        Inl e \<Rightarrow> Inl e
      | Inr (n, s1) \<Rightarrow>
          (case space s1 of
             [] \<Rightarrow> Inl unexpectedEOF
           | b # s2 \<Rightarrow>
               if b \<noteq> CHR ''>'' then
                 Inl (SyntaxError (''invalid characters between </'' @ Local n @ '' and >''))
               else Inr ([EndElement n], s2)))"

definition rawProcInst :: "string \<Rightarrow> error + (token list \<times> string)" where
  "rawProcInst s =
     (case decoder_name ''expected target name after <?'' s of
        Inl e \<Rightarrow> Inl e
      | Inr (target, s1) \<Rightarrow>
          (case scan_pi (CHR 0x00) [] (space s1) of
             None \<Rightarrow> Inl unexpectedEOF
           | Some (data, s2) \<Rightarrow>
               if target = ''xml'' \<and> procInst ''version'' data \<noteq> []
                  \<and> procInst ''version'' data \<noteq> ''1.0''
               then Inl (UnsupportedVersion (procInst ''version'' data))
               else if target = ''xml'' \<and> procInst ''encoding'' data \<noteq> []
                  \<and> map to_lower (procInst ''encoding'' data) \<noteq> ''utf-8''
               then Inl (UnsupportedEncoding (procInst ''encoding'' data))
               else Inr ([ProcInst target data], s2)))"

definition rawComment :: "string \<Rightarrow> error + (token list \<times> string)" where
  "rawComment s =
     (case scan_comment (CHR 0x00) (CHR 0x00) [] s of
        Inl e \<Rightarrow> Inl e
      | Inr (c, r) \<Rightarrow> Inr ([Comment c], r))"

definition rawCDATA :: "string \<Rightarrow> error + (token list \<times> string)" where
  "rawCDATA s =
     (case expect ''CDATA['' s of
        Inl e \<Rightarrow> Inl e
      | Inr s1 \<Rightarrow>
          (case decoder_text None True s1 of
             Inl e \<Rightarrow> Inl e
           | Inr (d, r) \<Rightarrow> Inr ([CharData d], r)))"

definition rawDirective :: "char \<Rightarrow> string \<Rightarrow> error + (token list \<times> string)" where
  "rawDirective b s =
     (case directive (CHR 0x00) 0 [b] s of
        Inl e \<Rightarrow> Inl e
      | Inr (d, r) \<Rightarrow> Inr ([Directive d], r))"

definition rawStartElement :: "string \<Rightarrow> error + (token list \<times> string)" where
  "rawStartElement s =
     (case nsname ''expected element name after <'' s of
        Inl e \<Rightarrow> Inl e
      | Inr (n, s1) \<Rightarrow>
          (case attrs s1 [] of
             Inl e \<Rightarrow> Inl e
           | Inr (as, emptyElement, s2) \<Rightarrow>
               Inr (if emptyElement then [StartElement n as, EndElement n]
                    else [StartElement n as], s2)))"

text \<open>
  \<^verbatim>\<open>Decoder.rawToken\<close>: the next token and the input left. An empty element \<^verbatim>\<open><a/>\<close> gives
  its start and its end token at once (the library hands out the end token at the
  next call, through \<^verbatim>\<open>needClose\<close>).
\<close>

definition rawToken :: "string \<Rightarrow> error + (token list \<times> string)" where
  "rawToken s =
     (case s of
        [] \<Rightarrow> Inl EOF
      | b # s1 \<Rightarrow>
          if b \<noteq> CHR ''<'' then
            (case decoder_text None False s of
               Inl e \<Rightarrow> Inl e
             | Inr (d, r) \<Rightarrow> Inr ([CharData d], r))
          else
            (case s1 of
               [] \<Rightarrow> Inl unexpectedEOF
             | b # s2 \<Rightarrow>
                 if b = CHR ''/'' then rawEndElement s2
                 else if b = CHR ''?'' then rawProcInst s2
                 else if b = CHR ''!'' then
                   (case s2 of
                      [] \<Rightarrow> Inl unexpectedEOF
                    | b # s3 \<Rightarrow>
                        if b = CHR ''-'' then
                          (case s3 of
                             [] \<Rightarrow> Inl unexpectedEOF
                           | b # s4 \<Rightarrow>
                               if b \<noteq> CHR ''-'' then
                                 Inl (SyntaxError ''invalid sequence <!- not part of <!--'')
                               else rawComment s4)
                        else if b = CHR ''['' then rawCDATA s3
                        else rawDirective b s3)
                 else rawStartElement s1))"

lemma space_cons_length: "space s = b # r \<Longrightarrow> length r < length s"
  using space_length [of s] by simp

lemma rawEndElement_length: "rawEndElement s = Inr (ts, r) \<Longrightarrow> length r \<le> length s"
  by (fastforce simp: rawEndElement_def split: sum.splits list.splits if_splits
      dest: nsname_length space_cons_length)

lemma rawProcInst_length:
  assumes "rawProcInst s = Inr (ts, r)"
  shows "length r \<le> length s"
proof -
  from assms obtain target s1 data
    where n: "decoder_name ''expected target name after <?'' s = Inr (target, s1)"
      and p: "scan_pi (CHR 0x00) [] (space s1) = Some (data, r)"
    by (auto simp: rawProcInst_def split: sum.splits option.splits if_splits)
  have "length r \<le> length (space s1)" using p by (rule scan_pi_length)
  also have "\<dots> \<le> length s1" by (rule space_length)
  also have "\<dots> \<le> length s" using n by (rule decoder_name_length)
  finally show ?thesis .
qed

lemma rawComment_length: "rawComment s = Inr (ts, r) \<Longrightarrow> length r \<le> length s"
  by (auto simp: rawComment_def split: sum.splits dest: scan_comment_length)

lemma rawCDATA_length: "rawCDATA s = Inr (ts, r) \<Longrightarrow> length r \<le> length s"
  by (fastforce simp: rawCDATA_def split: sum.splits dest: expect_length text_length)

lemma rawDirective_length: "rawDirective b s = Inr (ts, r) \<Longrightarrow> length r \<le> length s"
  by (auto simp: rawDirective_def split: sum.splits dest: directive_length(1))

lemma rawStartElement_length: "rawStartElement s = Inr (ts, r) \<Longrightarrow> length r \<le> length s"
  by (fastforce simp: rawStartElement_def split: sum.splits dest: nsname_length attrs_length)

lemma text_first_length:
  assumes "b \<noteq> CHR ''<''" and "decoder_text None False (b # s) = Inr (d, r)"
  shows "length r \<le> length s"
proof -
  from assms(2) obtain d' where tl: "text_loop None False (CHR 0x00) (CHR 0x00) [] (b # s) = Inr (d', r)"
    by (auto simp: decoder_text_def split: sum.splits option.splits)
  show ?thesis
  proof (cases "b = CHR ''&''")
    case True
    with tl obtain t s' where e: "entity s = Inr (t, s')"
      and l: "text_loop None False (CHR 0x00) (CHR 0x00) ([] @ t) s' = Inr (d', r)"
      by (auto simp: text_loop.simps split: sum.splits)
    from text_loop_length [OF l] entity_length [OF e] show ?thesis by simp
  next
    case False
    with tl assms(1) obtain buf where "text_loop None False (CHR 0x00) b buf s = Inr (d', r)"
      by (auto simp: text_loop.simps split: if_splits)
    then show ?thesis by (rule text_loop_length)
  qed
qed

lemma rawToken_length:
  assumes "rawToken s = Inr (ts, r)"
  shows "length r < length s"
proof -
  from assms obtain b s1 where s: "s = b # s1"
    by (cases s) (auto simp: rawToken_def)
  show ?thesis
  proof (cases "b = CHR ''<''")
    case False
    with assms s have "\<exists>d. decoder_text None False (b # s1) = Inr (d, r)"
      by (auto simp: rawToken_def split: sum.splits)
    with False text_first_length s show ?thesis by fastforce
  next
    case True
    with assms s have "length r \<le> length s1"
      by (auto simp: rawToken_def split: list.splits if_splits
          dest!: rawEndElement_length rawProcInst_length rawComment_length rawCDATA_length
            rawDirective_length rawStartElement_length)
    with s show ?thesis by simp
  qed
qed

text \<open>
  All raw tokens of the input, in order, up to the error that ends them: \<open>EOF\<close> at the
  end of the input, or the first error of \<open>rawToken\<close>.
\<close>

function rawTokens :: "string \<Rightarrow> token list \<times> error" where
  "rawTokens s =
     (case rawToken s of
        Inl e \<Rightarrow> ([], e)
      | Inr (ts, r) \<Rightarrow> (case rawTokens r of (ts', e) \<Rightarrow> (ts @ ts', e)))"
  by pat_completeness auto
termination
  by (relation "measure length") (auto dest: rawToken_length)

declare rawTokens.simps [simp del]

section \<open>encoding/xml: Decoder.Token and the element read\<close>

text \<open>
  \<^verbatim>\<open>Decoder.Token\<close> adds to \<^verbatim>\<open>rawToken\<close> a stack of open elements (an end tag must close
  the innermost open element, and the input must not end inside one) and the
  translation of name-space prefixes. What \<^verbatim>\<open>Unmarshal\<close> reads is one element: the tokens
  from the first start tag to its end tag. It is kept as a tree. An element whose
  tokens stop at an error before its end tag carries that error (\<open>Failed\<close>) in place of
  the end tag; then so does every element around it. Nothing behind the end tag of the
  first element is ever read.
\<close>

datatype ending = Closed | Failed error

datatype node =
    Element xml_Name "Attr list" "node list" ending
  | Leaf token

type_synonym nsmap = "(string \<times> string) list"

definition xmlURL :: string where
  "xmlURL = ''http://www.w3.org/XML/1998/namespace''"

text \<open>\<^verbatim>\<open>Decoder.translate\<close>, with the empty \<^verbatim>\<open>DefaultSpace\<close> of \<^verbatim>\<open>Unmarshal\<close>.\<close>

definition translate :: "nsmap \<Rightarrow> xml_Name \<Rightarrow> bool \<Rightarrow> xml_Name" where
  "translate ns n isElementName =
     (if Space n = ''xmlns'' then n
      else if Space n = [] \<and> \<not> isElementName then n
      else if Space n = [] \<and> Local n = ''xmlns'' then n
      else
        let sp = (if Space n = ''xml'' then xmlURL else Space n)
        in case map_of ns sp of
             Some v \<Rightarrow> n\<lparr>Space := v\<rparr>
           | None \<Rightarrow> n\<lparr>Space := sp\<rparr>)"

text \<open>The name-space declarations among the attributes of a start tag, applied in order.\<close>

fun pushNs :: "Attr list \<Rightarrow> nsmap \<Rightarrow> nsmap" where
  "pushNs [] ns = ns"
| "pushNs (a # as) ns =
     pushNs as
       (if Space (Name a) = ''xmlns'' then (Local (Name a), Value a) # ns
        else if Space (Name a) = [] \<and> Local (Name a) = ''xmlns'' then ([], Value a) # ns
        else ns)"

text \<open>
  An open element: its name as written (what the end tag is compared with), its
  translated name and attributes, its children so far, and the name-space map to go
  back to when it closes.
\<close>

type_synonym frame = "xml_Name \<times> xml_Name \<times> Attr list \<times> node list \<times> nsmap"

fun failed_tree :: "error \<Rightarrow> frame \<Rightarrow> frame list \<Rightarrow> node" where
  "failed_tree e (raw, n, as, cs, ns) [] = Element n as cs (Failed e)"
| "failed_tree e (raw, n, as, cs, ns) ((raw', n', as', cs', ns') # fs) =
     failed_tree e (raw', n', as', cs' @ [Element n as cs (Failed e)], ns') fs"

text \<open>
  \<open>build ts e ns stk\<close> reads the raw tokens \<open>ts\<close>, which end with the error \<open>e\<close>, with the
  name-space map \<open>ns\<close> and the open elements \<open>stk\<close> (innermost first). It returns the
  first element, or the error met before any start tag (\<^verbatim>\<open>io.EOF\<close> for an input without
  one).
\<close>

fun build :: "token list \<Rightarrow> error \<Rightarrow> nsmap \<Rightarrow> frame list \<Rightarrow> error + node" where
  "build [] e ns [] = Inl e"
| "build [] e ns (f # fs) = Inr (failed_tree (if e = EOF then unexpectedEOF else e) f fs)"
| "build (StartElement n as # ts) e ns fs =
     (let ns' = pushNs as ns
      in build ts e ns'
           ((n, translate ns' n True, map (\<lambda>a. a\<lparr>Name := translate ns' (Name a) False\<rparr>) as, [], ns)
            # fs))"
| "build (EndElement n # ts) e ns [] =
     Inl (SyntaxError (''unexpected end element </'' @ Local n @ ''>''))"
| "build (EndElement n # ts) e ns ((raw, tn, as, cs, ns0) # fs) =
     (if Local raw \<noteq> Local n then
        Inr (failed_tree
               (SyntaxError (''element <'' @ Local raw @ ''> closed by </'' @ Local n @ ''>''))
               (raw, tn, as, cs, ns0) fs)
      else if Space raw \<noteq> Space n then
        Inr (failed_tree
               (SyntaxError (''element <'' @ Local raw @ ''> in space '' @ Space raw
                  @ '' closed by </'' @ Local n @ ''> in space ''
                  @ (if Space n = [] then [CHR 0x22, CHR 0x22] else Space n)))
               (raw, tn, as, cs, ns0) fs)
      else
        (case fs of
           [] \<Rightarrow> Inr (Element tn as cs Closed)
         | (raw', tn', as', cs', ns') # fs' \<Rightarrow>
             build ts e ns0 ((raw', tn', as', cs' @ [Element tn as cs Closed], ns') # fs')))"
| "build (t # ts) e ns [] = build ts e ns []"
| "build (t # ts) e ns ((raw, tn, as, cs, ns0) # fs) =
     build ts e ns ((raw, tn, as, cs @ [Leaf t], ns0) # fs)"

definition parse_document :: "bytes \<Rightarrow> error + node" where
  "parse_document data = (case rawTokens data of (ts, e) \<Rightarrow> build ts e [] [])"

section \<open>encoding/xml: Unmarshal\<close>

text \<open>
  \<^verbatim>\<open>Decoder.Skip\<close> reads the tokens of an element up to its end tag: it fails exactly when
  they stop at an error.
\<close>

fun Skip :: "node \<Rightarrow> error option"
  and Skip_list :: "node list \<Rightarrow> error option" where
  "Skip (Leaf t) = None"
| "Skip (Element n as cs en) =
     (case Skip_list cs of
        Some e \<Rightarrow> Some e
      | None \<Rightarrow> (case en of Closed \<Rightarrow> None | Failed e \<Rightarrow> Some e))"
| "Skip_list [] = None"
| "Skip_list (c # cs) = (case Skip c of Some e \<Rightarrow> Some e | None \<Rightarrow> Skip_list cs)"

subsection \<open>Fields of a basic kind\<close>

text \<open>\<^verbatim>\<open>copyValue\<close> for the three basic kinds of this package.\<close>

definition copyValue_string :: "string \<Rightarrow> error + string" where
  "copyValue_string src = Inr src"

definition copyValue_int :: "string \<Rightarrow> error + int" where
  "copyValue_int src = (if src = [] then Inr 0 else ParseInt (TrimSpace src))"

definition copyValue_float64 :: "string \<Rightarrow> error + float64" where
  "copyValue_float64 src = (if src = [] then Inr float64_zero else ParseFloat (TrimSpace src))"

text \<open>
  The token loop of \<^verbatim>\<open>unmarshal\<close> for a value of a basic kind: character data is
  collected, child elements are skipped, comments and the like are ignored.
\<close>

fun chardata :: "node list \<Rightarrow> error + string" where
  "chardata [] = Inr []"
| "chardata (Leaf (CharData t) # cs) = (case chardata cs of Inl e \<Rightarrow> Inl e | Inr d \<Rightarrow> Inr (t @ d))"
| "chardata (Leaf t # cs) = chardata cs"
| "chardata (Element n as cs' en # cs) =
     (case Skip (Element n as cs' en) of Some e \<Rightarrow> Inl e | None \<Rightarrow> chardata cs)"

text \<open>
  \<^verbatim>\<open>unmarshal\<close> of an element into a value of a basic kind; \<open>copy\<close> is the \<^verbatim>\<open>copyValue\<close> of
  the kind. On an error the value is left as it was. (The decoder calls \<^verbatim>\<open>unmarshal\<close>
  with a start tag only; on a \<open>Leaf\<close> the functions below do nothing.)
\<close>

definition unmarshal_basic :: "(string \<Rightarrow> error + 'a) \<Rightarrow> node \<Rightarrow> 'a \<Rightarrow> 'a \<times> error option" where
  "unmarshal_basic copy c v =
     (case c of
        Leaf t \<Rightarrow> (v, None)
      | Element n as cs en \<Rightarrow>
          (case chardata cs of
             Inl e \<Rightarrow> (v, Some e)
           | Inr d \<Rightarrow>
               (case en of
                  Failed e \<Rightarrow> (v, Some e)
                | Closed \<Rightarrow> (case copy d of Inl e \<Rightarrow> (v, Some e) | Inr x \<Rightarrow> (x, None)))))"

subsection \<open>Structs\<close>

text \<open>
  The \<^verbatim>\<open>typeInfo\<close> of a struct: its tagged fields in the order of declaration. A field is
  bound to an attribute (\<^verbatim>\<open>,attr\<close>) or to a child element, by its local name; what it
  holds besides is how a value read from the document is stored into the struct.
  The \<^verbatim>\<open>omitempty\<close> option of a tag matters to \<^verbatim>\<open>Marshal\<close> only and is not recorded.
\<close>

datatype 's field =
    AttrField string "string \<Rightarrow> 's \<Rightarrow> 's \<times> error option"
  | ElemField string "node \<Rightarrow> 's \<Rightarrow> 's \<times> error option"

text \<open>An attribute field of a basic kind: \<^verbatim>\<open>unmarshalAttr\<close>, that is \<^verbatim>\<open>copyValue\<close>.\<close>

definition attr ::
  "string \<Rightarrow> (('a \<Rightarrow> 'a) \<Rightarrow> 's \<Rightarrow> 's) \<Rightarrow> (string \<Rightarrow> error + 'a) \<Rightarrow> 's field" where
  "attr name upd copy =
     AttrField name
       (\<lambda>v s. case copy v of Inl e \<Rightarrow> (s, Some e) | Inr x \<Rightarrow> (upd (\<lambda>_. x) s, None))"

text \<open>An element field that is a basic value or a struct: \<^verbatim>\<open>unmarshal\<close> works on the field in place.\<close>

definition elem ::
  "string \<Rightarrow> ('s \<Rightarrow> 'a) \<Rightarrow> (('a \<Rightarrow> 'a) \<Rightarrow> 's \<Rightarrow> 's) \<Rightarrow> (node \<Rightarrow> 'a \<Rightarrow> 'a \<times> error option)
     \<Rightarrow> 's field" where
  "elem name get upd dec =
     ElemField name (\<lambda>c s. case dec c (get s) of (x, e) \<Rightarrow> (upd (\<lambda>_. x) s, e))"

text \<open>
  An element field that is a slice: the slice grows by one zero element, the element
  is read into it, and on an error the slice is cut back to its old length.
\<close>

definition slice_elem ::
  "string \<Rightarrow> (('a list \<Rightarrow> 'a list) \<Rightarrow> 's \<Rightarrow> 's) \<Rightarrow> 'a \<Rightarrow> (node \<Rightarrow> 'a \<Rightarrow> 'a \<times> error option)
     \<Rightarrow> 's field" where
  "slice_elem name upd zero dec =
     ElemField name
       (\<lambda>c s. case dec c zero of
                (x, None) \<Rightarrow> (upd (\<lambda>xs. xs @ [x]) s, None)
              | (x, Some e) \<Rightarrow> (s, Some e))"

text \<open>
  The attribute loop of \<^verbatim>\<open>unmarshal\<close>: for every attribute of the start tag, in order,
  every attribute field of that local name is assigned.
\<close>

fun assign_attr :: "'s field list \<Rightarrow> Attr \<Rightarrow> 's \<Rightarrow> 's \<times> error option" where
  "assign_attr [] a s = (s, None)"
| "assign_attr (AttrField name f # fs) a s =
     (if Local (Name a) = name then
        (case f (Value a) s of
           (s', Some e) \<Rightarrow> (s', Some e)
         | (s', None) \<Rightarrow> assign_attr fs a s')
      else assign_attr fs a s)"
| "assign_attr (ElemField name f # fs) a s = assign_attr fs a s"

fun assign_attrs :: "'s field list \<Rightarrow> Attr list \<Rightarrow> 's \<Rightarrow> 's \<times> error option" where
  "assign_attrs flds [] s = (s, None)"
| "assign_attrs flds (a # as) s =
     (case assign_attr flds a s of
        (s', Some e) \<Rightarrow> (s', Some e)
      | (s', None) \<Rightarrow> assign_attrs flds as s')"

text \<open>
  \<^verbatim>\<open>unmarshalPath\<close> for tags without parent path or name space: the first element field
  of the child's local name reads the child; \<open>None\<close> when there is no such field.
\<close>

fun unmarshalPath :: "'s field list \<Rightarrow> xml_Name \<Rightarrow> node \<Rightarrow> 's \<Rightarrow> ('s \<times> error option) option" where
  "unmarshalPath [] n c s = None"
| "unmarshalPath (ElemField name f # fs) n c s =
     (if name = Local n then Some (f c s) else unmarshalPath fs n c s)"
| "unmarshalPath (AttrField name f # fs) n c s = unmarshalPath fs n c s"

text \<open>The token loop of \<^verbatim>\<open>unmarshal\<close> for a struct: a child no field takes is skipped.\<close>

fun children :: "'s field list \<Rightarrow> node list \<Rightarrow> 's \<Rightarrow> 's \<times> error option" where
  "children flds [] s = (s, None)"
| "children flds (Leaf t # cs) s = children flds cs s"
| "children flds (Element n as cs' en # cs) s =
     (case (case unmarshalPath flds n (Element n as cs' en) s of
              Some r \<Rightarrow> r
            | None \<Rightarrow> (s, Skip (Element n as cs' en))) of
        (s', Some e) \<Rightarrow> (s', Some e)
      | (s', None) \<Rightarrow> children flds cs s')"

text \<open>
  \<^verbatim>\<open>unmarshal\<close> of an element into a struct. \<open>xmlname\<close> is the struct's \<^verbatim>\<open>XMLName\<close> field, if
  it has one: the element name its tag asks for, and how the name of the element is
  stored in it. The struct is worked on in place: what has been assigned when an error
  comes up stays assigned.
\<close>

definition unmarshal_struct ::
  "(string \<times> (xml_Name \<Rightarrow> 's \<Rightarrow> 's)) option \<Rightarrow> 's field list \<Rightarrow> node \<Rightarrow> 's \<Rightarrow> 's \<times> error option" where
  "unmarshal_struct xmlname flds c s =
     (case c of
        Leaf t \<Rightarrow> (s, None)
      | Element n as cs en \<Rightarrow>
          (case (case xmlname of
                   None \<Rightarrow> Inr s
                 | Some (name, setName) \<Rightarrow>
                     if name \<noteq> [] \<and> name \<noteq> Local n then
                       Inl (UnmarshalError
                              (''expected element type <'' @ name @ ''> but have <'' @ Local n @ ''>''))
                     else Inr (setName n s)) of
             Inl e \<Rightarrow> (s, Some e)
           | Inr s1 \<Rightarrow>
               (case assign_attrs flds as s1 of
                  (s2, Some e) \<Rightarrow> (s2, Some e)
                | (s2, None) \<Rightarrow>
                    (case children flds cs s2 of
                       (s3, Some e) \<Rightarrow> (s3, Some e)
                     | (s3, None) \<Rightarrow>
                         (case en of Failed e \<Rightarrow> (s3, Some e) | Closed \<Rightarrow> (s3, None))))))"

section \<open>The schema of gpx.go\<close>

text \<open>
  Every struct of \<^verbatim>\<open>gpx.go\<close> is a record of the same name with the same fields in the
  same order. After it come its zero value, the table of its tagged fields (name in the
  document, attribute or element, kind of the field) and the \<^verbatim>\<open>unmarshal\<close> the library
  runs for it by reflection. Fields of several records share their names; they are
  told apart by the record's name (\<open>WayPoint.Name\<close>, \<open>Track.Name\<close>).
\<close>

type_synonym Latitude = float64
type_synonym Longitude = float64
type_synonym Degrees = float64
type_synonym Fix = string
type_synonym DGPSStation = int

text \<open>The five named values of \<^verbatim>\<open>Fix\<close> (\<^verbatim>\<open>None\<close> is \<open>None_Fix\<close> here).\<close>

definition None_Fix :: Fix where
  "None_Fix = ''none''"

definition TwoDimensional :: Fix where
  "TwoDimensional = ''2d''"

definition ThreeDimensional :: Fix where
  "ThreeDimensional = ''3d''"

definition DGPS :: Fix where
  "DGPS = ''dgps''"

definition PPS :: Fix where
  "PPS = ''pps''"

definition xml_Name_zero :: xml_Name where
  "xml_Name_zero = \<lparr>Space = [], Local = []\<rparr>"

definition unmarshal_string :: "node \<Rightarrow> string \<Rightarrow> string \<times> error option" where
  "unmarshal_string = unmarshal_basic copyValue_string"

definition unmarshal_int :: "node \<Rightarrow> int \<Rightarrow> int \<times> error option" where
  "unmarshal_int = unmarshal_basic copyValue_int"

definition unmarshal_float64 :: "node \<Rightarrow> float64 \<Rightarrow> float64 \<times> error option" where
  "unmarshal_float64 = unmarshal_basic copyValue_float64"

text \<open>Email address which is broken into two parts (id and domain)\<close>

record Email =
  XMLName :: xml_Name
  ID :: string
  Domain :: string

definition Email_zero :: Email where
  "Email_zero =
     \<lparr>XMLName = xml_Name_zero,
       ID = [],
       Domain = []\<rparr>"

definition Email_fields :: "Email field list" where
  "Email_fields =
     [attr ''id'' Email.ID_update copyValue_string,
      attr ''domain'' Email.Domain_update copyValue_string]"

definition unmarshal_Email :: "node \<Rightarrow> Email \<Rightarrow> Email \<times> error option" where
  "unmarshal_Email =
     unmarshal_struct (Some (''email'', \<lambda>n. Email.XMLName_update (\<lambda>_. n))) Email_fields"

text \<open>Link is for an external resource with additional information.\<close>

record Link =
  XMLName :: xml_Name
  URL :: string
  Text :: string
  Type :: string

definition Link_zero :: Link where
  "Link_zero =
     \<lparr>XMLName = xml_Name_zero,
       URL = [],
       Text = [],
       Type = []\<rparr>"

definition Link_fields :: "Link field list" where
  "Link_fields =
     [attr ''href'' Link.URL_update copyValue_string,
      elem ''text'' Link.Text Link.Text_update unmarshal_string,
      elem ''type'' Link.Type Link.Type_update unmarshal_string]"

definition unmarshal_Link :: "node \<Rightarrow> Link \<Rightarrow> Link \<times> error option" where
  "unmarshal_Link =
     unmarshal_struct (Some (''link'', \<lambda>n. Link.XMLName_update (\<lambda>_. n))) Link_fields"

text \<open>Person is a person or an organisation\<close>

record Person =
  XMLName :: xml_Name
  Name :: string
  Email :: Email
  Link :: Link

definition Person_zero :: Person where
  "Person_zero =
     \<lparr>XMLName = xml_Name_zero,
       Name = [],
       Email = Email_zero,
       Link = Link_zero\<rparr>"

definition Person_fields :: "Person field list" where
  "Person_fields =
     [elem ''name'' Person.Name Person.Name_update unmarshal_string,
      elem ''email'' Person.Email Person.Email_update unmarshal_Email,
      elem ''link'' Person.Link Person.Link_update unmarshal_Link]"

definition unmarshal_Person :: "node \<Rightarrow> Person \<Rightarrow> Person \<times> error option" where
  "unmarshal_Person =
     unmarshal_struct (Some (''author'', \<lambda>n. Person.XMLName_update (\<lambda>_. n))) Person_fields"

text \<open>Copyright has information about holder and license\<close>

record Copyright =
  XMLName :: xml_Name
  Author :: string
  Year :: string
  License :: string

definition Copyright_zero :: Copyright where
  "Copyright_zero =
     \<lparr>XMLName = xml_Name_zero,
       Author = [],
       Year = [],
       License = []\<rparr>"

definition Copyright_fields :: "Copyright field list" where
  "Copyright_fields =
     [attr ''author'' Copyright.Author_update copyValue_string,
      elem ''year'' Copyright.Year Copyright.Year_update unmarshal_string,
      elem ''license'' Copyright.License Copyright.License_update unmarshal_string]"

definition unmarshal_Copyright :: "node \<Rightarrow> Copyright \<Rightarrow> Copyright \<times> error option" where
  "unmarshal_Copyright =
     unmarshal_struct (Some (''copyright'', \<lambda>n. Copyright.XMLName_update (\<lambda>_. n))) Copyright_fields"

text \<open>Bounds are two latitude longitude pairs defining the extent of an element.\<close>

record Bounds =
  XMLName :: xml_Name
  MinLat :: float64
  MaxLat :: float64
  MinLon :: float64
  MaxLon :: float64

definition Bounds_zero :: Bounds where
  "Bounds_zero =
     \<lparr>XMLName = xml_Name_zero,
       MinLat = float64_zero,
       MaxLat = float64_zero,
       MinLon = float64_zero,
       MaxLon = float64_zero\<rparr>"

definition Bounds_fields :: "Bounds field list" where
  "Bounds_fields =
     [attr ''minlat'' Bounds.MinLat_update copyValue_float64,
      attr ''maxlat'' Bounds.MaxLat_update copyValue_float64,
      attr ''minlon'' Bounds.MinLon_update copyValue_float64,
      attr ''maxlon'' Bounds.MaxLon_update copyValue_float64]"

definition unmarshal_Bounds :: "node \<Rightarrow> Bounds \<Rightarrow> Bounds \<times> error option" where
  "unmarshal_Bounds =
     unmarshal_struct (Some (''bounds'', \<lambda>n. Bounds.XMLName_update (\<lambda>_. n))) Bounds_fields"

text \<open>TrackPointExtension tracks temperature, heart rate and cadence specific to garmin devices\<close>

record TrackPointExtension =
  XMLName :: xml_Name
  Temperature :: int
  HeartRate :: int
  Cadence :: int

definition TrackPointExtension_zero :: TrackPointExtension where
  "TrackPointExtension_zero =
     \<lparr>XMLName = xml_Name_zero,
       Temperature = 0,
       HeartRate = 0,
       Cadence = 0\<rparr>"

definition TrackPointExtension_fields :: "TrackPointExtension field list" where
  "TrackPointExtension_fields =
     [elem ''atemp'' TrackPointExtension.Temperature TrackPointExtension.Temperature_update unmarshal_int,
      elem ''hr'' TrackPointExtension.HeartRate TrackPointExtension.HeartRate_update unmarshal_int,
      elem ''cad'' TrackPointExtension.Cadence TrackPointExtension.Cadence_update unmarshal_int]"

definition unmarshal_TrackPointExtension :: "node \<Rightarrow> TrackPointExtension \<Rightarrow> TrackPointExtension \<times> error option" where
  "unmarshal_TrackPointExtension =
     unmarshal_struct (Some (''TrackPointExtension'', \<lambda>n. TrackPointExtension.XMLName_update (\<lambda>_. n))) TrackPointExtension_fields"

text \<open>Extension extend GPX by adding your own elements from another schema\<close>

record Extension =
  XMLName :: xml_Name
  TrackPointExtensions :: TrackPointExtension

definition Extension_zero :: Extension where
  "Extension_zero =
     \<lparr>XMLName = xml_Name_zero,
       TrackPointExtensions = TrackPointExtension_zero\<rparr>"

definition Extension_fields :: "Extension field list" where
  "Extension_fields =
     [elem ''TrackPointExtension'' Extension.TrackPointExtensions Extension.TrackPointExtensions_update unmarshal_TrackPointExtension]"

definition unmarshal_Extension :: "node \<Rightarrow> Extension \<Rightarrow> Extension \<times> error option" where
  "unmarshal_Extension =
     unmarshal_struct (Some (''extensions'', \<lambda>n. Extension.XMLName_update (\<lambda>_. n))) Extension_fields"

text \<open>Metadata has information about the GPX file\<close>

record Metadata =
  XMLName :: xml_Name
  Name :: string
  Description :: string
  Author :: Person
  Copyright :: Copyright
  Links :: "Link list"
  Timestamp :: string
  Keywords :: string
  Bounds :: Bounds
  Extensions :: Extension

definition Metadata_zero :: Metadata where
  "Metadata_zero =
     \<lparr>XMLName = xml_Name_zero,
       Name = [],
       Description = [],
       Author = Person_zero,
       Copyright = Copyright_zero,
       Links = [],
       Timestamp = [],
       Keywords = [],
       Bounds = Bounds_zero,
       Extensions = Extension_zero\<rparr>"

definition Metadata_fields :: "Metadata field list" where
  "Metadata_fields =
     [elem ''name'' Metadata.Name Metadata.Name_update unmarshal_string,
      elem ''desc'' Metadata.Description Metadata.Description_update unmarshal_string,
      elem ''author'' Metadata.Author Metadata.Author_update unmarshal_Person,
      elem ''copyright'' Metadata.Copyright Metadata.Copyright_update unmarshal_Copyright,
      slice_elem ''link'' Metadata.Links_update Link_zero unmarshal_Link,
      elem ''time'' Metadata.Timestamp Metadata.Timestamp_update unmarshal_string,
      elem ''keywords'' Metadata.Keywords Metadata.Keywords_update unmarshal_string,
      elem ''bounds'' Metadata.Bounds Metadata.Bounds_update unmarshal_Bounds,
      elem ''extensions'' Metadata.Extensions Metadata.Extensions_update unmarshal_Extension]"

definition unmarshal_Metadata :: "node \<Rightarrow> Metadata \<Rightarrow> Metadata \<times> error option" where
  "unmarshal_Metadata =
     unmarshal_struct (Some (''metadata'', \<lambda>n. Metadata.XMLName_update (\<lambda>_. n))) Metadata_fields"

text \<open>WayPoint is a point of interest, or named feature on a map. It is the one struct without an \<^verbatim>\<open>XMLName\<close> field.\<close>

record WayPoint =
  Latitude :: Latitude
  Longitude :: Longitude
  Elevation :: float64
  Timestamp :: string
  MagneticVariation :: Degrees
  GeoIDHeight :: string
  Name :: string
  Comment :: string
  Description :: string
  Source :: string
  Links :: "Link list"
  Symbol :: string
  Type :: string
  Fix :: Fix
  Sat :: int
  HorizontalDilutionOfPrecision :: float64
  VerticalDilutionOfPrecision :: float64
  PositionDilutionOfPrecision :: float64
  AgeOfGpsData :: float64
  DifferentialGPSID :: DGPSStation
  Extensions :: Extension

definition WayPoint_zero :: WayPoint where
  "WayPoint_zero =
     \<lparr>Latitude = float64_zero,
       Longitude = float64_zero,
       Elevation = float64_zero,
       Timestamp = [],
       MagneticVariation = float64_zero,
       GeoIDHeight = [],
       Name = [],
       Comment = [],
       Description = [],
       Source = [],
       Links = [],
       Symbol = [],
       Type = [],
       Fix = [],
       Sat = 0,
       HorizontalDilutionOfPrecision = float64_zero,
       VerticalDilutionOfPrecision = float64_zero,
       PositionDilutionOfPrecision = float64_zero,
       AgeOfGpsData = float64_zero,
       DifferentialGPSID = 0,
       Extensions = Extension_zero\<rparr>"

definition WayPoint_fields :: "WayPoint field list" where
  "WayPoint_fields =
     [attr ''lat'' WayPoint.Latitude_update copyValue_float64,
      attr ''lon'' WayPoint.Longitude_update copyValue_float64,
      elem ''ele'' WayPoint.Elevation WayPoint.Elevation_update unmarshal_float64,
      elem ''time'' WayPoint.Timestamp WayPoint.Timestamp_update unmarshal_string,
      elem ''magvar'' WayPoint.MagneticVariation WayPoint.MagneticVariation_update unmarshal_float64,
      elem ''geoidheight'' WayPoint.GeoIDHeight WayPoint.GeoIDHeight_update unmarshal_string,
      elem ''name'' WayPoint.Name WayPoint.Name_update unmarshal_string,
      elem ''cmt'' WayPoint.Comment WayPoint.Comment_update unmarshal_string,
      elem ''desc'' WayPoint.Description WayPoint.Description_update unmarshal_string,
      elem ''src'' WayPoint.Source WayPoint.Source_update unmarshal_string,
      slice_elem ''link'' WayPoint.Links_update Link_zero unmarshal_Link,
      elem ''sym'' WayPoint.Symbol WayPoint.Symbol_update unmarshal_string,
      elem ''type'' WayPoint.Type WayPoint.Type_update unmarshal_string,
      elem ''fix'' WayPoint.Fix WayPoint.Fix_update unmarshal_string,
      elem ''sat'' WayPoint.Sat WayPoint.Sat_update unmarshal_int,
      elem ''hdop'' WayPoint.HorizontalDilutionOfPrecision WayPoint.HorizontalDilutionOfPrecision_update unmarshal_float64,
      elem ''vdop'' WayPoint.VerticalDilutionOfPrecision WayPoint.VerticalDilutionOfPrecision_update unmarshal_float64,
      elem ''pdop'' WayPoint.PositionDilutionOfPrecision WayPoint.PositionDilutionOfPrecision_update unmarshal_float64,
      elem ''ageofgpsdata'' WayPoint.AgeOfGpsData WayPoint.AgeOfGpsData_update unmarshal_float64,
      elem ''dgpsid'' WayPoint.DifferentialGPSID WayPoint.DifferentialGPSID_update unmarshal_int,
      elem ''extensions'' WayPoint.Extensions WayPoint.Extensions_update unmarshal_Extension]"

definition unmarshal_WayPoint :: "node \<Rightarrow> WayPoint \<Rightarrow> WayPoint \<times> error option" where
  "unmarshal_WayPoint = unmarshal_struct None WayPoint_fields"

text \<open>Route is an ordered list of Waypoints representing a series of points leading to a destination.\<close>

record Route =
  XMLName :: xml_Name
  Name :: string
  Comment :: string
  Description :: string
  Source :: string
  Links :: "Link list"
  Number :: int
  Type :: string
  Extensions :: Extension
  RoutePoints :: "WayPoint list"

definition Route_zero :: Route where
  "Route_zero =
     \<lparr>XMLName = xml_Name_zero,
       Name = [],
       Comment = [],
       Description = [],
       Source = [],
       Links = [],
       Number = 0,
       Type = [],
       Extensions = Extension_zero,
       RoutePoints = []\<rparr>"

definition Route_fields :: "Route field list" where
  "Route_fields =
     [elem ''name'' Route.Name Route.Name_update unmarshal_string,
      elem ''cmt'' Route.Comment Route.Comment_update unmarshal_string,
      elem ''desc'' Route.Description Route.Description_update unmarshal_string,
      elem ''src'' Route.Source Route.Source_update unmarshal_string,
      slice_elem ''link'' Route.Links_update Link_zero unmarshal_Link,
      elem ''number'' Route.Number Route.Number_update unmarshal_int,
      elem ''type'' Route.Type Route.Type_update unmarshal_string,
      elem ''extensions'' Route.Extensions Route.Extensions_update unmarshal_Extension,
      slice_elem ''rtept'' Route.RoutePoints_update WayPoint_zero unmarshal_WayPoint]"

definition unmarshal_Route :: "node \<Rightarrow> Route \<Rightarrow> Route \<times> error option" where
  "unmarshal_Route =
     unmarshal_struct (Some (''rte'', \<lambda>n. Route.XMLName_update (\<lambda>_. n))) Route_fields"

text \<open>TrackSegment has a list of continious span of TrackPoints\<close>

record TrackSegment =
  XMLName :: xml_Name
  TrackPoint :: "WayPoint list"
  Extensions :: Extension

definition TrackSegment_zero :: TrackSegment where
  "TrackSegment_zero =
     \<lparr>XMLName = xml_Name_zero,
       TrackPoint = [],
       Extensions = Extension_zero\<rparr>"

definition TrackSegment_fields :: "TrackSegment field list" where
  "TrackSegment_fields =
     [slice_elem ''trkpt'' TrackSegment.TrackPoint_update WayPoint_zero unmarshal_WayPoint,
      elem ''extensions'' TrackSegment.Extensions TrackSegment.Extensions_update unmarshal_Extension]"

definition unmarshal_TrackSegment :: "node \<Rightarrow> TrackSegment \<Rightarrow> TrackSegment \<times> error option" where
  "unmarshal_TrackSegment =
     unmarshal_struct (Some (''trkseg'', \<lambda>n. TrackSegment.XMLName_update (\<lambda>_. n))) TrackSegment_fields"

text \<open>Track represents a track - an ordered list of points describing a path\<close>

record Track =
  XMLName :: xml_Name
  Name :: string
  Comment :: string
  Description :: string
  Source :: string
  Links :: "Link list"
  Number :: int
  Type :: string
  Extensions :: Extension
  TrackSegments :: "TrackSegment list"

definition Track_zero :: Track where
  "Track_zero =
     \<lparr>XMLName = xml_Name_zero,
       Name = [],
       Comment = [],
       Description = [],
       Source = [],
       Links = [],
       Number = 0,
       Type = [],
       Extensions = Extension_zero,
       TrackSegments = []\<rparr>"

definition Track_fields :: "Track field list" where
  "Track_fields =
     [elem ''name'' Track.Name Track.Name_update unmarshal_string,
      elem ''cmt'' Track.Comment Track.Comment_update unmarshal_string,
      elem ''desc'' Track.Description Track.Description_update unmarshal_string,
      elem ''src'' Track.Source Track.Source_update unmarshal_string,
      slice_elem ''link'' Track.Links_update Link_zero unmarshal_Link,
      elem ''number'' Track.Number Track.Number_update unmarshal_int,
      elem ''type'' Track.Type Track.Type_update unmarshal_string,
      elem ''extensions'' Track.Extensions Track.Extensions_update unmarshal_Extension,
      slice_elem ''trkseg'' Track.TrackSegments_update TrackSegment_zero unmarshal_TrackSegment]"

definition unmarshal_Track :: "node \<Rightarrow> Track \<Rightarrow> Track \<times> error option" where
  "unmarshal_Track =
     unmarshal_struct (Some (''trk'', \<lambda>n. Track.XMLName_update (\<lambda>_. n))) Track_fields"

text \<open>GPX is the root element\<close>

record GPX =
  XMLName :: xml_Name
  Version :: string
  Creator :: string
  Metadata :: Metadata
  Waypoints :: "WayPoint list"
  Routes :: "Route list"
  Tracks :: Track

definition GPX_zero :: GPX where
  "GPX_zero =
     \<lparr>XMLName = xml_Name_zero,
       Version = [],
       Creator = [],
       Metadata = Metadata_zero,
       Waypoints = [],
       Routes = [],
       Tracks = Track_zero\<rparr>"

definition GPX_fields :: "GPX field list" where
  "GPX_fields =
     [attr ''version'' GPX.Version_update copyValue_string,
      attr ''creator'' GPX.Creator_update copyValue_string,
      elem ''metadata'' GPX.Metadata GPX.Metadata_update unmarshal_Metadata,
      slice_elem ''wpt'' GPX.Waypoints_update WayPoint_zero unmarshal_WayPoint,
      slice_elem ''rte'' GPX.Routes_update Route_zero unmarshal_Route,
      elem ''trk'' GPX.Tracks GPX.Tracks_update unmarshal_Track]"

definition unmarshal_GPX :: "node \<Rightarrow> GPX \<Rightarrow> GPX \<times> error option" where
  "unmarshal_GPX =
     unmarshal_struct (Some (''gpx'', \<lambda>n. GPX.XMLName_update (\<lambda>_. n))) GPX_fields"

text \<open>Point with optional elevation and time (not reachable from \<^verbatim>\<open>GPX\<close>)\<close>

record Point =
  XMLName :: xml_Name
  Latitude :: Latitude
  Longitude :: Longitude
  Elevation :: float64
  Timestamp :: string

definition Point_zero :: Point where
  "Point_zero =
     \<lparr>XMLName = xml_Name_zero,
       Latitude = float64_zero,
       Longitude = float64_zero,
       Elevation = float64_zero,
       Timestamp = []\<rparr>"

definition Point_fields :: "Point field list" where
  "Point_fields =
     [attr ''lat'' Point.Latitude_update copyValue_float64,
      attr ''lon'' Point.Longitude_update copyValue_float64,
      elem ''ele'' Point.Elevation Point.Elevation_update unmarshal_float64,
      elem ''time'' Point.Timestamp Point.Timestamp_update unmarshal_string]"

definition unmarshal_Point :: "node \<Rightarrow> Point \<Rightarrow> Point \<times> error option" where
  "unmarshal_Point =
     unmarshal_struct (Some (''pt'', \<lambda>n. Point.XMLName_update (\<lambda>_. n))) Point_fields"

text \<open>PointSegment is a sequence of Points (not reachable from \<^verbatim>\<open>GPX\<close>)\<close>

record PointSegment =
  XMLName :: xml_Name
  Points :: "Point list"

definition PointSegment_zero :: PointSegment where
  "PointSegment_zero =
     \<lparr>XMLName = xml_Name_zero,
       Points = []\<rparr>"

definition PointSegment_fields :: "PointSegment field list" where
  "PointSegment_fields =
     [slice_elem ''pt'' PointSegment.Points_update Point_zero unmarshal_Point]"

definition unmarshal_PointSegment :: "node \<Rightarrow> PointSegment \<Rightarrow> PointSegment \<times> error option" where
  "unmarshal_PointSegment =
     unmarshal_struct (Some (''ptseg'', \<lambda>n. PointSegment.XMLName_update (\<lambda>_. n))) PointSegment_fields"

section \<open>Parse and ParseFile\<close>

text \<open>
  \<^verbatim>\<open>xml.Unmarshal(bytes, g)\<close> for \<open>g\<close> of type \<^verbatim>\<open>*GPX\<close>: the tokens before the first start
  tag are passed over, and the first element is unmarshalled into \<open>g\<close>. The result is
  \<open>g\<close> as the call leaves it, and the error returned (\<open>None\<close> for \<^verbatim>\<open>nil\<close>).
\<close>

definition Unmarshal :: "bytes \<Rightarrow> GPX \<Rightarrow> GPX \<times> error option" where
  "Unmarshal data g =
     (case parse_document data of
        Inl e \<Rightarrow> (g, Some e)
      | Inr el \<Rightarrow> unmarshal_GPX el g)"

text \<open>
  \<^verbatim>\<open>
  func Parse(bytes []byte, g *GPX) error {
      err := xml.Unmarshal(bytes, g)
      if err != nil {
          return err
      }
      return nil
  }
  \<close>
\<close>

definition Parse :: "bytes \<Rightarrow> GPX \<Rightarrow> GPX \<times> error option" where
  "Parse bytes g =
     (case Unmarshal bytes g of
        (g', Some err) \<Rightarrow> (g', Some err)
      | (g', None) \<Rightarrow> (g', None))"

text \<open>
  \<^verbatim>\<open>
  func ParseFile(fileName string) (*GPX, error) {
      g := GPX{}
      bytes, err := ioutil.ReadFile(fileName)
      if err != nil {
          return &g, err
      }
      err = Parse(bytes, &g)
      if err != nil {
          return &g, err
      }
      return &g, nil
  }
  \<close>
  The storage is a parameter: \<open>ReadFile\<close> gives, for a file name, the content of the file
  or the error of reading it.
\<close>

definition ParseFile :: "(string \<Rightarrow> error + bytes) \<Rightarrow> string \<Rightarrow> GPX \<times> error option" where
  "ParseFile ReadFile fileName =
     (let g = GPX_zero
      in case ReadFile fileName of
           Inl err \<Rightarrow> (g, Some err)
         | Inr bytes \<Rightarrow>
             (case Parse bytes g of
                (g', Some err) \<Rightarrow> (g', Some err)
              | (g', None) \<Rightarrow> (g', None)))"

section \<open>Vocabulary of the statements\<close>

text \<open>
  The child elements of a given local name among the children of an element, in
  document order; the children of an element; and the text of an element, as
  \<^verbatim>\<open>unmarshal\<close> reads it into a string.
\<close>

definition is_element :: "string \<Rightarrow> node \<Rightarrow> bool" where
  "is_element name c = (case c of Element n as cs en \<Rightarrow> Local n = name | Leaf t \<Rightarrow> False)"

definition elements :: "string \<Rightarrow> node list \<Rightarrow> node list" where
  "elements name cs = filter (is_element name) cs"

fun content :: "node \<Rightarrow> node list" where
  "content (Element n as cs en) = cs"
| "content (Leaf t) = []"

definition element_text :: "node \<Rightarrow> string" where
  "element_text c = fst (unmarshal_string c [])"

text \<open>
  The elements named \<open>name\<close> among the children of the elements named \<open>parent\<close> among
  \<open>cs\<close>, in document order.
\<close>

definition grandchildren :: "string \<Rightarrow> string \<Rightarrow> node list \<Rightarrow> node list" where
  "grandchildren parent name cs = concat (map (\<lambda>c. elements name (content c)) (elements parent cs))"

text \<open>
  The character data of an element, given its children: the text of the \<open>CharData\<close> tokens
  among them, in order; comments, processing instructions and child elements add
  nothing. \<open>fix_text\<close> is the character data of the last \<^verbatim>\<open>fix\<close> child of an element, the
  empty string when it has none.
\<close>

fun character_data :: "node list \<Rightarrow> string" where
  "character_data [] = []"
| "character_data (Leaf (CharData t) # cs) = t @ character_data cs"
| "character_data (c # cs) = character_data cs"

definition fix_text :: "node \<Rightarrow> string" where
  "fix_text c =
     (if elements ''fix'' (content c) = [] then []
      else character_data (content (last (elements ''fix'' (content c)))))"

text \<open>
  The value of the last attribute of local name \<open>name\<close> in a start tag, \<open>v\<close> when it has
  none; the name of an element; a child that is no element; and an element of local
  name \<open>name\<close> that is closed and has no child element.
\<close>

fun attribute :: "string \<Rightarrow> Attr list \<Rightarrow> string \<Rightarrow> string" where
  "attribute name [] v = v"
| "attribute name (a # as) v = attribute name as (if Local (Attr.Name a) = name then Value a else v)"

fun element_name :: "node \<Rightarrow> xml_Name" where
  "element_name (Element n as cs en) = n"
| "element_name (Leaf t) = xml_Name_zero"

definition is_leaf :: "node \<Rightarrow> bool" where
  "is_leaf c = (case c of Leaf t \<Rightarrow> True | Element n as cs en \<Rightarrow> False)"

definition empty_element :: "string \<Rightarrow> node \<Rightarrow> bool" where
  "empty_element name c =
     (case c of
        Leaf t \<Rightarrow> False
      | Element n as cs en \<Rightarrow> Local n = name \<and> en = Closed \<and> list_all is_leaf cs)"

text \<open>
  A waypoint element without its \<^verbatim>\<open>fix\<close> children; an element with \<open>T\<close> applied to its
  children of local name \<open>name\<close>; and a document without the \<^verbatim>\<open>fix\<close> children of its
  waypoints (\<^verbatim>\<open>wpt\<close>), of the points of its routes (\<^verbatim>\<open>rtept\<close> in \<^verbatim>\<open>rte\<close>) and of the points
  of its track segments (\<^verbatim>\<open>trkpt\<close> in \<^verbatim>\<open>trkseg\<close> in \<^verbatim>\<open>trk\<close>).
\<close>

definition without_fix :: "node \<Rightarrow> node" where
  "without_fix c =
     (case c of
        Leaf t \<Rightarrow> Leaf t
      | Element n as cs en \<Rightarrow> Element n as (filter (\<lambda>d. \<not> is_element ''fix'' d) cs) en)"

definition on_children :: "string \<Rightarrow> (node \<Rightarrow> node) \<Rightarrow> node \<Rightarrow> node" where
  "on_children name T c =
     (case c of
        Leaf t \<Rightarrow> Leaf t
      | Element n as cs en \<Rightarrow> Element n as (map (\<lambda>d. if is_element name d then T d else d) cs) en)"

definition document_without_fix :: "node \<Rightarrow> node" where
  "document_without_fix c =
     on_children ''wpt'' without_fix
       (on_children ''rte'' (on_children ''rtept'' without_fix)
          (on_children ''trk'' (on_children ''trkseg'' (on_children ''trkpt'' without_fix)) c))"

text \<open>
  A field function is strict when it reports an error for every element whose tokens
  stop at an error. Every table of this package is made of strict fields.
\<close>

definition strict_field :: "'s field \<Rightarrow> bool" where
  "strict_field fld =
     (case fld of
        AttrField name f \<Rightarrow> True
      | ElemField name f \<Rightarrow> (\<forall>c s. Skip c \<noteq> None \<longrightarrow> snd (f c s) \<noteq> None))"

text \<open>
  A field function is pure when the error it reports does not depend on the record it
  works on. A transformation of elements keeps an element that is complete when the
  result is a complete element of the same name.
\<close>

definition pure_field :: "'s field \<Rightarrow> bool" where
  "pure_field fld =
     (case fld of
        AttrField name f \<Rightarrow> (\<forall>v s s'. snd (f v s) = snd (f v s'))
      | ElemField name f \<Rightarrow> (\<forall>c s s'. snd (f c s) = snd (f c s')))"

definition keeps :: "(node \<Rightarrow> node) \<Rightarrow> bool" where
  "keeps T = (\<forall>n as cs en. Skip (Element n as cs en) = None \<longrightarrow>
     (\<exists>as' cs'. T (Element n as cs en) = Element n as' cs' Closed \<and> Skip_list cs' = None))"

text \<open>
  An error of the library itself, as opposed to the mark \<open>NotModelled\<close> of an input
  outside the fragment covered.
\<close>

definition library_error :: "error \<Rightarrow> bool" where
  "library_error e = (case e of NotModelled n \<Rightarrow> False | _ \<Rightarrow> True)"

text \<open>
  A storage with two files for the concrete cases below: a minimal document, and a
  document cut off inside its root element. Every other name is a missing file.
\<close>

definition example_files :: "string \<Rightarrow> error + bytes" where
  \<open>example_files fileName =
     (if fileName = ''minimal.gpx'' then Inr ''<gpx version="1.1" creator="test"></gpx>''
      else if fileName = ''cut.gpx'' then Inr ''<gpx version="1.1" creator="test"><trk>''
      else Inl (IOError ''open: no such file or directory''))\<close>

section \<open>Evaluation rules\<close>

text \<open>
  The definitions that the simplifier unfolds to run the model on a concrete input:
  the tokenizer, the number parsers, the struct tables and the zero values.
\<close>

lemmas lex_eval = rawToken_def rawStartElement_def rawEndElement_def rawProcInst_def rawComment_def
  rawCDATA_def rawDirective_def nsname_def decoder_name_def name_byte_def isNameByte_def
  is_letter_def is_digit_def byte_def isName_def attrs.simps space_def is_space_def attrval_def
  decoder_text_def text_loop.simps validate.simps isInCharacterRange_def unexpectedEOF_def Let_def
  entity_def rawTokens.simps parse_document_def translate_def

lemmas num_eval = copyValue_string_def copyValue_int_def copyValue_float64_def ParseInt_def
  ParseFloat_def TrimSpace_def trim_left.simps space_runes_def special_def readFloat_def
  to_lower_def digit_val_def round_float64_def binexp_def bitlen.simps pow2_le_def
  nearest_even_def float64_zero_def underscoreOK_def Fract_of_int_quotient is_digit_def byte_def
  is_hex_letter_def hex_val_def Let_def

lemmas unmarshal_eval = unmarshal_struct_def
  unmarshal_basic_def unmarshal_string_def unmarshal_int_def unmarshal_float64_def
  attr_def elem_def slice_elem_def
  unmarshal_GPX_def GPX_fields_def unmarshal_Metadata_def Metadata_fields_def
  unmarshal_WayPoint_def WayPoint_fields_def unmarshal_Route_def Route_fields_def
  unmarshal_Track_def Track_fields_def unmarshal_TrackSegment_def TrackSegment_fields_def
  unmarshal_Extension_def Extension_fields_def unmarshal_TrackPointExtension_def
  TrackPointExtension_fields_def unmarshal_Link_def Link_fields_def unmarshal_Person_def
  Person_fields_def unmarshal_Email_def Email_fields_def unmarshal_Copyright_def
  Copyright_fields_def unmarshal_Bounds_def Bounds_fields_def

lemmas zero_eval = GPX_zero_def Metadata_zero_def WayPoint_zero_def Route_zero_def Track_zero_def
  TrackSegment_zero_def Extension_zero_def TrackPointExtension_zero_def Link_zero_def
  Person_zero_def Email_zero_def Copyright_zero_def Bounds_zero_def xml_Name_zero_def

section \<open>The loops of unmarshal\<close>

lemma unmarshalPath_Some:
  "unmarshalPath flds n c s = Some r \<Longrightarrow> \<exists>name f. ElemField name f \<in> set flds \<and> name = Local n \<and> r = f c s"
  by (induction flds n c s rule: unmarshalPath.induct) (auto split: if_splits)

lemma children_proj:
  assumes "\<And>name f c s. ElemField name f \<in> set flds \<Longrightarrow> proj (fst (f c s)) = proj s"
  shows "proj (fst (children flds cs s)) = proj s"
proof (induction cs arbitrary: s)
  case Nil
  show ?case by simp
next
  case (Cons c cs)
  show ?case
  proof (cases c)
    case (Leaf t)
    with Cons.IH show ?thesis by simp
  next
    case (Element n as cs' en)
    obtain s' e where r: "(case unmarshalPath flds n c s of Some r \<Rightarrow> r | None \<Rightarrow> (s, Skip c)) = (s', e)"
      by (cases "case unmarshalPath flds n c s of Some r \<Rightarrow> r | None \<Rightarrow> (s, Skip c)") auto
    have s': "proj s' = proj s"
    proof (cases "unmarshalPath flds n c s")
      case None
      with r show ?thesis by simp
    next
      case (Some x)
      from unmarshalPath_Some [OF Some] obtain name f
        where mem: "ElemField name f \<in> set flds" and x: "x = f c s" by blast
      have "proj (fst (f c s)) = proj s" using mem by (rule assms)
      moreover have "fst (f c s) = s'" using Some r x by simp
      ultimately show ?thesis by simp
    qed
    from r Element have step: "children flds (c # cs) s =
        (case e of Some x \<Rightarrow> (s', Some x) | None \<Rightarrow> children flds cs s')"
      by (simp del: Skip.simps split: option.splits)
    show ?thesis
      using step s' Cons.IH [of s'] by (simp split: option.splits)
  qed
qed

lemma assign_attr_proj:
  assumes "\<And>name f v s. AttrField name f \<in> set flds \<Longrightarrow> name = Local (Attr.Name a)
    \<Longrightarrow> proj (fst (f v s)) = proj s"
  shows "proj (fst (assign_attr flds a s)) = proj s"
  using assms
proof (induction flds arbitrary: s)
  case Nil
  then show ?case by simp
next
  case (Cons fld fs)
  have IH: "proj (fst (assign_attr fs a t)) = proj t" for t
  proof (rule Cons.IH)
    fix name f v s
    assume "AttrField name f \<in> set fs" "name = Local (Attr.Name a)"
    then show "proj (fst (f v s)) = proj s"
      using Cons.prems [of name f v s] by simp
  qed
  show ?case
  proof (cases fld)
    case (ElemField name f)
    with IH show ?thesis by simp
  next
    case (AttrField name f)
    show ?thesis
    proof (cases "Local (Attr.Name a) = name")
      case False
      with AttrField IH show ?thesis by simp
    next
      case True
      obtain s' e where r: "f (Value a) s = (s', e)" by (cases "f (Value a) s") auto
      have "proj (fst (f (Value a) s)) = proj s"
        by (rule Cons.prems) (use AttrField True in auto)
      with r have s': "proj s' = proj s" by simp
      show ?thesis
      proof (cases e)
        case None
        with AttrField True r s' IH [of s'] show ?thesis by simp
      next
        case (Some x)
        with AttrField True r s' show ?thesis by simp
      qed
    qed
  qed
qed

lemma assign_attrs_proj:
  assumes "\<And>name f v s a. AttrField name f \<in> set flds \<Longrightarrow> a \<in> set as
    \<Longrightarrow> name = Local (Attr.Name a) \<Longrightarrow> proj (fst (f v s)) = proj s"
  shows "proj (fst (assign_attrs flds as s)) = proj s"
  using assms
proof (induction as arbitrary: s)
  case Nil
  then show ?case by simp
next
  case (Cons a as)
  obtain s' e where r: "assign_attr flds a s = (s', e)" by (cases "assign_attr flds a s") auto
  have "proj (fst (assign_attr flds a s)) = proj s"
    by (rule assign_attr_proj) (use Cons.prems in auto)
  with r have s': "proj s' = proj s" by simp
  show ?case
  proof (cases e)
    case None
    have "proj (fst (assign_attrs flds as s')) = proj s'"
      by (rule Cons.IH) (use Cons.prems in auto)
    with None r s' show ?thesis by simp
  next
    case (Some x)
    with r s' show ?thesis by simp
  qed
qed

lemma unmarshal_struct_proj:
  assumes "\<And>name setName n s. xmlname = Some (name, setName) \<Longrightarrow> proj (setName n s) = proj s"
    and "\<And>name f v s a. AttrField name f \<in> set flds \<Longrightarrow> a \<in> set as
      \<Longrightarrow> name = Local (Attr.Name a) \<Longrightarrow> proj (fst (f v s)) = proj s"
    and "\<And>name f c s. ElemField name f \<in> set flds \<Longrightarrow> proj (fst (f c s)) = proj s"
  shows "proj (fst (unmarshal_struct xmlname flds (Element n as cs en) s)) = proj s"
proof -
  define s1 where "s1 = (case xmlname of None \<Rightarrow> s | Some (name, setName) \<Rightarrow> setName n s)"
  have s1: "proj s1 = proj s"
    using assms(1) by (auto simp: s1_def split: option.splits)
  have a: "proj (fst (assign_attrs flds as s1)) = proj s1"
    by (rule assign_attrs_proj) (use assms(2) in auto)
  have c: "proj (fst (children flds cs s2)) = proj s2" for s2
    by (rule children_proj) (use assms(3) in auto)
  show ?thesis
    using s1 a c [of "fst (assign_attrs flds as s1)"]
    by (auto simp: unmarshal_struct_def s1_def split: option.splits prod.splits ending.splits if_splits)
qed

lemma unmarshal_struct_None:
  assumes "unmarshal_struct xmlname flds (Element n as cs en) s = (r, None)"
  shows "\<exists>s2. assign_attrs flds as
           (case xmlname of None \<Rightarrow> s | Some (name, setName) \<Rightarrow> setName n s) = (s2, None)
         \<and> children flds cs s2 = (r, None) \<and> en = Closed"
  using assms
  by (auto simp: unmarshal_struct_def split: option.splits prod.splits ending.splits if_splits sum.splits)

lemma children_Cons_Element:
  "children flds (Element n as cs' en # cs) s = (r, None) \<longleftrightarrow>
     (\<exists>s1. (case unmarshalPath flds n (Element n as cs' en) s of
               Some x \<Rightarrow> x | None \<Rightarrow> (s, Skip (Element n as cs' en))) = (s1, None)
           \<and> children flds cs s1 = (r, None))"
  by (auto simp del: Skip.simps split: prod.splits option.splits)


lemma Parse_document:
  "parse_document b = Inr el \<Longrightarrow> Parse b g = unmarshal_GPX el g"
  by (simp add: Parse_def Unmarshal_def split: prod.splits option.splits)

section \<open>Concrete documents\<close>

lemma parse_minimal:
  \<open>parse_document ''<gpx version="1.1" creator="test"></gpx>'' =
     Inr (Element \<lparr>Space = [], Local = ''gpx''\<rparr>
       [\<lparr>Attr.Name = \<lparr>Space = [], Local = ''version''\<rparr>, Value = ''1.1''\<rparr>,
        \<lparr>Attr.Name = \<lparr>Space = [], Local = ''creator''\<rparr>, Value = ''test''\<rparr>] [] Closed)\<close>
  by (simp add: lex_eval)

lemma parse_cut:
  \<open>parse_document ''<gpx version="1.1" creator="test"><trk>'' =
     Inr (Element \<lparr>Space = [], Local = ''gpx''\<rparr>
       [\<lparr>Attr.Name = \<lparr>Space = [], Local = ''version''\<rparr>, Value = ''1.1''\<rparr>,
        \<lparr>Attr.Name = \<lparr>Space = [], Local = ''creator''\<rparr>, Value = ''test''\<rparr>]
       [Element \<lparr>Space = [], Local = ''trk''\<rparr> [] [] (Failed (SyntaxError ''unexpected EOF''))]
       (Failed (SyntaxError ''unexpected EOF'')))\<close>
  by (simp add: lex_eval)


lemma parse_two_wpt:
  \<open>parse_document ''<gpx><wpt lat="1" lon="2"></wpt><wpt lat="3" lon="4"></wpt></gpx>'' =
     Inr (Element \<lparr>Space = [], Local = ''gpx''\<rparr> []
       [Element \<lparr>Space = [], Local = ''wpt''\<rparr>
          [\<lparr>Attr.Name = \<lparr>Space = [], Local = ''lat''\<rparr>, Value = ''1''\<rparr>,
           \<lparr>Attr.Name = \<lparr>Space = [], Local = ''lon''\<rparr>, Value = ''2''\<rparr>] [] Closed,
        Element \<lparr>Space = [], Local = ''wpt''\<rparr>
          [\<lparr>Attr.Name = \<lparr>Space = [], Local = ''lat''\<rparr>, Value = ''3''\<rparr>,
           \<lparr>Attr.Name = \<lparr>Space = [], Local = ''lon''\<rparr>, Value = ''4''\<rparr>] [] Closed]
       Closed)\<close>
  by (simp add: lex_eval)

lemma parse_two_wpt_swapped:
  \<open>parse_document ''<gpx><wpt lat="3" lon="4"></wpt><wpt lat="1" lon="2"></wpt></gpx>'' =
     Inr (Element \<lparr>Space = [], Local = ''gpx''\<rparr> []
       [Element \<lparr>Space = [], Local = ''wpt''\<rparr>
          [\<lparr>Attr.Name = \<lparr>Space = [], Local = ''lat''\<rparr>, Value = ''3''\<rparr>,
           \<lparr>Attr.Name = \<lparr>Space = [], Local = ''lon''\<rparr>, Value = ''4''\<rparr>] [] Closed,
        Element \<lparr>Space = [], Local = ''wpt''\<rparr>
          [\<lparr>Attr.Name = \<lparr>Space = [], Local = ''lat''\<rparr>, Value = ''1''\<rparr>,
           \<lparr>Attr.Name = \<lparr>Space = [], Local = ''lon''\<rparr>, Value = ''2''\<rparr>] [] Closed]
       Closed)\<close>
  by (simp add: lex_eval)

lemma Parse_two_wpt:
  \<open>Parse ''<gpx><wpt lat="1" lon="2"></wpt><wpt lat="3" lon="4"></wpt></gpx>'' GPX_zero =
     (GPX_zero\<lparr>GPX.XMLName := \<lparr>Space = [], Local = ''gpx''\<rparr>,
        Waypoints :=
          [WayPoint_zero\<lparr>WayPoint.Latitude := Finite False 1, WayPoint.Longitude := Finite False 2\<rparr>,
           WayPoint_zero\<lparr>WayPoint.Latitude := Finite False 3, WayPoint.Longitude := Finite False 4\<rparr>]\<rparr>,
      None)\<close>
  unfolding Parse_document [OF parse_two_wpt]
  by (simp add: unmarshal_eval num_eval zero_eval)

lemma Parse_two_wpt_swapped:
  \<open>Parse ''<gpx><wpt lat="3" lon="4"></wpt><wpt lat="1" lon="2"></wpt></gpx>'' GPX_zero =
     (GPX_zero\<lparr>GPX.XMLName := \<lparr>Space = [], Local = ''gpx''\<rparr>,
        Waypoints :=
          [WayPoint_zero\<lparr>WayPoint.Latitude := Finite False 3, WayPoint.Longitude := Finite False 4\<rparr>,
           WayPoint_zero\<lparr>WayPoint.Latitude := Finite False 1, WayPoint.Longitude := Finite False 2\<rparr>]\<rparr>,
      None)\<close>
  unfolding Parse_document [OF parse_two_wpt_swapped]
  by (simp add: unmarshal_eval num_eval zero_eval)

section \<open>ParseFile\<close>

text \<open>
  C9. \<^verbatim>\<open>ParseFile\<close> is file loading followed by \<^verbatim>\<open>Parse\<close>: whenever reading the file
  succeeds with the bytes \<open>b\<close>, \<^verbatim>\<open>ParseFile\<close> returns exactly the document and the error
  that \<^verbatim>\<open>Parse\<close> gives for \<open>b\<close> and a fresh zero document. Nothing is transformed, retried
  or wrapped.
\<close>

theorem ParseFile_is_Parse_of_file_content:
  "ReadFile fileName = Inr b \<Longrightarrow> ParseFile ReadFile fileName = Parse b GPX_zero"
  by (simp add: ParseFile_def split: prod.splits option.splits)

theorem ParseFile_is_Parse_of_file_content_witness:
  \<open>ParseFile example_files ''minimal.gpx'' =
     Parse ''<gpx version="1.1" creator="test"></gpx>'' GPX_zero\<close>
  by (rule ParseFile_is_Parse_of_file_content) (simp add: example_files_def)




section \<open>Waypoints\<close>

text \<open>
  C4. The latitude and the longitude of a waypoint are decoded from the \<^verbatim>\<open>lat\<close> and
  \<^verbatim>\<open>lon\<close> attributes of its element only. Whatever the children of the element are
  (child elements named \<^verbatim>\<open>lat\<close> or \<^verbatim>\<open>lon\<close> among them): when the start tag has no \<^verbatim>\<open>lat\<close>
  attribute the \<^verbatim>\<open>Latitude\<close> of the waypoint is left as it was (zero, for a waypoint
  that is being appended), and likewise for \<^verbatim>\<open>lon\<close> and \<^verbatim>\<open>Longitude\<close>.
\<close>

theorem WayPoint_position_from_attributes_only:
  "(list_all (\<lambda>a. Local (Attr.Name a) \<noteq> ''lat'') as \<longrightarrow>
      WayPoint.Latitude (fst (unmarshal_WayPoint (Element n as cs en) w)) = WayPoint.Latitude w) \<and>
   (list_all (\<lambda>a. Local (Attr.Name a) \<noteq> ''lon'') as \<longrightarrow>
      WayPoint.Longitude (fst (unmarshal_WayPoint (Element n as cs en) w)) = WayPoint.Longitude w)"
proof (intro conjI impI)
  assume "list_all (\<lambda>a. Local (Attr.Name a) \<noteq> ''lat'') as"
  then show "WayPoint.Latitude (fst (unmarshal_WayPoint (Element n as cs en) w)) = WayPoint.Latitude w"
    unfolding unmarshal_WayPoint_def
    by (intro unmarshal_struct_proj)
      (auto simp: WayPoint_fields_def attr_def elem_def slice_elem_def list_all_iff
        split: sum.splits prod.splits option.splits)
next
  assume "list_all (\<lambda>a. Local (Attr.Name a) \<noteq> ''lon'') as"
  then show "WayPoint.Longitude (fst (unmarshal_WayPoint (Element n as cs en) w)) = WayPoint.Longitude w"
    unfolding unmarshal_WayPoint_def
    by (intro unmarshal_struct_proj)
      (auto simp: WayPoint_fields_def attr_def elem_def slice_elem_def list_all_iff
        split: sum.splits prod.splits option.splits)
qed

theorem WayPoint_position_from_attributes_only_witness:
  "WayPoint.Latitude (fst (unmarshal_WayPoint
       (Element \<lparr>Space = [], Local = ''wpt''\<rparr> []
          [Element \<lparr>Space = [], Local = ''lat''\<rparr> [] [Leaf (CharData ''1.0'')] Closed,
           Element \<lparr>Space = [], Local = ''lon''\<rparr> [] [Leaf (CharData ''2.0'')] Closed] Closed)
       WayPoint_zero)) = float64_zero \<and>
   WayPoint.Longitude (fst (unmarshal_WayPoint
       (Element \<lparr>Space = [], Local = ''wpt''\<rparr> []
          [Element \<lparr>Space = [], Local = ''lat''\<rparr> [] [Leaf (CharData ''1.0'')] Closed,
           Element \<lparr>Space = [], Local = ''lon''\<rparr> [] [Leaf (CharData ''2.0'')] Closed] Closed)
       WayPoint_zero)) = float64_zero"
proof -
  have z: "WayPoint.Latitude WayPoint_zero = float64_zero" "WayPoint.Longitude WayPoint_zero = float64_zero"
    by (simp_all add: WayPoint_zero_def)
  have h: "list_all (\<lambda>a. Local (Attr.Name a) \<noteq> ''lat'') []" "list_all (\<lambda>a. Local (Attr.Name a) \<noteq> ''lon'') []"
    by simp_all
  show ?thesis
    using WayPoint_position_from_attributes_only
      [of "[]" "\<lparr>Space = [], Local = ''wpt''\<rparr>"
        "[Element \<lparr>Space = [], Local = ''lat''\<rparr> [] [Leaf (CharData ''1.0'')] Closed,
          Element \<lparr>Space = [], Local = ''lon''\<rparr> [] [Leaf (CharData ''2.0'')] Closed]"
        Closed WayPoint_zero] h
    unfolding z by blast
qed

text \<open>
  The example of the claim, from the bytes: a waypoint written with a \<^verbatim>\<open>lat\<close> child
  element decodes without error to a waypoint that is entirely zero.
\<close>

lemma Parse_wpt_in_element_form:
  \<open>Parse ''<gpx><wpt><lat>1.0</lat></wpt></gpx>'' GPX_zero =
     (GPX_zero\<lparr>GPX.XMLName := \<lparr>Space = [], Local = ''gpx''\<rparr>, Waypoints := [WayPoint_zero]\<rparr>, None)\<close>
proof -
  have \<open>parse_document ''<gpx><wpt><lat>1.0</lat></wpt></gpx>'' =
     Inr (Element \<lparr>Space = [], Local = ''gpx''\<rparr> []
       [Element \<lparr>Space = [], Local = ''wpt''\<rparr> []
          [Element \<lparr>Space = [], Local = ''lat''\<rparr> [] [Leaf (CharData ''1.0'')] Closed] Closed]
       Closed)\<close>
    by (simp add: lex_eval)
  then show ?thesis
    unfolding Parse_document [OF \<open>parse_document _ = _\<close>]
    by (simp add: unmarshal_eval num_eval zero_eval)
qed

lemma children_GPX_Waypoints:
  "children GPX_fields cs s = (r, None) \<Longrightarrow>
   GPX.Waypoints r = GPX.Waypoints s @ map (\<lambda>c. fst (unmarshal_WayPoint c WayPoint_zero)) (elements ''wpt'' cs)"
proof (induction cs arbitrary: s)
  case Nil
  then show ?case by (simp add: elements_def)
next
  case (Cons c cs)
  show ?case
  proof (cases c)
    case (Leaf t)
    with Cons show ?thesis by (simp add: elements_def is_element_def)
  next
    case (Element n as cs' en)
    with Cons.prems obtain s1
      where step: "(case unmarshalPath GPX_fields n c s of
               Some x \<Rightarrow> x | None \<Rightarrow> (s, Skip c)) = (s1, None)"
        and rest: "children GPX_fields cs s1 = (r, None)"
      unfolding Element children_Cons_Element by blast
    from step have "GPX.Waypoints s1 = GPX.Waypoints s @
        (if Local n = ''wpt'' then [fst (unmarshal_WayPoint c WayPoint_zero)] else [])"
      by (auto simp: GPX_fields_def attr_def elem_def slice_elem_def
          simp del: Skip.simps split: if_splits prod.splits option.splits)
    with Cons.IH [OF rest] Element show ?thesis
      by (simp add: elements_def is_element_def)
  qed
qed

lemma unmarshal_GPX_Waypoints:
  assumes "unmarshal_GPX (Element n as cs en) g = (r, None)"
  shows "GPX.Waypoints r = GPX.Waypoints g @ map (\<lambda>c. fst (unmarshal_WayPoint c WayPoint_zero)) (elements ''wpt'' cs)"
proof -
  from assms obtain s2
    where a: "assign_attrs GPX_fields as (GPX.XMLName_update (\<lambda>_. n) g) = (s2, None)"
      and c: "children GPX_fields cs s2 = (r, None)"
    unfolding unmarshal_GPX_def by (auto dest!: unmarshal_struct_None)
  have "GPX.Waypoints (fst (assign_attrs GPX_fields as (GPX.XMLName_update (\<lambda>_. n) g)))
      = GPX.Waypoints (GPX.XMLName_update (\<lambda>_. n) g)"
    by (rule assign_attrs_proj)
      (auto simp: GPX_fields_def attr_def elem_def slice_elem_def split: sum.splits)
  with a have "GPX.Waypoints s2 = GPX.Waypoints g" by simp
  with children_GPX_Waypoints [OF c] show ?thesis by simp
qed


text \<open>
  C6. When a document decodes without error, its \<^verbatim>\<open>Waypoints\<close> are the decoded \<^verbatim>\<open>wpt\<close>
  children of the root element, one record for each, in document order. Hence a
  second document whose \<^verbatim>\<open>wpt\<close> elements are those of the first one rearranged by \<open>p\<close>
  decodes to the waypoints of the first one rearranged by \<open>p\<close>.
\<close>

theorem Parse_waypoints_in_document_order:
  assumes "parse_document b = Inr (Element n as cs en)"
    and "snd (Parse b GPX_zero) = None"
    and "parse_document b' = Inr (Element n' as' cs' en')"
    and "snd (Parse b' GPX_zero) = None"
    and "list_all (\<lambda>i. p i < length (elements ''wpt'' cs)) [0..<length (elements ''wpt'' cs)]"
    and "elements ''wpt'' cs' = map (\<lambda>i. elements ''wpt'' cs ! p i) [0..<length (elements ''wpt'' cs)]"
  shows "GPX.Waypoints (fst (Parse b GPX_zero)) =
           map (\<lambda>c. fst (unmarshal_WayPoint c WayPoint_zero)) (elements ''wpt'' cs) \<and>
         GPX.Waypoints (fst (Parse b' GPX_zero)) =
           map (\<lambda>i. GPX.Waypoints (fst (Parse b GPX_zero)) ! p i)
             [0..<length (GPX.Waypoints (fst (Parse b GPX_zero)))]"
proof -
  let ?dec = "\<lambda>c. fst (unmarshal_WayPoint c WayPoint_zero)"
  have z: "GPX.Waypoints GPX_zero = []" by (simp add: GPX_zero_def)
  from assms(1,2) have "unmarshal_GPX (Element n as cs en) GPX_zero = (fst (Parse b GPX_zero), None)"
    by (metis Parse_document prod.collapse)
  from unmarshal_GPX_Waypoints [OF this] z
  have 1: "GPX.Waypoints (fst (Parse b GPX_zero)) = map ?dec (elements ''wpt'' cs)" by simp
  from assms(3,4) have "unmarshal_GPX (Element n' as' cs' en') GPX_zero = (fst (Parse b' GPX_zero), None)"
    by (metis Parse_document prod.collapse)
  from unmarshal_GPX_Waypoints [OF this] z
  have 2: "GPX.Waypoints (fst (Parse b' GPX_zero)) = map ?dec (elements ''wpt'' cs')" by simp
  have "map ?dec (elements ''wpt'' cs') =
      map (\<lambda>i. map ?dec (elements ''wpt'' cs) ! p i) [0..<length (elements ''wpt'' cs)]"
    using assms(5) by (simp add: assms(6) list_all_iff)
  with 1 2 show ?thesis by simp
qed

theorem Parse_waypoints_in_document_order_witness:
  \<open>GPX.Waypoints (fst (Parse ''<gpx><wpt lat="1" lon="2"></wpt><wpt lat="3" lon="4"></wpt></gpx>'' GPX_zero)) =
     [WayPoint_zero\<lparr>WayPoint.Latitude := Finite False 1, WayPoint.Longitude := Finite False 2\<rparr>,
      WayPoint_zero\<lparr>WayPoint.Latitude := Finite False 3, WayPoint.Longitude := Finite False 4\<rparr>] \<and>
   GPX.Waypoints (fst (Parse ''<gpx><wpt lat="3" lon="4"></wpt><wpt lat="1" lon="2"></wpt></gpx>'' GPX_zero)) =
     map (\<lambda>i. GPX.Waypoints
            (fst (Parse ''<gpx><wpt lat="1" lon="2"></wpt><wpt lat="3" lon="4"></wpt></gpx>'' GPX_zero)) ! (1 - i))
       [0..<length (GPX.Waypoints
            (fst (Parse ''<gpx><wpt lat="1" lon="2"></wpt><wpt lat="3" lon="4"></wpt></gpx>'' GPX_zero)))]\<close>
proof -
  have e: "[0..<2] = [0, 1]" by (simp add: upt_rec)
  have \<open>GPX.Waypoints (fst (Parse ''<gpx><wpt lat="3" lon="4"></wpt><wpt lat="1" lon="2"></wpt></gpx>'' GPX_zero)) =
     map (\<lambda>i. GPX.Waypoints
            (fst (Parse ''<gpx><wpt lat="1" lon="2"></wpt><wpt lat="3" lon="4"></wpt></gpx>'' GPX_zero)) ! (1 - i))
       [0..<length (GPX.Waypoints
            (fst (Parse ''<gpx><wpt lat="1" lon="2"></wpt><wpt lat="3" lon="4"></wpt></gpx>'' GPX_zero)))]\<close>
    by (rule conjunct2 [OF Parse_waypoints_in_document_order
          [OF parse_two_wpt _ parse_two_wpt_swapped, where p = "\<lambda>i. 1 - i"]])
      (simp_all add: Parse_two_wpt Parse_two_wpt_swapped elements_def is_element_def e)
  then show ?thesis
    by (simp add: Parse_two_wpt)
qed

section \<open>Scenarios\<close>

lemma parse_track_scenario:
  \<open>parse_document ''<gpx version="1.1" creator="test"><trk><trkseg><trkpt lat="1.0" lon="2.0"><ele>100</ele></trkpt></trkseg></trk></gpx>'' =
     Inr (Element \<lparr>Space = [], Local = ''gpx''\<rparr>
       [\<lparr>Attr.Name = \<lparr>Space = [], Local = ''version''\<rparr>, Value = ''1.1''\<rparr>,
        \<lparr>Attr.Name = \<lparr>Space = [], Local = ''creator''\<rparr>, Value = ''test''\<rparr>]
       [Element \<lparr>Space = [], Local = ''trk''\<rparr> []
         [Element \<lparr>Space = [], Local = ''trkseg''\<rparr> []
           [Element \<lparr>Space = [], Local = ''trkpt''\<rparr>
             [\<lparr>Attr.Name = \<lparr>Space = [], Local = ''lat''\<rparr>, Value = ''1.0''\<rparr>,
              \<lparr>Attr.Name = \<lparr>Space = [], Local = ''lon''\<rparr>, Value = ''2.0''\<rparr>]
             [Element \<lparr>Space = [], Local = ''ele''\<rparr> [] [Leaf (CharData ''100'')] Closed]
             Closed]
           Closed]
         Closed]
       Closed)\<close>
  by (simp add: lex_eval)

lemma Parse_track_scenario_document:
  \<open>Parse ''<gpx version="1.1" creator="test"><trk><trkseg><trkpt lat="1.0" lon="2.0"><ele>100</ele></trkpt></trkseg></trk></gpx>'' GPX_zero =
     (GPX_zero\<lparr>GPX.XMLName := \<lparr>Space = [], Local = ''gpx''\<rparr>, Version := ''1.1'', Creator := ''test'',
        Tracks := Track_zero\<lparr>Track.XMLName := \<lparr>Space = [], Local = ''trk''\<rparr>,
          TrackSegments :=
            [TrackSegment_zero\<lparr>TrackSegment.XMLName := \<lparr>Space = [], Local = ''trkseg''\<rparr>,
               TrackPoint :=
                 [WayPoint_zero\<lparr>WayPoint.Latitude := Finite False 1,
                    WayPoint.Longitude := Finite False 2,
                    WayPoint.Elevation := Finite False 100\<rparr>]\<rparr>]\<rparr>\<rparr>,
      None)\<close>
  unfolding Parse_document [OF parse_track_scenario]
  by (simp add: unmarshal_eval num_eval zero_eval)

text \<open>
  C3. \<^verbatim>\<open>Parse\<close> of the scenario's exact bytes, into a fresh document, returns no error;
  the first track point of the first segment of the track has latitude 1.0, longitude
  2.0 and elevation 100, and \<^verbatim>\<open>Waypoints\<close> and \<^verbatim>\<open>Routes\<close> are empty.
\<close>

theorem Parse_track_scenario:
  \<open>snd (Parse ''<gpx version="1.1" creator="test"><trk><trkseg><trkpt lat="1.0" lon="2.0"><ele>100</ele></trkpt></trkseg></trk></gpx>'' GPX_zero) = None \<and>
   WayPoint.Latitude (TrackSegment.TrackPoint (Track.TrackSegments (GPX.Tracks (fst
     (Parse ''<gpx version="1.1" creator="test"><trk><trkseg><trkpt lat="1.0" lon="2.0"><ele>100</ele></trkpt></trkseg></trk></gpx>'' GPX_zero))) ! 0) ! 0)
     = Finite False 1 \<and>
   WayPoint.Longitude (TrackSegment.TrackPoint (Track.TrackSegments (GPX.Tracks (fst
     (Parse ''<gpx version="1.1" creator="test"><trk><trkseg><trkpt lat="1.0" lon="2.0"><ele>100</ele></trkpt></trkseg></trk></gpx>'' GPX_zero))) ! 0) ! 0)
     = Finite False 2 \<and>
   WayPoint.Elevation (TrackSegment.TrackPoint (Track.TrackSegments (GPX.Tracks (fst
     (Parse ''<gpx version="1.1" creator="test"><trk><trkseg><trkpt lat="1.0" lon="2.0"><ele>100</ele></trkpt></trkseg></trk></gpx>'' GPX_zero))) ! 0) ! 0)
     = Finite False 100 \<and>
   GPX.Waypoints (fst
     (Parse ''<gpx version="1.1" creator="test"><trk><trkseg><trkpt lat="1.0" lon="2.0"><ele>100</ele></trkpt></trkseg></trk></gpx>'' GPX_zero))
     = [] \<and>
   GPX.Routes (fst
     (Parse ''<gpx version="1.1" creator="test"><trk><trkseg><trkpt lat="1.0" lon="2.0"><ele>100</ele></trkpt></trkseg></trk></gpx>'' GPX_zero))
     = []\<close>
  unfolding Parse_track_scenario_document
  by (simp add: GPX_zero_def)

section \<open>Input that stops before the root element ends\<close>

lemma chardata_fails: "Skip_list cs \<noteq> None \<Longrightarrow> \<exists>e. chardata cs = Inl e"
  by (induction cs rule: chardata.induct) (auto split: option.splits sum.splits)

lemma unmarshal_basic_fails: "Skip c \<noteq> None \<Longrightarrow> snd (unmarshal_basic copy c v) \<noteq> None"
proof (cases c)
  case (Leaf t)
  assume "Skip c \<noteq> None"
  with Leaf show ?thesis by simp
next
  case (Element n as cs en)
  assume a: "Skip c \<noteq> None"
  show ?thesis
  proof (cases "Skip_list cs")
    case None
    with a Element obtain e where "en = Failed e"
      by (cases en) auto
    with Element show ?thesis
      by (simp add: unmarshal_basic_def split: sum.splits)
  next
    case (Some e)
    with chardata_fails [of cs] obtain e' where "chardata cs = Inl e'" by auto
    with Element show ?thesis
      by (simp add: unmarshal_basic_def)
  qed
qed

lemma unmarshalPath_strict:
  assumes "list_all strict_field flds" and "unmarshalPath flds n c s = Some r" and "Skip c \<noteq> None"
  shows "snd r \<noteq> None"
proof -
  from unmarshalPath_Some [OF assms(2)] obtain name f
    where "ElemField name f \<in> set flds" and r: "r = f c s" by blast
  with assms(1) have "strict_field (ElemField name f)"
    by (simp add: list_all_iff)
  with assms(3) r show ?thesis
    by (simp add: strict_field_def)
qed

lemma children_fails:
  assumes "list_all strict_field flds"
  shows "Skip_list cs \<noteq> None \<Longrightarrow> snd (children flds cs s) \<noteq> None"
proof (induction cs arbitrary: s)
  case Nil
  then show ?case by simp
next
  case (Cons c cs)
  show ?case
  proof (cases c)
    case (Leaf t)
    with Cons show ?thesis by simp
  next
    case (Element n as cs' en)
    obtain s' e where r: "(case unmarshalPath flds n c s of Some r \<Rightarrow> r | None \<Rightarrow> (s, Skip c)) = (s', e)"
      by (cases "case unmarshalPath flds n c s of Some r \<Rightarrow> r | None \<Rightarrow> (s, Skip c)") auto
    from r Element have step: "children flds (c # cs) s =
        (case e of Some x \<Rightarrow> (s', Some x) | None \<Rightarrow> children flds cs s')"
      by (simp del: Skip.simps split: option.splits)
    show ?thesis
    proof (cases e)
      case (Some x)
      with step show ?thesis by simp
    next
      case None
      have "Skip c = None"
      proof (rule ccontr)
        assume f: "Skip c \<noteq> None"
        show False
        proof (cases "unmarshalPath flds n c s")
          case None
          with r f \<open>e = None\<close> show False by simp
        next
          case (Some x)
          from unmarshalPath_strict [OF assms Some f] Some r \<open>e = None\<close> show False by simp
        qed
      qed
      with Cons.prems have "Skip_list cs \<noteq> None" by simp
      from Cons.IH [OF this] step None show ?thesis by simp
    qed
  qed
qed

lemma unmarshal_struct_fails:
  assumes "list_all strict_field flds" and "Skip c \<noteq> None"
  shows "snd (unmarshal_struct xmlname flds c s) \<noteq> None"
proof (cases c)
  case (Leaf t)
  with assms(2) show ?thesis by simp
next
  case (Element n as cs en)
  show ?thesis
  proof (cases "Skip_list cs")
    case None
    with assms(2) Element obtain e where "en = Failed e"
      by (cases en) auto
    with Element show ?thesis
      by (auto simp: unmarshal_struct_def split: option.splits sum.splits prod.splits if_splits)
  next
    case (Some e)
    then have "snd (children flds cs s2) \<noteq> None" for s2
      by (intro children_fails assms(1)) simp
    then have "children flds cs s2 \<noteq> (s3, None)" for s2 s3
      by (metis snd_conv)
    with Element show ?thesis
      by (auto simp: unmarshal_struct_def split: option.splits sum.splits prod.splits if_splits)
  qed
qed

lemma strict_attr: "strict_field (attr name upd copy)"
  by (simp add: strict_field_def attr_def)

lemma strict_elem:
  assumes "\<And>c v. Skip c \<noteq> None \<Longrightarrow> snd (dec c v) \<noteq> None"
  shows "strict_field (elem name get upd dec)"
proof -
  have "snd (case dec c (get s) of (x, e) \<Rightarrow> (upd (\<lambda>_. x) s, e)) \<noteq> None" if "Skip c \<noteq> None" for c s
  proof -
    from assms [OF that] have "snd (dec c (get s)) \<noteq> None" .
    then obtain x e where "dec c (get s) = (x, Some e)"
      by (cases "dec c (get s)") auto
    then show ?thesis by simp
  qed
  then show ?thesis
    by (simp add: strict_field_def elem_def)
qed

lemma strict_slice_elem:
  assumes "\<And>c v. Skip c \<noteq> None \<Longrightarrow> snd (dec c v) \<noteq> None"
  shows "strict_field (slice_elem name upd zero dec)"
proof -
  have "snd (case dec c zero of (x, None) \<Rightarrow> (upd (\<lambda>xs. xs @ [x]) s, None)
          | (x, Some e) \<Rightarrow> (s, Some e)) \<noteq> None" if "Skip c \<noteq> None" for c s
  proof -
    from assms [OF that] have "snd (dec c zero) \<noteq> None" .
    then obtain x e where "dec c zero = (x, Some e)"
      by (cases "dec c zero") auto
    then show ?thesis by simp
  qed
  then show ?thesis
    by (simp add: strict_field_def slice_elem_def)
qed

lemma unmarshal_string_fails: "Skip c \<noteq> None \<Longrightarrow> snd (unmarshal_string c v) \<noteq> None"
  unfolding unmarshal_string_def by (rule unmarshal_basic_fails)

lemma unmarshal_int_fails: "Skip c \<noteq> None \<Longrightarrow> snd (unmarshal_int c v) \<noteq> None"
  unfolding unmarshal_int_def by (rule unmarshal_basic_fails)

lemma unmarshal_float64_fails: "Skip c \<noteq> None \<Longrightarrow> snd (unmarshal_float64 c v) \<noteq> None"
  unfolding unmarshal_float64_def by (rule unmarshal_basic_fails)

lemmas basic_fails = unmarshal_string_fails unmarshal_int_fails unmarshal_float64_fails

lemma unmarshal_Email_fails: "Skip c \<noteq> None \<Longrightarrow> snd (unmarshal_Email c s) \<noteq> None"
  unfolding unmarshal_Email_def
  by (rule unmarshal_struct_fails) (simp_all add: Email_fields_def strict_attr)

lemma unmarshal_Link_fails: "Skip c \<noteq> None \<Longrightarrow> snd (unmarshal_Link c s) \<noteq> None"
  unfolding unmarshal_Link_def
  by (rule unmarshal_struct_fails)
    (simp_all add: Link_fields_def strict_attr strict_elem basic_fails)

lemma unmarshal_Person_fails: "Skip c \<noteq> None \<Longrightarrow> snd (unmarshal_Person c s) \<noteq> None"
  unfolding unmarshal_Person_def
  by (rule unmarshal_struct_fails)
    (simp_all add: Person_fields_def strict_elem basic_fails unmarshal_Email_fails unmarshal_Link_fails)

lemma unmarshal_Copyright_fails: "Skip c \<noteq> None \<Longrightarrow> snd (unmarshal_Copyright c s) \<noteq> None"
  unfolding unmarshal_Copyright_def
  by (rule unmarshal_struct_fails)
    (simp_all add: Copyright_fields_def strict_attr strict_elem basic_fails)

lemma unmarshal_Bounds_fails: "Skip c \<noteq> None \<Longrightarrow> snd (unmarshal_Bounds c s) \<noteq> None"
  unfolding unmarshal_Bounds_def
  by (rule unmarshal_struct_fails) (simp_all add: Bounds_fields_def strict_attr)

lemma unmarshal_TrackPointExtension_fails:
  "Skip c \<noteq> None \<Longrightarrow> snd (unmarshal_TrackPointExtension c s) \<noteq> None"
  unfolding unmarshal_TrackPointExtension_def
  by (rule unmarshal_struct_fails)
    (simp_all add: TrackPointExtension_fields_def strict_elem basic_fails)

lemma unmarshal_Extension_fails: "Skip c \<noteq> None \<Longrightarrow> snd (unmarshal_Extension c s) \<noteq> None"
  unfolding unmarshal_Extension_def
  by (rule unmarshal_struct_fails)
    (simp_all add: Extension_fields_def strict_elem unmarshal_TrackPointExtension_fails)

lemma unmarshal_Metadata_fails: "Skip c \<noteq> None \<Longrightarrow> snd (unmarshal_Metadata c s) \<noteq> None"
  unfolding unmarshal_Metadata_def
  by (rule unmarshal_struct_fails)
    (simp_all add: Metadata_fields_def strict_elem strict_slice_elem basic_fails
      unmarshal_Person_fails unmarshal_Copyright_fails unmarshal_Link_fails unmarshal_Bounds_fails
      unmarshal_Extension_fails)

lemma unmarshal_WayPoint_fails: "Skip c \<noteq> None \<Longrightarrow> snd (unmarshal_WayPoint c s) \<noteq> None"
  unfolding unmarshal_WayPoint_def
  by (rule unmarshal_struct_fails)
    (simp_all add: WayPoint_fields_def strict_attr strict_elem strict_slice_elem basic_fails
      unmarshal_Link_fails unmarshal_Extension_fails)

lemma unmarshal_Route_fails: "Skip c \<noteq> None \<Longrightarrow> snd (unmarshal_Route c s) \<noteq> None"
  unfolding unmarshal_Route_def
  by (rule unmarshal_struct_fails)
    (simp_all add: Route_fields_def strict_elem strict_slice_elem basic_fails
      unmarshal_Link_fails unmarshal_Extension_fails unmarshal_WayPoint_fails)

lemma unmarshal_TrackSegment_fails: "Skip c \<noteq> None \<Longrightarrow> snd (unmarshal_TrackSegment c s) \<noteq> None"
  unfolding unmarshal_TrackSegment_def
  by (rule unmarshal_struct_fails)
    (simp_all add: TrackSegment_fields_def strict_elem strict_slice_elem
      unmarshal_Extension_fails unmarshal_WayPoint_fails)

lemma unmarshal_Track_fails: "Skip c \<noteq> None \<Longrightarrow> snd (unmarshal_Track c s) \<noteq> None"
  unfolding unmarshal_Track_def
  by (rule unmarshal_struct_fails)
    (simp_all add: Track_fields_def strict_elem strict_slice_elem basic_fails
      unmarshal_Link_fails unmarshal_Extension_fails unmarshal_TrackSegment_fails)

lemma unmarshal_GPX_fails: "Skip c \<noteq> None \<Longrightarrow> snd (unmarshal_GPX c s) \<noteq> None"
  unfolding unmarshal_GPX_def
  by (rule unmarshal_struct_fails)
    (simp_all add: GPX_fields_def strict_attr strict_elem strict_slice_elem
      unmarshal_Metadata_fails unmarshal_WayPoint_fails unmarshal_Route_fails unmarshal_Track_fails)

text \<open>
  C5, as the code has it. \<^verbatim>\<open>Parse\<close> returns a decode error whenever the input goes wrong
  before the end tag of its first element has been read: when an error (or the end of
  the input) comes before any start tag, in which case the document is left untouched,
  and when the tokens of the first element stop at a syntax error or at the end of the
  input, somewhere inside it (an unclosed tag, for example).
\<close>

theorem Parse_fails_when_root_element_is_cut_short:
  "(parse_document b = Inl e \<and> library_error e \<longrightarrow> Parse b g = (g, Some e)) \<and>
   (parse_document b = Inr el \<and> Skip el = Some e \<and> library_error e \<longrightarrow> snd (Parse b g) \<noteq> None)"
proof (intro conjI impI)
  assume "parse_document b = Inl e \<and> library_error e"
  then show "Parse b g = (g, Some e)"
    by (simp add: Parse_def Unmarshal_def)
next
  assume "parse_document b = Inr el \<and> Skip el = Some e \<and> library_error e"
  then have "parse_document b = Inr el" and "Skip el \<noteq> None"
    by simp_all
  then show "snd (Parse b g) \<noteq> None"
    by (simp add: Parse_document unmarshal_GPX_fails)
qed

theorem Parse_fails_when_root_element_is_cut_short_witness:
  \<open>Parse [] GPX_zero = (GPX_zero, Some EOF) \<and>
   snd (Parse ''<gpx version="1.1" creator="test"><trk>'' GPX_zero) \<noteq> None\<close>
proof
  have "parse_document [] = Inl EOF" and "library_error EOF"
    by (simp_all add: lex_eval library_error_def)
  with Parse_fails_when_root_element_is_cut_short [of "[]" EOF GPX_zero]
  show "Parse [] GPX_zero = (GPX_zero, Some EOF)" by blast
next
  have "Skip (Element \<lparr>Space = [], Local = ''gpx''\<rparr>
       [\<lparr>Attr.Name = \<lparr>Space = [], Local = ''version''\<rparr>, Value = ''1.1''\<rparr>,
        \<lparr>Attr.Name = \<lparr>Space = [], Local = ''creator''\<rparr>, Value = ''test''\<rparr>]
       [Element \<lparr>Space = [], Local = ''trk''\<rparr> [] [] (Failed (SyntaxError ''unexpected EOF''))]
       (Failed (SyntaxError ''unexpected EOF''))) = Some (SyntaxError ''unexpected EOF'')"
    and "library_error (SyntaxError ''unexpected EOF'')"
    by (simp_all add: library_error_def)
  with parse_cut Parse_fails_when_root_element_is_cut_short
  show \<open>snd (Parse ''<gpx version="1.1" creator="test"><trk>'' GPX_zero) \<noteq> None\<close>
    by blast
qed

text \<open>
  C5 as stated fails: a buffer that is not well-formed XML, with an unclosed tag
  behind the end tag of its root element, is decoded without error. \<^verbatim>\<open>Unmarshal\<close> stops
  reading at the end tag of the first element.
\<close>

theorem Parse_accepts_unclosed_tag_behind_root:
  \<open>Parse ''<gpx></gpx><trk>'' GPX_zero =
     (GPX_zero\<lparr>GPX.XMLName := \<lparr>Space = [], Local = ''gpx''\<rparr>\<rparr>, None)\<close>
proof -
  have p: \<open>parse_document ''<gpx></gpx><trk>'' =
      Inr (Element \<lparr>Space = [], Local = ''gpx''\<rparr> [] [] Closed)\<close>
    by (simp add: lex_eval)
  show ?thesis
    unfolding Parse_document [OF p]
    by (simp add: unmarshal_eval zero_eval)
qed

section \<open>Repeated trk elements\<close>

lemma element_text_eq:
  "unmarshal_string (Element n as cs en) v = (x, None) \<Longrightarrow> element_text (Element n as cs en) = x"
  by (auto simp: element_text_def unmarshal_string_def unmarshal_basic_def
      split: sum.splits ending.splits)

lemma assign_attrs_no_attr_fields:
  assumes "\<And>name f. AttrField name f \<notin> set flds"
  shows "assign_attrs flds as s = (s, None)"
proof -
  have a: "assign_attr flds a s = (s, None)" for a s
    using assms by (induction flds a s rule: assign_attr.induct) auto
  show ?thesis
    by (induction as arbitrary: s) (simp_all add: a)
qed

lemma children_Track:
  "children Track_fields cs t = (t', None) \<Longrightarrow>
   Track.TrackSegments t' =
     Track.TrackSegments t @ map (\<lambda>d. fst (unmarshal_TrackSegment d TrackSegment_zero)) (elements ''trkseg'' cs) \<and>
   Track.Name t' =
     (if elements ''name'' cs = [] then Track.Name t else element_text (last (elements ''name'' cs)))"
proof (induction cs arbitrary: t)
  case Nil
  then show ?case by (simp add: elements_def)
next
  case (Cons c cs)
  show ?case
  proof (cases c)
    case (Leaf x)
    with Cons show ?thesis by (simp add: elements_def is_element_def)
  next
    case (Element n as cs' en)
    with Cons.prems obtain t1
      where step: "(case unmarshalPath Track_fields n c t of
               Some x \<Rightarrow> x | None \<Rightarrow> (t, Skip c)) = (t1, None)"
        and rest: "children Track_fields cs t1 = (t', None)"
      unfolding Element children_Cons_Element by blast
    from step Element have seg: "Track.TrackSegments t1 = Track.TrackSegments t @
        (if Local n = ''trkseg'' then [fst (unmarshal_TrackSegment c TrackSegment_zero)] else [])"
      by (auto simp: Track_fields_def attr_def elem_def slice_elem_def
          simp del: Skip.simps split: if_splits prod.splits option.splits)
    from step Element have name: "Track.Name t1 =
        (if Local n = ''name'' then element_text c else Track.Name t)"
      by (auto simp: Track_fields_def attr_def elem_def slice_elem_def element_text_eq
          simp del: Skip.simps split: if_splits prod.splits option.splits)
    from Cons.IH [OF rest] seg name Element show ?thesis
      by (simp add: elements_def is_element_def)
  qed
qed

lemma unmarshal_Track_result:
  assumes "unmarshal_Track (Element n as cs en) t = (t', None)"
  shows "Track.TrackSegments t' =
      Track.TrackSegments t @ map (\<lambda>d. fst (unmarshal_TrackSegment d TrackSegment_zero)) (elements ''trkseg'' cs) \<and>
    Track.Name t' =
      (if elements ''name'' cs = [] then Track.Name t else element_text (last (elements ''name'' cs)))"
proof -
  from assms obtain s2
    where a: "assign_attrs Track_fields as (Track.XMLName_update (\<lambda>_. n) t) = (s2, None)"
      and c: "children Track_fields cs s2 = (t', None)"
    unfolding unmarshal_Track_def by (auto dest!: unmarshal_struct_None)
  have "assign_attrs Track_fields as (Track.XMLName_update (\<lambda>_. n) t)
      = (Track.XMLName_update (\<lambda>_. n) t, None)"
    by (rule assign_attrs_no_attr_fields) (auto simp: Track_fields_def elem_def slice_elem_def)
  with a have "s2 = Track.XMLName_update (\<lambda>_. n) t" by simp
  with children_Track [OF c] show ?thesis by simp
qed

lemma grandchildren_simps:
  "grandchildren parent name [] = []"
  "grandchildren parent name (Leaf t # cs) = grandchildren parent name cs"
  "grandchildren parent name (Element n as cs' en # cs) =
     (if Local n = parent then elements name cs' else []) @ grandchildren parent name cs"
  by (simp_all add: grandchildren_def elements_def is_element_def)

lemma children_GPX_Tracks:
  "children GPX_fields cs s = (r, None) \<Longrightarrow>
   Track.TrackSegments (GPX.Tracks r) =
     Track.TrackSegments (GPX.Tracks s) @
     map (\<lambda>d. fst (unmarshal_TrackSegment d TrackSegment_zero)) (grandchildren ''trk'' ''trkseg'' cs) \<and>
   Track.Name (GPX.Tracks r) =
     (if grandchildren ''trk'' ''name'' cs = [] then Track.Name (GPX.Tracks s)
      else element_text (last (grandchildren ''trk'' ''name'' cs)))"
proof (induction cs arbitrary: s)
  case Nil
  then show ?case by (simp add: grandchildren_simps)
next
  case (Cons c cs)
  show ?case
  proof (cases c)
    case (Leaf x)
    with Cons show ?thesis by (simp add: grandchildren_simps)
  next
    case (Element n as cs' en)
    with Cons.prems obtain s1
      where step: "(case unmarshalPath GPX_fields n c s of
               Some x \<Rightarrow> x | None \<Rightarrow> (s, Skip c)) = (s1, None)"
        and rest: "children GPX_fields cs s1 = (r, None)"
      unfolding Element children_Cons_Element by blast
    show ?thesis
    proof (cases "Local n = ''trk''")
      case False
      with step have "GPX.Tracks s1 = GPX.Tracks s"
        by (auto simp: GPX_fields_def attr_def elem_def slice_elem_def
            simp del: Skip.simps split: if_splits prod.splits option.splits)
      with Cons.IH [OF rest] Element False show ?thesis
        by (simp add: grandchildren_simps)
    next
      case True
      with step Element obtain x
        where u: "unmarshal_Track (Element n as cs' en) (GPX.Tracks s) = (x, None)"
          and s1: "GPX.Tracks s1 = x"
        by (auto simp: GPX_fields_def attr_def elem_def slice_elem_def
            simp del: Skip.simps split: if_splits prod.splits option.splits)
      from unmarshal_Track_result [OF u] s1 Cons.IH [OF rest] Element True show ?thesis
        by (simp add: grandchildren_simps)
    qed
  qed
qed






section \<open>Minimal documents\<close>

lemma assign_attrs_GPX:
  "assign_attrs GPX_fields as g =
     (g\<lparr>Version := attribute ''version'' as (Version g),
        Creator := attribute ''creator'' as (Creator g)\<rparr>, None)"
proof (induction as arbitrary: g)
  case Nil
  show ?case by simp
next
  case (Cons a as)
  have "assign_attr GPX_fields a g =
      (g\<lparr>Version := (if Local (Attr.Name a) = ''version'' then Value a else Version g),
         Creator := (if Local (Attr.Name a) = ''creator'' then Value a else Creator g)\<rparr>, None)"
    by (simp add: GPX_fields_def attr_def elem_def slice_elem_def copyValue_string_def)
  then show ?case
    by (simp add: Cons.IH)
qed

lemma children_only_leaves: "list_all is_leaf cs \<Longrightarrow> children flds cs s = (s, None)"
proof (induction cs)
  case Nil
  show ?case by simp
next
  case (Cons c cs)
  then show ?case by (cases c) (simp_all add: is_leaf_def)
qed

lemma unmarshal_Track_empty:
  assumes "empty_element ''trk'' c"
  shows "unmarshal_Track c t = (t\<lparr>Track.XMLName := element_name c\<rparr>, None)"
proof -
  from assms obtain n as cs where c: "c = Element n as cs Closed"
    and n: "Local n = ''trk''" and l: "list_all is_leaf cs"
    by (cases c) (auto simp: empty_element_def)
  have a: "assign_attrs Track_fields as s = (s, None)" for s
    by (rule assign_attrs_no_attr_fields) (auto simp: Track_fields_def elem_def slice_elem_def)
  show ?thesis
    unfolding c unmarshal_Track_def
    by (simp add: unmarshal_struct_def n a children_only_leaves [OF l])
qed

lemma children_GPX_minimal:
  "list_all (\<lambda>c. is_leaf c \<or> empty_element ''trk'' c) cs \<Longrightarrow>
   children GPX_fields cs g =
     (g\<lparr>Tracks := (if elements ''trk'' cs = [] then Tracks g
                    else (Tracks g)\<lparr>Track.XMLName := element_name (last (elements ''trk'' cs))\<rparr>)\<rparr>,
      None)"
proof (induction cs arbitrary: g)
  case Nil
  show ?case by (simp add: elements_def)
next
  case (Cons c cs)
  from Cons.prems have rest: "list_all (\<lambda>c. is_leaf c \<or> empty_element ''trk'' c) cs" by simp
  note IH = Cons.IH [OF rest]
  show ?case
  proof (cases c)
    case (Leaf t)
    with IH show ?thesis by (simp add: elements_def is_element_def)
  next
    case (Element n as cs' en)
    with Cons.prems have e: "empty_element ''trk'' c"
      by (simp add: is_leaf_def)
    with Element have n: "Local n = ''trk''"
      by (simp add: empty_element_def)
    from unmarshal_Track_empty [OF e, of "Tracks g"] Element n
    have "unmarshalPath GPX_fields n (Element n as cs' en) g =
        Some (g\<lparr>Tracks := (Tracks g)\<lparr>Track.XMLName := n\<rparr>\<rparr>, None)"
      by (simp add: GPX_fields_def attr_def elem_def slice_elem_def)
    then have "children GPX_fields (c # cs) g =
        children GPX_fields cs (g\<lparr>Tracks := (Tracks g)\<lparr>Track.XMLName := n\<rparr>\<rparr>)"
      unfolding Element by (simp del: Skip.simps)
    with IH [of "g\<lparr>Tracks := (Tracks g)\<lparr>Track.XMLName := n\<rparr>\<rparr>"] Element n show ?thesis
      by (simp add: elements_def is_element_def)
  qed
qed

lemma unmarshal_GPX_minimal:
  assumes "Local n = ''gpx''"
    and "list_all (\<lambda>c. is_leaf c \<or> empty_element ''trk'' c) cs"
  shows "unmarshal_GPX (Element n as cs Closed) g =
     (g\<lparr>GPX.XMLName := n,
        Version := attribute ''version'' as (Version g),
        Creator := attribute ''creator'' as (Creator g),
        Tracks := (if elements ''trk'' cs = [] then Tracks g
                   else (Tracks g)\<lparr>Track.XMLName := element_name (last (elements ''trk'' cs))\<rparr>)\<rparr>,
      None)"
  by (simp add: unmarshal_GPX_def unmarshal_struct_def assms(1) assign_attrs_GPX
      children_GPX_minimal [OF assms(2)])

lemma children_absent:
  assumes "\<And>name f c s. ElemField name f \<in> set flds \<Longrightarrow> elements name cs \<noteq> []
    \<Longrightarrow> proj (fst (f c s)) = proj s"
  shows "proj (fst (children flds cs s)) = proj s"
  using assms
proof (induction cs arbitrary: s)
  case Nil
  show ?case by simp
next
  case (Cons c cs)
  have IH: "proj (fst (children flds cs t)) = proj t" for t
  proof (rule Cons.IH)
    fix name f c' s'
    assume "ElemField name f \<in> set flds" "elements name cs \<noteq> []"
    then show "proj (fst (f c' s')) = proj s'"
      using Cons.prems [of name f c' s'] by (simp add: elements_def)
  qed
  show ?case
  proof (cases c)
    case (Leaf t)
    with IH show ?thesis by simp
  next
    case (Element n as cs' en)
    obtain s' e where r: "(case unmarshalPath flds n c s of Some r \<Rightarrow> r | None \<Rightarrow> (s, Skip c)) = (s', e)"
      by (cases "case unmarshalPath flds n c s of Some r \<Rightarrow> r | None \<Rightarrow> (s, Skip c)") auto
    have s': "proj s' = proj s"
    proof (cases "unmarshalPath flds n c s")
      case None
      with r show ?thesis by simp
    next
      case (Some x)
      from unmarshalPath_Some [OF Some] obtain name f
        where mem: "ElemField name f \<in> set flds" and nm: "name = Local n" and x: "x = f c s" by blast
      from nm Element have "elements name (c # cs) \<noteq> []"
        by (simp add: elements_def is_element_def)
      with mem have "proj (fst (f c s)) = proj s" by (rule Cons.prems)
      moreover have "fst (f c s) = s'" using Some r x by simp
      ultimately show ?thesis by simp
    qed
    from r Element have step: "children flds (c # cs) s =
        (case e of Some x \<Rightarrow> (s', Some x) | None \<Rightarrow> children flds cs s')"
      by (simp del: Skip.simps split: option.splits)
    show ?thesis
      using step s' IH [of s'] by (simp split: option.splits)
  qed
qed

lemma unmarshal_struct_absent:
  assumes "\<And>name setName n s. xmlname = Some (name, setName) \<Longrightarrow> proj (setName n s) = proj s"
    and "\<And>name f v s a. AttrField name f \<in> set flds \<Longrightarrow> a \<in> set as
      \<Longrightarrow> name = Local (Attr.Name a) \<Longrightarrow> proj (fst (f v s)) = proj s"
    and "\<And>name f c s. ElemField name f \<in> set flds \<Longrightarrow> elements name cs \<noteq> []
      \<Longrightarrow> proj (fst (f c s)) = proj s"
  shows "proj (fst (unmarshal_struct xmlname flds (Element n as cs en) s)) = proj s"
proof -
  define s1 where "s1 = (case xmlname of None \<Rightarrow> s | Some (name, setName) \<Rightarrow> setName n s)"
  have s1: "proj s1 = proj s"
    using assms(1) by (auto simp: s1_def split: option.splits)
  have a: "proj (fst (assign_attrs flds as s1)) = proj s1"
    by (rule assign_attrs_proj) (use assms(2) in auto)
  have c: "proj (fst (children flds cs s2)) = proj s2" for s2
    by (rule children_absent) (use assms(3) in auto)
  show ?thesis
    using s1 a c [of "fst (assign_attrs flds as s1)"]
    by (auto simp: unmarshal_struct_def s1_def split: option.splits prod.splits ending.splits if_splits)
qed

lemma unmarshal_GPX_absent:
  "list_all (\<lambda>a. Local (Attr.Name a) \<noteq> ''version'') as \<Longrightarrow>
     Version (fst (unmarshal_GPX (Element n as cs en) g)) = Version g"
  "list_all (\<lambda>a. Local (Attr.Name a) \<noteq> ''creator'') as \<Longrightarrow>
     Creator (fst (unmarshal_GPX (Element n as cs en) g)) = Creator g"
  "elements ''metadata'' cs = [] \<Longrightarrow>
     GPX.Metadata (fst (unmarshal_GPX (Element n as cs en) g)) = GPX.Metadata g"
  "elements ''wpt'' cs = [] \<Longrightarrow>
     GPX.Waypoints (fst (unmarshal_GPX (Element n as cs en) g)) = GPX.Waypoints g"
  "elements ''rte'' cs = [] \<Longrightarrow>
     GPX.Routes (fst (unmarshal_GPX (Element n as cs en) g)) = GPX.Routes g"
  "elements ''trk'' cs = [] \<Longrightarrow>
     GPX.Tracks (fst (unmarshal_GPX (Element n as cs en) g)) = GPX.Tracks g"
  unfolding unmarshal_GPX_def
  by (rule unmarshal_struct_absent;
      auto simp: GPX_fields_def attr_def elem_def slice_elem_def list_all_iff
        split: sum.splits prod.splits option.splits)+

lemma parse_minimal_valid:
  \<open>parse_document
     ''<?xml version="1.0" encoding="UTF-8"?> <gpx xmlns="http://www.topografix.com/GPX/1/1" creator="test" version="1.1"> <trk></trk> </gpx>'' =
   Inr (Element \<lparr>Space = ''http://www.topografix.com/GPX/1/1'', Local = ''gpx''\<rparr>
         [\<lparr>Attr.Name = \<lparr>Space = [], Local = ''xmlns''\<rparr>, Value = ''http://www.topografix.com/GPX/1/1''\<rparr>,
          \<lparr>Attr.Name = \<lparr>Space = [], Local = ''creator''\<rparr>, Value = ''test''\<rparr>,
          \<lparr>Attr.Name = \<lparr>Space = [], Local = ''version''\<rparr>, Value = ''1.1''\<rparr>]
         [Leaf (CharData '' ''), Element \<lparr>Space = ''http://www.topografix.com/GPX/1/1'', Local = ''trk''\<rparr> [] [] Closed, Leaf (CharData '' '')]
         Closed)\<close>
  by (simp add: lex_eval procInst.simps to_lower_def char_of_def bit_Suc_0_iff)

text \<open>
  C7. A minimal document is a \<^verbatim>\<open>gpx\<close> element with its attributes (\<^verbatim>\<open>version\<close> and
  \<^verbatim>\<open>creator\<close> in any order, any other attribute, such as the declaration of a name
  space, beside them) that holds no element, or none but \<^verbatim>\<open>trk\<close> elements that hold no
  element themselves (\<^verbatim>\<open>trk\<close> is the one child whose tag has no \<^verbatim>\<open>omitempty\<close>); character
  data, comments and an XML declaration may stand anywhere. It decodes without error,
  into a fresh document, to the zero document with the name of the root element, the
  version, the creator and the name of the \<^verbatim>\<open>trk\<close> element filled in: every other field,
  at every depth, has its zero value.

  Moreover, for every document, whether it decodes without error or not: a field of
  the document whose attribute or element the root element does not have has its
  zero value.
\<close>

theorem Parse_minimal_document:
  "(parse_document b = Inr (Element n as cs Closed) \<and> Local n = ''gpx'' \<and>
    list_all (\<lambda>c. is_leaf c \<or> empty_element ''trk'' c) cs \<longrightarrow>
      Parse b GPX_zero =
        (GPX_zero\<lparr>GPX.XMLName := n,
           Version := attribute ''version'' as [],
           Creator := attribute ''creator'' as [],
           Tracks := (if elements ''trk'' cs = [] then Track_zero
                      else Track_zero\<lparr>Track.XMLName := element_name (last (elements ''trk'' cs))\<rparr>)\<rparr>,
         None)) \<and>
   (parse_document b = Inr (Element n as cs en) \<longrightarrow>
      (list_all (\<lambda>a. Local (Attr.Name a) \<noteq> ''version'') as \<longrightarrow> Version (fst (Parse b GPX_zero)) = []) \<and>
      (list_all (\<lambda>a. Local (Attr.Name a) \<noteq> ''creator'') as \<longrightarrow> Creator (fst (Parse b GPX_zero)) = []) \<and>
      (elements ''metadata'' cs = [] \<longrightarrow> GPX.Metadata (fst (Parse b GPX_zero)) = Metadata_zero) \<and>
      (elements ''wpt'' cs = [] \<longrightarrow> GPX.Waypoints (fst (Parse b GPX_zero)) = []) \<and>
      (elements ''rte'' cs = [] \<longrightarrow> GPX.Routes (fst (Parse b GPX_zero)) = []) \<and>
      (elements ''trk'' cs = [] \<longrightarrow> GPX.Tracks (fst (Parse b GPX_zero)) = Track_zero))"
proof (intro conjI impI)
  assume "parse_document b = Inr (Element n as cs Closed) \<and> Local n = ''gpx'' \<and>
    list_all (\<lambda>c. is_leaf c \<or> empty_element ''trk'' c) cs"
  then have p: "Parse b GPX_zero = unmarshal_GPX (Element n as cs Closed) GPX_zero"
    and n: "Local n = ''gpx''" and l: "list_all (\<lambda>c. is_leaf c \<or> empty_element ''trk'' c) cs"
    by (simp_all add: Parse_document)
  show "Parse b GPX_zero =
        (GPX_zero\<lparr>GPX.XMLName := n,
           Version := attribute ''version'' as [],
           Creator := attribute ''creator'' as [],
           Tracks := (if elements ''trk'' cs = [] then Track_zero
                      else Track_zero\<lparr>Track.XMLName := element_name (last (elements ''trk'' cs))\<rparr>)\<rparr>,
         None)"
    unfolding p unmarshal_GPX_minimal [OF n l]
    by (simp add: GPX_zero_def)
next
  assume "parse_document b = Inr (Element n as cs en)"
  then have p: "Parse b GPX_zero = unmarshal_GPX (Element n as cs en) GPX_zero"
    by (rule Parse_document)
  {
    assume "list_all (\<lambda>a. Local (Attr.Name a) \<noteq> ''version'') as"
    then show "Version (fst (Parse b GPX_zero)) = []"
      unfolding p by (simp add: unmarshal_GPX_absent GPX_zero_def)
  next
    assume "list_all (\<lambda>a. Local (Attr.Name a) \<noteq> ''creator'') as"
    then show "Creator (fst (Parse b GPX_zero)) = []"
      unfolding p by (simp add: unmarshal_GPX_absent GPX_zero_def)
  next
    assume "elements ''metadata'' cs = []"
    then show "GPX.Metadata (fst (Parse b GPX_zero)) = Metadata_zero"
      unfolding p by (simp add: unmarshal_GPX_absent GPX_zero_def)
  next
    assume "elements ''wpt'' cs = []"
    then show "GPX.Waypoints (fst (Parse b GPX_zero)) = []"
      unfolding p by (simp add: unmarshal_GPX_absent GPX_zero_def)
  next
    assume "elements ''rte'' cs = []"
    then show "GPX.Routes (fst (Parse b GPX_zero)) = []"
      unfolding p by (simp add: unmarshal_GPX_absent GPX_zero_def)
  next
    assume "elements ''trk'' cs = []"
    then show "GPX.Tracks (fst (Parse b GPX_zero)) = Track_zero"
      unfolding p by (simp add: unmarshal_GPX_absent GPX_zero_def)
  }
qed

theorem Parse_minimal_document_witness:
  \<open>Parse ''<?xml version="1.0" encoding="UTF-8"?> <gpx xmlns="http://www.topografix.com/GPX/1/1" creator="test" version="1.1"> <trk></trk> </gpx>''
     GPX_zero =
     (GPX_zero\<lparr>GPX.XMLName := \<lparr>Space = ''http://www.topografix.com/GPX/1/1'', Local = ''gpx''\<rparr>,
        Version := ''1.1'', Creator := ''test'',
        Tracks := Track_zero\<lparr>Track.XMLName := \<lparr>Space = ''http://www.topografix.com/GPX/1/1'', Local = ''trk''\<rparr>\<rparr>\<rparr>,
      None) \<and>
   GPX.Metadata (fst (Parse ''<?xml version="1.0" encoding="UTF-8"?> <gpx xmlns="http://www.topografix.com/GPX/1/1" creator="test" version="1.1"> <trk></trk> </gpx>''
     GPX_zero)) = Metadata_zero \<and>
   GPX.Waypoints (fst (Parse ''<?xml version="1.0" encoding="UTF-8"?> <gpx xmlns="http://www.topografix.com/GPX/1/1" creator="test" version="1.1"> <trk></trk> </gpx>''
     GPX_zero)) = [] \<and>
   GPX.Routes (fst (Parse ''<?xml version="1.0" encoding="UTF-8"?> <gpx xmlns="http://www.topografix.com/GPX/1/1" creator="test" version="1.1"> <trk></trk> </gpx>''
     GPX_zero)) = []\<close>
proof -
  note t = Parse_minimal_document
    [where b = \<open>''<?xml version="1.0" encoding="UTF-8"?> <gpx xmlns="http://www.topografix.com/GPX/1/1" creator="test" version="1.1"> <trk></trk> </gpx>''\<close>
       and n = \<open>\<lparr>Space = ''http://www.topografix.com/GPX/1/1'', Local = ''gpx''\<rparr>\<close>
       and as = \<open>[\<lparr>Attr.Name = \<lparr>Space = [], Local = ''xmlns''\<rparr>, Value = ''http://www.topografix.com/GPX/1/1''\<rparr>,
          \<lparr>Attr.Name = \<lparr>Space = [], Local = ''creator''\<rparr>, Value = ''test''\<rparr>,
          \<lparr>Attr.Name = \<lparr>Space = [], Local = ''version''\<rparr>, Value = ''1.1''\<rparr>]\<close>
       and cs = \<open>[Leaf (CharData '' ''), Element \<lparr>Space = ''http://www.topografix.com/GPX/1/1'', Local = ''trk''\<rparr> [] [] Closed, Leaf (CharData '' '')]\<close>
       and en = Closed]
  have h: \<open>list_all (\<lambda>c. is_leaf c \<or> empty_element ''trk'' c)
      [Leaf (CharData '' ''), Element \<lparr>Space = ''http://www.topografix.com/GPX/1/1'', Local = ''trk''\<rparr> [] [] Closed, Leaf (CharData '' '')]\<close>
    by (simp add: is_leaf_def empty_element_def)
  from t [THEN conjunct1, THEN mp, OF conjI [OF parse_minimal_valid conjI [OF _ h]]]
  have 1: \<open>Parse ''<?xml version="1.0" encoding="UTF-8"?> <gpx xmlns="http://www.topografix.com/GPX/1/1" creator="test" version="1.1"> <trk></trk> </gpx>''
     GPX_zero =
     (GPX_zero\<lparr>GPX.XMLName := \<lparr>Space = ''http://www.topografix.com/GPX/1/1'', Local = ''gpx''\<rparr>,
        Version := ''1.1'', Creator := ''test'',
        Tracks := Track_zero\<lparr>Track.XMLName := \<lparr>Space = ''http://www.topografix.com/GPX/1/1'', Local = ''trk''\<rparr>\<rparr>\<rparr>,
      None)\<close>
    by (simp add: elements_def is_element_def)
  from t [THEN conjunct2, THEN mp, OF parse_minimal_valid]
  have 2: \<open>GPX.Metadata (fst (Parse ''<?xml version="1.0" encoding="UTF-8"?> <gpx xmlns="http://www.topografix.com/GPX/1/1" creator="test" version="1.1"> <trk></trk> </gpx>''
     GPX_zero)) = Metadata_zero \<and>
   GPX.Waypoints (fst (Parse ''<?xml version="1.0" encoding="UTF-8"?> <gpx xmlns="http://www.topografix.com/GPX/1/1" creator="test" version="1.1"> <trk></trk> </gpx>''
     GPX_zero)) = [] \<and>
   GPX.Routes (fst (Parse ''<?xml version="1.0" encoding="UTF-8"?> <gpx xmlns="http://www.topografix.com/GPX/1/1" creator="test" version="1.1"> <trk></trk> </gpx>''
     GPX_zero)) = []\<close>
    by (simp add: elements_def is_element_def)
  from 1 2 show ?thesis by (rule conjI)
qed

section \<open>The fix of a waypoint\<close>

lemma chardata_character_data: "chardata cs = Inr d \<Longrightarrow> d = character_data cs"
  by (induction cs arbitrary: d rule: chardata.induct) (auto split: option.splits sum.splits)

lemma unmarshal_string_text:
  "unmarshal_string (Element n as cs en) v = (x, None) \<Longrightarrow> x = character_data cs"
  by (auto simp: unmarshal_string_def unmarshal_basic_def copyValue_string_def
      dest: chardata_character_data split: sum.splits ending.splits)

lemma chardata_ok: "Skip_list cs = None \<Longrightarrow> \<exists>d. chardata cs = Inr d"
  by (induction cs rule: chardata.induct) (auto split: option.splits sum.splits)

lemma unmarshal_string_ok:
  assumes "Skip (Element n as cs en) = None"
  shows "unmarshal_string (Element n as cs en) v = (element_text (Element n as cs en), None)"
proof -
  from assms have s: "Skip_list cs = None" and en: "en = Closed"
    by (auto split: option.splits ending.splits)
  from chardata_ok [OF s] obtain d where "chardata cs = Inr d" ..
  with en show ?thesis
    by (simp add: element_text_def unmarshal_string_def unmarshal_basic_def copyValue_string_def)
qed

lemma children_WayPoint_Fix:
  "children WayPoint_fields cs w = (w', None) \<Longrightarrow>
   WayPoint.Fix w' =
     (if elements ''fix'' cs = [] then WayPoint.Fix w
      else character_data (content (last (elements ''fix'' cs))))"
proof (induction cs arbitrary: w)
  case Nil
  then show ?case by (simp add: elements_def)
next
  case (Cons c cs)
  show ?case
  proof (cases c)
    case (Leaf x)
    with Cons show ?thesis by (simp add: elements_def is_element_def)
  next
    case (Element n as cs' en)
    with Cons.prems obtain w1
      where step: "(case unmarshalPath WayPoint_fields n c w of
               Some x \<Rightarrow> x | None \<Rightarrow> (w, Skip c)) = (w1, None)"
        and rest: "children WayPoint_fields cs w1 = (w', None)"
      unfolding Element children_Cons_Element by blast
    from step Element have "WayPoint.Fix w1 =
        (if Local n = ''fix'' then character_data cs' else WayPoint.Fix w)"
      by (auto simp: WayPoint_fields_def attr_def elem_def slice_elem_def
          simp del: Skip.simps dest: unmarshal_string_text split: if_splits prod.splits option.splits)
    with Cons.IH [OF rest] Element show ?thesis
      by (simp add: elements_def is_element_def)
  qed
qed

lemma unmarshal_WayPoint_Fix:
  assumes "unmarshal_WayPoint (Element n as cs en) w = (w', None)"
  shows "WayPoint.Fix w' =
     (if elements ''fix'' cs = [] then WayPoint.Fix w
      else character_data (content (last (elements ''fix'' cs))))"
proof -
  from assms obtain s2
    where a: "assign_attrs WayPoint_fields as w = (s2, None)"
      and c: "children WayPoint_fields cs s2 = (w', None)"
    unfolding unmarshal_WayPoint_def by (auto dest!: unmarshal_struct_None)
  have "WayPoint.Fix (fst (assign_attrs WayPoint_fields as w)) = WayPoint.Fix w"
    by (rule assign_attrs_proj)
      (auto simp: WayPoint_fields_def attr_def elem_def slice_elem_def split: sum.splits)
  with a have "WayPoint.Fix s2 = WayPoint.Fix w" by simp
  with children_WayPoint_Fix [OF c] show ?thesis by simp
qed


lemma step_WayPoint_fix:
  assumes "Local n = ''fix''" and "Skip (Element n as cs en) = None"
  shows "unmarshalPath WayPoint_fields n (Element n as cs en) w =
     Some (w\<lparr>WayPoint.Fix := element_text (Element n as cs en)\<rparr>, None)"
  using assms(1) unmarshal_string_ok [OF assms(2)]
  by (simp add: WayPoint_fields_def attr_def elem_def slice_elem_def del: Skip.simps)

lemma unmarshalPath_commute:
  assumes "list_all (\<lambda>fld. case fld of
        AttrField name f \<Rightarrow> True
      | ElemField name f \<Rightarrow> name = Local n \<longrightarrow> f c (u s) = (case f c s of (s1, e) \<Rightarrow> (u s1, e))) flds"
  shows "(case unmarshalPath flds n c (u s) of Some r \<Rightarrow> r | None \<Rightarrow> (u s, Skip c)) =
         (case (case unmarshalPath flds n c s of Some r \<Rightarrow> r | None \<Rightarrow> (s, Skip c)) of
            (s1, e) \<Rightarrow> (u s1, e))"
  using assms
proof (induction flds)
  case Nil
  show ?case by (simp del: Skip.simps)
next
  case (Cons fld flds)
  then show ?case
    by (cases fld) (simp_all del: Skip.simps)
qed

lemma step_WayPoint_other:
  assumes "Local n \<noteq> ''fix''"
  shows "(case unmarshalPath WayPoint_fields n c (w\<lparr>WayPoint.Fix := t\<rparr>) of
            Some r \<Rightarrow> r | None \<Rightarrow> (w\<lparr>WayPoint.Fix := t\<rparr>, Skip c)) =
         (case (case unmarshalPath WayPoint_fields n c w of Some r \<Rightarrow> r | None \<Rightarrow> (w, Skip c)) of
            (w1, e) \<Rightarrow> (w1\<lparr>WayPoint.Fix := t\<rparr>, e))"
proof (rule unmarshalPath_commute [where u = "\<lambda>w. w\<lparr>WayPoint.Fix := t\<rparr>"])
  from assms have "''fix'' \<noteq> Local n" by auto
  then show "list_all (\<lambda>fld. case fld of
        AttrField name f \<Rightarrow> True
      | ElemField name f \<Rightarrow> name = Local n \<longrightarrow>
          f c (w\<lparr>WayPoint.Fix := t\<rparr>) = (case f c w of (s1, e) \<Rightarrow> (s1\<lparr>WayPoint.Fix := t\<rparr>, e)))
      WayPoint_fields"
    by (simp add: WayPoint_fields_def attr_def elem_def slice_elem_def split: prod.splits option.splits)
qed

lemma children_WayPoint_Fix_update:
  "list_all (\<lambda>c. \<not> is_element ''fix'' c) cs \<Longrightarrow>
   children WayPoint_fields cs (w\<lparr>WayPoint.Fix := t\<rparr>) =
     (case children WayPoint_fields cs w of (w1, e) \<Rightarrow> (w1\<lparr>WayPoint.Fix := t\<rparr>, e))"
proof (induction cs arbitrary: w)
  case Nil
  show ?case by simp
next
  case (Cons c cs)
  from Cons.prems have rest: "list_all (\<lambda>c. \<not> is_element ''fix'' c) cs" by simp
  show ?case
  proof (cases c)
    case (Leaf x)
    with Cons.IH [OF rest] show ?thesis by simp
  next
    case (Element n as cs' en)
    with Cons.prems have n: "Local n \<noteq> ''fix''" by (simp add: is_element_def)
    obtain w1 e where r: "(case unmarshalPath WayPoint_fields n c w of
        Some r \<Rightarrow> r | None \<Rightarrow> (w, Skip c)) = (w1, e)"
      by (cases "case unmarshalPath WayPoint_fields n c w of Some r \<Rightarrow> r | None \<Rightarrow> (w, Skip c)") auto
    from step_WayPoint_other [OF n, where c = c and w = w and t = t] r
    have r': "(case unmarshalPath WayPoint_fields n c (w\<lparr>WayPoint.Fix := t\<rparr>) of
        Some r \<Rightarrow> r | None \<Rightarrow> (w\<lparr>WayPoint.Fix := t\<rparr>, Skip c)) = (w1\<lparr>WayPoint.Fix := t\<rparr>, e)"
      by simp
    show ?thesis
      unfolding Element children.simps r [unfolded Element] r' [unfolded Element]
      using Cons.IH [OF rest, of w1]
      by (simp split: option.splits)
  qed
qed

lemma children_WayPoint_without_fix:
  "list_all (\<lambda>c. is_element ''fix'' c \<longrightarrow> Skip c = None) cs \<Longrightarrow>
   snd (children WayPoint_fields cs w) =
   snd (children WayPoint_fields (filter (\<lambda>c. \<not> is_element ''fix'' c) cs) w)"
proof (induction cs arbitrary: w)
  case Nil
  show ?case by simp
next
  case (Cons c cs)
  from Cons.prems have rest: "list_all (\<lambda>c. is_element ''fix'' c \<longrightarrow> Skip c = None) cs" by simp
  note IH = Cons.IH [OF rest]
  show ?case
  proof (cases c)
    case (Leaf x)
    with IH show ?thesis by (simp add: is_element_def)
  next
    case (Element n as cs' en)
    show ?thesis
    proof (cases "Local n = ''fix''")
      case True
      with Cons.prems Element have "Skip (Element n as cs' en) = None"
        by (simp add: is_element_def)
      from step_WayPoint_fix [OF True this]
      have "children WayPoint_fields (c # cs) w =
          children WayPoint_fields cs (w\<lparr>WayPoint.Fix := element_text c\<rparr>)"
        unfolding Element by (simp del: Skip.simps)
      moreover have "snd (children WayPoint_fields (filter (\<lambda>c. \<not> is_element ''fix'' c) cs)
            (w\<lparr>WayPoint.Fix := element_text c\<rparr>)) =
          snd (children WayPoint_fields (filter (\<lambda>c. \<not> is_element ''fix'' c) cs) w)"
        by (subst children_WayPoint_Fix_update) (simp_all add: list_all_iff split: prod.splits)
      ultimately show ?thesis
        using IH [of "w\<lparr>WayPoint.Fix := element_text c\<rparr>"] True Element
        by (simp add: is_element_def)
    next
      case False
      obtain w1 e where r: "(case unmarshalPath WayPoint_fields n (Element n as cs' en) w of
          Some r \<Rightarrow> r | None \<Rightarrow> (w, Skip (Element n as cs' en))) = (w1, e)"
        by (cases "case unmarshalPath WayPoint_fields n (Element n as cs' en) w of
          Some r \<Rightarrow> r | None \<Rightarrow> (w, Skip (Element n as cs' en))") auto
      show ?thesis
        using False IH [of w1]
        unfolding Element
        by (simp add: is_element_def r del: Skip.simps split: option.splits)
    qed
  qed
qed

lemma unmarshal_WayPoint_without_fix:
  assumes "list_all (\<lambda>c. is_element ''fix'' c \<longrightarrow> Skip c = None) cs"
  shows "snd (unmarshal_WayPoint (Element n as cs en) w) =
         snd (unmarshal_WayPoint (Element n as (filter (\<lambda>c. \<not> is_element ''fix'' c) cs) en) w)"
proof -
  obtain s2 e where a: "assign_attrs WayPoint_fields as w = (s2, e)"
    by (cases "assign_attrs WayPoint_fields as w") auto
  obtain s3 e3 where c: "children WayPoint_fields cs s2 = (s3, e3)"
    by (cases "children WayPoint_fields cs s2") auto
  obtain s4 e4 where c': "children WayPoint_fields (filter (\<lambda>c. \<not> is_element ''fix'' c) cs) s2 = (s4, e4)"
    by (cases "children WayPoint_fields (filter (\<lambda>c. \<not> is_element ''fix'' c) cs) s2") auto
  from children_WayPoint_without_fix [OF assms, of s2] c c' have "e3 = e4" by simp
  with a c c' show ?thesis
    by (simp add: unmarshal_WayPoint_def unmarshal_struct_def split: option.splits ending.splits)
qed

lemma decoded_Fix:
  assumes "list_all (\<lambda>c. snd (unmarshal_WayPoint c WayPoint_zero) = None) (elements name cs)"
  shows "map WayPoint.Fix (map (\<lambda>c. fst (unmarshal_WayPoint c WayPoint_zero)) (elements name cs)) =
         map fix_text (elements name cs)"
proof -
  have "WayPoint.Fix (fst (unmarshal_WayPoint c WayPoint_zero)) = fix_text c"
    if "c \<in> set (elements name cs)" for c
  proof -
    from that assms have ok: "snd (unmarshal_WayPoint c WayPoint_zero) = None"
      by (simp add: list_all_iff)
    from that have "is_element name c"
      by (simp add: elements_def)
    then obtain m bs ds e where el: "c = Element m bs ds e"
      by (cases c) (simp_all add: is_element_def)
    from ok have "unmarshal_WayPoint (Element m bs ds e) WayPoint_zero =
        (fst (unmarshal_WayPoint c WayPoint_zero), None)"
      unfolding el by (metis prod.collapse)
    from unmarshal_WayPoint_Fix [OF this] show ?thesis
      by (simp add: el fix_text_def WayPoint_zero_def)
  qed
  then show ?thesis by simp
qed

lemma children_Route_RoutePoints:
  "children Route_fields cs t = (t', None) \<Longrightarrow>
   Route.RoutePoints t' =
     Route.RoutePoints t @ map (\<lambda>c. fst (unmarshal_WayPoint c WayPoint_zero)) (elements ''rtept'' cs) \<and>
   list_all (\<lambda>c. snd (unmarshal_WayPoint c WayPoint_zero) = None) (elements ''rtept'' cs)"
proof (induction cs arbitrary: t)
  case Nil
  then show ?case by (simp add: elements_def)
next
  case (Cons c cs)
  show ?case
  proof (cases c)
    case (Leaf x)
    with Cons show ?thesis by (simp add: elements_def is_element_def)
  next
    case (Element n as cs' en)
    with Cons.prems obtain t1
      where step: "(case unmarshalPath Route_fields n c t of
               Some x \<Rightarrow> x | None \<Rightarrow> (t, Skip c)) = (t1, None)"
        and rest: "children Route_fields cs t1 = (t', None)"
      unfolding Element children_Cons_Element by blast
    from step have "Route.RoutePoints t1 = Route.RoutePoints t @
        (if Local n = ''rtept'' then [fst (unmarshal_WayPoint c WayPoint_zero)] else [])"
      and "Local n = ''rtept'' \<longrightarrow> snd (unmarshal_WayPoint c WayPoint_zero) = None"
      by (auto simp: Route_fields_def attr_def elem_def slice_elem_def
          simp del: Skip.simps split: if_splits prod.splits option.splits)
    with Cons.IH [OF rest] Element show ?thesis
      by (simp add: elements_def is_element_def)
  qed
qed

lemma unmarshal_Route_Fix:
  assumes "snd (unmarshal_Route c Route_zero) = None"
  shows "map WayPoint.Fix (Route.RoutePoints (fst (unmarshal_Route c Route_zero))) =
         map fix_text (elements ''rtept'' (content c))"
proof (cases c)
  case (Leaf t)
  then show ?thesis
    by (simp add: unmarshal_Route_def unmarshal_struct_def Route_zero_def elements_def)
next
  case (Element n as cs en)
  from assms have "unmarshal_Route (Element n as cs en) Route_zero =
      (fst (unmarshal_Route c Route_zero), None)"
    unfolding Element by (metis prod.collapse)
  then obtain s2
    where a: "assign_attrs Route_fields as (Route.XMLName_update (\<lambda>_. n) Route_zero) = (s2, None)"
      and c: "children Route_fields cs s2 = (fst (unmarshal_Route c Route_zero), None)"
    unfolding unmarshal_Route_def by (auto dest!: unmarshal_struct_None)
  have "assign_attrs Route_fields as (Route.XMLName_update (\<lambda>_. n) Route_zero)
      = (Route.XMLName_update (\<lambda>_. n) Route_zero, None)"
    by (rule assign_attrs_no_attr_fields) (auto simp: Route_fields_def elem_def slice_elem_def)
  with a have "Route.RoutePoints s2 = []" by (auto simp: Route_zero_def)
  with children_Route_RoutePoints [OF c] decoded_Fix [of "''rtept''" cs] Element show ?thesis
    by simp
qed

lemma children_TrackSegment_TrackPoint:
  "children TrackSegment_fields cs t = (t', None) \<Longrightarrow>
   TrackSegment.TrackPoint t' =
     TrackSegment.TrackPoint t @ map (\<lambda>c. fst (unmarshal_WayPoint c WayPoint_zero)) (elements ''trkpt'' cs) \<and>
   list_all (\<lambda>c. snd (unmarshal_WayPoint c WayPoint_zero) = None) (elements ''trkpt'' cs)"
proof (induction cs arbitrary: t)
  case Nil
  then show ?case by (simp add: elements_def)
next
  case (Cons c cs)
  show ?case
  proof (cases c)
    case (Leaf x)
    with Cons show ?thesis by (simp add: elements_def is_element_def)
  next
    case (Element n as cs' en)
    with Cons.prems obtain t1
      where step: "(case unmarshalPath TrackSegment_fields n c t of
               Some x \<Rightarrow> x | None \<Rightarrow> (t, Skip c)) = (t1, None)"
        and rest: "children TrackSegment_fields cs t1 = (t', None)"
      unfolding Element children_Cons_Element by blast
    from step have "TrackSegment.TrackPoint t1 = TrackSegment.TrackPoint t @
        (if Local n = ''trkpt'' then [fst (unmarshal_WayPoint c WayPoint_zero)] else [])"
      and "Local n = ''trkpt'' \<longrightarrow> snd (unmarshal_WayPoint c WayPoint_zero) = None"
      by (auto simp: TrackSegment_fields_def attr_def elem_def slice_elem_def
          simp del: Skip.simps split: if_splits prod.splits option.splits)
    with Cons.IH [OF rest] Element show ?thesis
      by (simp add: elements_def is_element_def)
  qed
qed

lemma unmarshal_TrackSegment_Fix:
  assumes "snd (unmarshal_TrackSegment c TrackSegment_zero) = None"
  shows "map WayPoint.Fix (TrackSegment.TrackPoint (fst (unmarshal_TrackSegment c TrackSegment_zero))) =
         map fix_text (elements ''trkpt'' (content c))"
proof (cases c)
  case (Leaf t)
  then show ?thesis
    by (simp add: unmarshal_TrackSegment_def unmarshal_struct_def TrackSegment_zero_def elements_def)
next
  case (Element n as cs en)
  from assms have "unmarshal_TrackSegment (Element n as cs en) TrackSegment_zero =
      (fst (unmarshal_TrackSegment c TrackSegment_zero), None)"
    unfolding Element by (metis prod.collapse)
  then obtain s2
    where a: "assign_attrs TrackSegment_fields as
        (TrackSegment.XMLName_update (\<lambda>_. n) TrackSegment_zero) = (s2, None)"
      and c: "children TrackSegment_fields cs s2 = (fst (unmarshal_TrackSegment c TrackSegment_zero), None)"
    unfolding unmarshal_TrackSegment_def by (auto dest!: unmarshal_struct_None)
  have "assign_attrs TrackSegment_fields as (TrackSegment.XMLName_update (\<lambda>_. n) TrackSegment_zero)
      = (TrackSegment.XMLName_update (\<lambda>_. n) TrackSegment_zero, None)"
    by (rule assign_attrs_no_attr_fields) (auto simp: TrackSegment_fields_def elem_def slice_elem_def)
  with a have "TrackSegment.TrackPoint s2 = []" by (auto simp: TrackSegment_zero_def)
  with children_TrackSegment_TrackPoint [OF c] decoded_Fix [of "''trkpt''" cs] Element show ?thesis
    by simp
qed

lemma children_Track_trkseg_decoded:
  "children Track_fields cs t = (t', None) \<Longrightarrow>
   list_all (\<lambda>d. snd (unmarshal_TrackSegment d TrackSegment_zero) = None) (elements ''trkseg'' cs)"
proof (induction cs arbitrary: t)
  case Nil
  then show ?case by (simp add: elements_def)
next
  case (Cons c cs)
  show ?case
  proof (cases c)
    case (Leaf x)
    with Cons show ?thesis by (simp add: elements_def is_element_def)
  next
    case (Element n as cs' en)
    with Cons.prems obtain t1
      where step: "(case unmarshalPath Track_fields n c t of
               Some x \<Rightarrow> x | None \<Rightarrow> (t, Skip c)) = (t1, None)"
        and rest: "children Track_fields cs t1 = (t', None)"
      unfolding Element children_Cons_Element by blast
    from step have "Local n = ''trkseg'' \<longrightarrow> snd (unmarshal_TrackSegment c TrackSegment_zero) = None"
      by (auto simp: Track_fields_def attr_def elem_def slice_elem_def
          simp del: Skip.simps split: if_splits prod.splits option.splits)
    with Cons.IH [OF rest] Element show ?thesis
      by (simp add: elements_def is_element_def)
  qed
qed

lemma children_GPX_decoded:
  "children GPX_fields cs s = (r, None) \<Longrightarrow>
   list_all (\<lambda>c. snd (unmarshal_WayPoint c WayPoint_zero) = None) (elements ''wpt'' cs) \<and>
   list_all (\<lambda>c. snd (unmarshal_Route c Route_zero) = None) (elements ''rte'' cs) \<and>
   GPX.Routes r = GPX.Routes s @ map (\<lambda>c. fst (unmarshal_Route c Route_zero)) (elements ''rte'' cs) \<and>
   list_all (\<lambda>d. snd (unmarshal_TrackSegment d TrackSegment_zero) = None)
     (grandchildren ''trk'' ''trkseg'' cs)"
proof (induction cs arbitrary: s)
  case Nil
  then show ?case by (simp add: elements_def grandchildren_simps)
next
  case (Cons c cs)
  show ?case
  proof (cases c)
    case (Leaf t)
    with Cons show ?thesis by (simp add: elements_def is_element_def grandchildren_simps)
  next
    case (Element n as cs' en)
    with Cons.prems obtain s1
      where step: "(case unmarshalPath GPX_fields n c s of
               Some x \<Rightarrow> x | None \<Rightarrow> (s, Skip c)) = (s1, None)"
        and rest: "children GPX_fields cs s1 = (r, None)"
      unfolding Element children_Cons_Element by blast
    from step have w: "Local n = ''wpt'' \<longrightarrow> snd (unmarshal_WayPoint c WayPoint_zero) = None"
      and rt: "Local n = ''rte'' \<longrightarrow> snd (unmarshal_Route c Route_zero) = None"
      and rts: "GPX.Routes s1 = GPX.Routes s @
        (if Local n = ''rte'' then [fst (unmarshal_Route c Route_zero)] else [])"
      by (auto simp: GPX_fields_def attr_def elem_def slice_elem_def
          simp del: Skip.simps split: if_splits prod.splits option.splits)
    have sg: "Local n = ''trk'' \<longrightarrow>
        list_all (\<lambda>d. snd (unmarshal_TrackSegment d TrackSegment_zero) = None) (elements ''trkseg'' cs')"
    proof
      assume "Local n = ''trk''"
      with step Element obtain x
        where u: "unmarshal_Track (Element n as cs' en) (GPX.Tracks s) = (x, None)"
        by (auto simp: GPX_fields_def attr_def elem_def slice_elem_def
            simp del: Skip.simps split: if_splits prod.splits option.splits)
      then obtain s2 where "children Track_fields cs' s2 = (x, None)"
        unfolding unmarshal_Track_def by (auto dest!: unmarshal_struct_None)
      then show "list_all (\<lambda>d. snd (unmarshal_TrackSegment d TrackSegment_zero) = None)
          (elements ''trkseg'' cs')"
        by (rule children_Track_trkseg_decoded)
    qed
    from Cons.IH [OF rest] w rt rts sg Element show ?thesis
      by (simp add: elements_def is_element_def grandchildren_simps)
  qed
qed

lemma unmarshal_GPX_Fix:
  assumes "unmarshal_GPX (Element n as cs en) GPX_zero = (r, None)"
  shows "map WayPoint.Fix (GPX.Waypoints r) = map fix_text (elements ''wpt'' cs)"
    and "map (\<lambda>rt. map WayPoint.Fix (Route.RoutePoints rt)) (GPX.Routes r) =
         map (\<lambda>c. map fix_text (elements ''rtept'' (content c))) (elements ''rte'' cs)"
    and "map (\<lambda>sg. map WayPoint.Fix (TrackSegment.TrackPoint sg)) (Track.TrackSegments (GPX.Tracks r)) =
         map (\<lambda>c. map fix_text (elements ''trkpt'' (content c))) (grandchildren ''trk'' ''trkseg'' cs)"
proof -
  from assms obtain s2
    where a: "assign_attrs GPX_fields as (GPX.XMLName_update (\<lambda>_. n) GPX_zero) = (s2, None)"
      and c: "children GPX_fields cs s2 = (r, None)"
    unfolding unmarshal_GPX_def by (auto dest!: unmarshal_struct_None)
  note d = children_GPX_decoded [OF c]
  have z: "GPX.Waypoints GPX_zero = []" "GPX.Routes GPX_zero = []"
    "Track.TrackSegments (GPX.Tracks GPX_zero) = []"
    by (simp_all add: GPX_zero_def Track_zero_def)
  from unmarshal_GPX_Waypoints [OF assms] z decoded_Fix [of "''wpt''" cs] d
  show "map WayPoint.Fix (GPX.Waypoints r) = map fix_text (elements ''wpt'' cs)"
    by simp
  have "GPX.Routes (fst (assign_attrs GPX_fields as (GPX.XMLName_update (\<lambda>_. n) GPX_zero)))
      = GPX.Routes (GPX.XMLName_update (\<lambda>_. n) GPX_zero)"
    by (rule assign_attrs_proj)
      (auto simp: GPX_fields_def attr_def elem_def slice_elem_def split: sum.splits)
  with a z have "GPX.Routes s2 = []" by simp
  with d have rts: "GPX.Routes r = map (\<lambda>c. fst (unmarshal_Route c Route_zero)) (elements ''rte'' cs)"
    and ok: "list_all (\<lambda>c. snd (unmarshal_Route c Route_zero) = None) (elements ''rte'' cs)"
    by simp_all
  show "map (\<lambda>rt. map WayPoint.Fix (Route.RoutePoints rt)) (GPX.Routes r) =
         map (\<lambda>c. map fix_text (elements ''rtept'' (content c))) (elements ''rte'' cs)"
    unfolding rts using ok by (simp add: list_all_iff unmarshal_Route_Fix)
  have "GPX.Tracks (fst (assign_attrs GPX_fields as (GPX.XMLName_update (\<lambda>_. n) GPX_zero)))
      = GPX.Tracks (GPX.XMLName_update (\<lambda>_. n) GPX_zero)"
    by (rule assign_attrs_proj)
      (auto simp: GPX_fields_def attr_def elem_def slice_elem_def split: sum.splits)
  with a have "GPX.Tracks s2 = GPX.Tracks GPX_zero" by simp
  with children_GPX_Tracks [OF c] z
  have sgs: "Track.TrackSegments (GPX.Tracks r) =
      map (\<lambda>d. fst (unmarshal_TrackSegment d TrackSegment_zero)) (grandchildren ''trk'' ''trkseg'' cs)"
    by simp
  show "map (\<lambda>sg. map WayPoint.Fix (TrackSegment.TrackPoint sg)) (Track.TrackSegments (GPX.Tracks r)) =
         map (\<lambda>c. map fix_text (elements ''trkpt'' (content c))) (grandchildren ''trk'' ''trkseg'' cs)"
    unfolding sgs using d by (simp add: list_all_iff unmarshal_TrackSegment_Fix)
qed

lemma Skip_Element_None:
  "Skip (Element n as cs en) = None \<longleftrightarrow> Skip_list cs = None \<and> en = Closed"
  by (auto split: option.splits ending.splits)

lemma Skip_list_None: "Skip_list cs = None \<longleftrightarrow> (\<forall>c \<in> set cs. Skip c = None)"
  by (induction cs) (auto simp del: Skip.simps split: option.splits)

lemma keeps_without_fix: "keeps without_fix"
  by (auto simp: keeps_def without_fix_def Skip_list_None split: option.splits ending.splits)

lemma keeps_Skip:
  assumes "keeps T" and "Skip c = None" and "is_element name c"
  shows "Skip (T c) = None"
proof (cases c)
  case (Leaf t)
  with assms(3) show ?thesis by (simp add: is_element_def)
next
  case (Element n as cs en)
  with assms(1,2) obtain as' cs' where "T c = Element n as' cs' Closed" "Skip_list cs' = None"
    unfolding keeps_def by blast
  then show ?thesis by simp
qed

lemma keeps_on_children:
  assumes "keeps T"
  shows "keeps (on_children name T)"
  unfolding keeps_def
proof (intro allI impI)
  fix n as cs en
  assume s: "Skip (Element n as cs en) = None"
  then have cs: "\<forall>c \<in> set cs. Skip c = None" and en: "en = Closed"
    by (simp_all add: Skip_Element_None Skip_list_None del: Skip.simps)
  have "Skip_list (map (\<lambda>d. if is_element name d then T d else d) cs) = None"
    unfolding Skip_list_None using cs keeps_Skip [OF assms] by auto
  with en show "\<exists>as' cs'. on_children name T (Element n as cs en) = Element n as' cs' Closed \<and> Skip_list cs' = None"
    by (simp add: on_children_def)
qed

lemma assign_attr_pure:
  "list_all pure_field flds \<Longrightarrow> snd (assign_attr flds a s) = snd (assign_attr flds a s')"
proof (induction flds arbitrary: s s')
  case Nil
  show ?case by simp
next
  case (Cons fld flds)
  from Cons.prems have rest: "list_all pure_field flds" by simp
  note IH = Cons.IH [OF rest]
  show ?case
  proof (cases fld)
    case (ElemField name f)
    with IH show ?thesis by simp
  next
    case (AttrField name f)
    with Cons.prems have p: "snd (f v t) = snd (f v t')" for v t t'
      by (simp add: pure_field_def)
    obtain s1 e1 where 1: "f (Value a) s = (s1, e1)" by (cases "f (Value a) s") auto
    obtain s2 e2 where 2: "f (Value a) s' = (s2, e2)" by (cases "f (Value a) s'") auto
    from p [of "Value a" s s'] 1 2 have "e1 = e2" by simp
    with AttrField 1 2 IH [of s1 s2] IH [of s s'] show ?thesis
      by (simp split: option.splits)
  qed
qed

lemma assign_attrs_pure:
  "list_all pure_field flds \<Longrightarrow> snd (assign_attrs flds as s) = snd (assign_attrs flds as s')"
proof (induction as arbitrary: s s')
  case Nil
  show ?case by simp
next
  case (Cons a as)
  obtain s1 e1 where 1: "assign_attr flds a s = (s1, e1)" by (cases "assign_attr flds a s") auto
  obtain s2 e2 where 2: "assign_attr flds a s' = (s2, e2)" by (cases "assign_attr flds a s'") auto
  from assign_attr_pure [OF Cons.prems, of a s s'] 1 2 have "e1 = e2" by simp
  with 1 2 Cons.IH [OF Cons.prems, of s1 s2] show ?case
    by (simp split: option.splits)
qed

lemma unmarshalPath_field:
  "(\<forall>c s. unmarshalPath flds n c s = None) \<or>
   (\<exists>f. ElemField (Local n) f \<in> set flds \<and> (\<forall>c s. unmarshalPath flds n c s = Some (f c s)))"
proof (induction flds)
  case Nil
  show ?case by simp
next
  case (Cons fld flds)
  show ?case
  proof (cases fld)
    case (AttrField name f)
    with Cons show ?thesis by auto
  next
    case (ElemField name f)
    show ?thesis
    proof (cases "name = Local n")
      case True
      with ElemField show ?thesis by auto
    next
      case False
      with ElemField Cons show ?thesis by auto
    qed
  qed
qed

lemma children_on_children:
  assumes pure: "list_all pure_field flds"
    and keeps: "keeps T"
    and fld: "\<And>f d s. ElemField name f \<in> set flds \<Longrightarrow> Skip d = None \<Longrightarrow> is_element name d
      \<Longrightarrow> snd (f (T d) s) = snd (f d s)"
  shows "Skip_list cs = None \<Longrightarrow>
    snd (children flds (map (\<lambda>d. if is_element name d then T d else d) cs) s) =
    snd (children flds cs s')"
proof (induction cs arbitrary: s s')
  case Nil
  show ?case by simp
next
  case (Cons c cs)
  let ?g = "\<lambda>d. if is_element name d then T d else d"
  from Cons.prems have c: "Skip c = None" and rest: "Skip_list cs = None"
    by (auto simp del: Skip.simps split: option.splits)
  note IH = Cons.IH [OF rest]
  show ?case
  proof (cases c)
    case (Leaf t)
    with IH show ?thesis by (simp add: is_element_def)
  next
    case (Element n as ds en)
    obtain as' ds' where g: "?g c = Element n as' ds' Closed" and gs: "Skip (?g c) = None"
    proof (cases "is_element name c")
      case True
      from keeps c Element obtain as' ds' where "T c = Element n as' ds' Closed" "Skip_list ds' = None"
        unfolding keeps_def by blast
      with True that show ?thesis by simp
    next
      case False
      from c Element have "en = Closed" by (simp add: Skip_Element_None del: Skip.simps)
      with False Element c that show ?thesis by simp
    qed
    from unmarshalPath_field [of flds n] show ?thesis
    proof
      assume none: "\<forall>c s. unmarshalPath flds n c s = None"
      have "children flds (?g c # map ?g cs) s = children flds (map ?g cs) s"
        using none gs unfolding g by (simp del: Skip.simps)
      moreover have "children flds (c # cs) s' = children flds cs s'"
        using none c unfolding Element by (simp del: Skip.simps)
      ultimately show ?thesis using IH [of s s'] by simp
    next
      assume "\<exists>f. ElemField (Local n) f \<in> set flds \<and> (\<forall>c s. unmarshalPath flds n c s = Some (f c s))"
      then obtain f where mem: "ElemField (Local n) f \<in> set flds"
        and up: "\<And>c s. unmarshalPath flds n c s = Some (f c s)" by blast
      from pure mem have p: "snd (f d t) = snd (f d t')" for d t t'
        by (auto simp: list_all_iff pure_field_def)
      have "snd (f (?g c) s) = snd (f c s)"
      proof (cases "is_element name c")
        case True
        with Element have "Local n = name" by (simp add: is_element_def)
        with mem c True show ?thesis by (simp add: fld)
      next
        case False
        then show ?thesis by simp
      qed
      with p [of c s s'] have e: "snd (f (?g c) s) = snd (f c s')" by simp
      obtain s1 e1 where 1: "f (?g c) s = (s1, e1)" by (cases "f (?g c) s") auto
      obtain s2 e2 where 2: "f c s' = (s2, e2)" by (cases "f c s'") auto
      from e 1 2 have ee: "e1 = e2" by simp
      have "children flds (?g c # map ?g cs) s =
          (case e1 of Some x \<Rightarrow> (s1, Some x) | None \<Rightarrow> children flds (map ?g cs) s1)"
        using up 1 unfolding g by (simp del: Skip.simps split: option.splits)
      moreover have "children flds (c # cs) s' =
          (case e2 of Some x \<Rightarrow> (s2, Some x) | None \<Rightarrow> children flds cs s2)"
        using up 2 unfolding Element by (simp del: Skip.simps split: option.splits)
      ultimately show ?thesis using IH [of s1 s2] ee by (simp split: option.splits)
    qed
  qed
qed

lemma children_pure:
  assumes "list_all pure_field flds"
  shows "snd (children flds cs s) = snd (children flds cs s')"
proof (induction cs arbitrary: s s')
  case Nil
  show ?case by simp
next
  case (Cons c cs)
  show ?case
  proof (cases c)
    case (Leaf t)
    with Cons.IH show ?thesis by simp
  next
    case (Element n as ds en)
    from unmarshalPath_field [of flds n] show ?thesis
    proof
      assume none: "\<forall>c s. unmarshalPath flds n c s = None"
      then show ?thesis
        unfolding Element using Cons.IH [of s s']
        by (simp del: Skip.simps split: option.splits)
    next
      assume "\<exists>f. ElemField (Local n) f \<in> set flds \<and> (\<forall>c s. unmarshalPath flds n c s = Some (f c s))"
      then obtain f where mem: "ElemField (Local n) f \<in> set flds"
        and up: "\<And>c s. unmarshalPath flds n c s = Some (f c s)" by blast
      from assms mem have p: "snd (f d t) = snd (f d t')" for d t t'
        by (auto simp: list_all_iff pure_field_def)
      obtain s1 e1 where 1: "f c s = (s1, e1)" by (cases "f c s") auto
      obtain s2 e2 where 2: "f c s' = (s2, e2)" by (cases "f c s'") auto
      from p [of c s s'] 1 2 have ee: "e1 = e2" by simp
      show ?thesis
        using up 1 2 ee Cons.IH [of s1 s2] unfolding Element [symmetric]
        by (simp add: Element del: Skip.simps split: option.splits)
    qed
  qed
qed


lemma unmarshal_struct_pure:
  assumes "list_all pure_field flds"
  shows "snd (unmarshal_struct xmlname flds c s) = snd (unmarshal_struct xmlname flds c s')"
proof (cases c)
  case (Leaf t)
  then show ?thesis by (simp add: unmarshal_struct_def)
next
  case (Element n as cs en)
  define s1 where "s1 = (case xmlname of None \<Rightarrow> s | Some (name, setName) \<Rightarrow> setName n s)"
  define s1' where "s1' = (case xmlname of None \<Rightarrow> s' | Some (name, setName) \<Rightarrow> setName n s')"
  obtain s2 e2 where a2: "assign_attrs flds as s1 = (s2, e2)" by (cases "assign_attrs flds as s1") auto
  obtain s2' e2' where a2p: "assign_attrs flds as s1' = (s2', e2')" by (cases "assign_attrs flds as s1'") auto
  from assign_attrs_pure [OF assms, of as s1 s1'] a2 a2p have e2: "e2 = e2'" by simp
  obtain s3 e3 where c3: "children flds cs s2 = (s3, e3)" by (cases "children flds cs s2") auto
  obtain s3' e3' where c3p: "children flds cs s2' = (s3', e3')" by (cases "children flds cs s2'") auto
  from children_pure [OF assms, of cs s2 s2'] c3 c3p have e3: "e3 = e3'" by simp
  show ?thesis
    unfolding Element unmarshal_struct_def
    using a2 a2p e2 c3 c3p e3
    by (auto simp: s1_def s1'_def split: option.splits ending.splits)
qed

lemma unmarshal_struct_on_children:
  assumes pure: "list_all pure_field flds"
    and keeps: "keeps T"
    and fld: "\<And>f d s. ElemField name f \<in> set flds \<Longrightarrow> Skip d = None \<Longrightarrow> is_element name d
      \<Longrightarrow> snd (f (T d) s) = snd (f d s)"
    and c: "Skip c = None"
  shows "snd (unmarshal_struct xmlname flds (on_children name T c) s) =
         snd (unmarshal_struct xmlname flds c s)"
proof (cases c)
  case (Leaf t)
  then show ?thesis by (simp add: on_children_def)
next
  case (Element n as cs en)
  with c have cs: "Skip_list cs = None"
    by (simp add: Skip_Element_None del: Skip.simps)
  define s1 where "s1 = (case xmlname of None \<Rightarrow> s | Some (name, setName) \<Rightarrow> setName n s)"
  obtain s2 e2 where a2: "assign_attrs flds as s1 = (s2, e2)" by (cases "assign_attrs flds as s1") auto
  let ?g = "\<lambda>d. if is_element name d then T d else d"
  obtain s3 e3 where c3: "children flds cs s2 = (s3, e3)" by (cases "children flds cs s2") auto
  obtain s3' e3' where c3p: "children flds (map ?g cs) s2 = (s3', e3')"
    by (cases "children flds (map ?g cs) s2") auto
  have "snd (children flds (map ?g cs) s2) = snd (children flds cs s2)"
    by (rule children_on_children [OF pure keeps _ cs]) (rule fld, assumption+)
  with c3 c3p have e3: "e3' = e3" by simp
  show ?thesis
    unfolding Element on_children_def unmarshal_struct_def
    using a2 c3 c3p e3
    by (auto simp: s1_def split: option.splits ending.splits)
qed

lemma on_children_Skip:
  assumes "keeps T" and "Skip c = None"
  shows "Skip (on_children name T c) = None"
proof (cases c)
  case (Leaf t)
  then show ?thesis by (simp add: on_children_def)
next
  case (Element n as cs en)
  with keeps_on_children [OF assms(1), of name] assms(2)
  obtain as' cs' where "on_children name T c = Element n as' cs' Closed" "Skip_list cs' = None"
    unfolding keeps_def by blast
  then show ?thesis by simp
qed

lemma unmarshal_basic_pure:
  "snd (unmarshal_basic copy c v) = snd (unmarshal_basic copy c v')"
  by (simp add: unmarshal_basic_def split: node.splits sum.splits ending.splits)

lemma pure_attr: "pure_field (attr name upd copy)"
  by (simp add: pure_field_def attr_def split: sum.splits)

lemma pure_elem:
  assumes "\<And>c v v'. snd (dec c v) = snd (dec c v')"
  shows "pure_field (elem name get upd dec)"
proof -
  have "snd (case dec c (get s) of (x, e) \<Rightarrow> (upd (\<lambda>_. x) s, e)) = snd (dec c (get s))" for c s
    by (simp split: prod.splits)
  with assms show ?thesis
    by (simp add: pure_field_def elem_def)
qed

lemma pure_slice_elem: "pure_field (slice_elem name upd zero dec)"
  by (simp add: pure_field_def slice_elem_def split: prod.splits option.splits)

lemma unmarshal_string_pure: "snd (unmarshal_string c v) = snd (unmarshal_string c v')"
  unfolding unmarshal_string_def by (rule unmarshal_basic_pure)

lemma unmarshal_int_pure: "snd (unmarshal_int c v) = snd (unmarshal_int c v')"
  unfolding unmarshal_int_def by (rule unmarshal_basic_pure)

lemma unmarshal_float64_pure: "snd (unmarshal_float64 c v) = snd (unmarshal_float64 c v')"
  unfolding unmarshal_float64_def by (rule unmarshal_basic_pure)

lemmas basic_pure = unmarshal_string_pure unmarshal_int_pure unmarshal_float64_pure

lemma unmarshal_Email_pure: "snd (unmarshal_Email c s) = snd (unmarshal_Email c s')"
  unfolding unmarshal_Email_def
  by (rule unmarshal_struct_pure) (simp add: Email_fields_def pure_attr)

lemma unmarshal_Link_pure: "snd (unmarshal_Link c s) = snd (unmarshal_Link c s')"
  unfolding unmarshal_Link_def
  by (rule unmarshal_struct_pure)
    (simp add: Link_fields_def pure_attr pure_elem [OF unmarshal_string_pure])

lemma unmarshal_Person_pure: "snd (unmarshal_Person c s) = snd (unmarshal_Person c s')"
  unfolding unmarshal_Person_def
  by (rule unmarshal_struct_pure)
    (simp add: Person_fields_def pure_elem [OF unmarshal_string_pure]
      pure_elem [OF unmarshal_Email_pure] pure_elem [OF unmarshal_Link_pure])

lemma unmarshal_Copyright_pure: "snd (unmarshal_Copyright c s) = snd (unmarshal_Copyright c s')"
  unfolding unmarshal_Copyright_def
  by (rule unmarshal_struct_pure)
    (simp add: Copyright_fields_def pure_attr pure_elem [OF unmarshal_string_pure])

lemma unmarshal_Bounds_pure: "snd (unmarshal_Bounds c s) = snd (unmarshal_Bounds c s')"
  unfolding unmarshal_Bounds_def
  by (rule unmarshal_struct_pure) (simp add: Bounds_fields_def pure_attr)

lemma unmarshal_TrackPointExtension_pure:
  "snd (unmarshal_TrackPointExtension c s) = snd (unmarshal_TrackPointExtension c s')"
  unfolding unmarshal_TrackPointExtension_def
  by (rule unmarshal_struct_pure)
    (simp add: TrackPointExtension_fields_def pure_elem [OF unmarshal_int_pure])

lemma unmarshal_Extension_pure: "snd (unmarshal_Extension c s) = snd (unmarshal_Extension c s')"
  unfolding unmarshal_Extension_def
  by (rule unmarshal_struct_pure)
    (simp add: Extension_fields_def pure_elem [OF unmarshal_TrackPointExtension_pure])

lemma unmarshal_Metadata_pure: "snd (unmarshal_Metadata c s) = snd (unmarshal_Metadata c s')"
  unfolding unmarshal_Metadata_def
  by (rule unmarshal_struct_pure)
    (simp add: Metadata_fields_def pure_slice_elem pure_elem [OF unmarshal_string_pure]
      pure_elem [OF unmarshal_Person_pure] pure_elem [OF unmarshal_Copyright_pure]
      pure_elem [OF unmarshal_Bounds_pure] pure_elem [OF unmarshal_Extension_pure])

lemma WayPoint_fields_pure: "list_all pure_field WayPoint_fields"
  by (simp add: WayPoint_fields_def pure_attr pure_slice_elem pure_elem [OF unmarshal_string_pure]
      pure_elem [OF unmarshal_int_pure] pure_elem [OF unmarshal_float64_pure]
      pure_elem [OF unmarshal_Extension_pure])

lemma Route_fields_pure: "list_all pure_field Route_fields"
  by (simp add: Route_fields_def pure_slice_elem pure_elem [OF unmarshal_string_pure]
      pure_elem [OF unmarshal_int_pure] pure_elem [OF unmarshal_Extension_pure])

lemma TrackSegment_fields_pure: "list_all pure_field TrackSegment_fields"
  by (simp add: TrackSegment_fields_def pure_slice_elem pure_elem [OF unmarshal_Extension_pure])

lemma Track_fields_pure: "list_all pure_field Track_fields"
  by (simp add: Track_fields_def pure_slice_elem pure_elem [OF unmarshal_string_pure]
      pure_elem [OF unmarshal_int_pure] pure_elem [OF unmarshal_Extension_pure])

lemma unmarshal_Track_pure: "snd (unmarshal_Track c s) = snd (unmarshal_Track c s')"
  unfolding unmarshal_Track_def
  by (rule unmarshal_struct_pure) (rule Track_fields_pure)

lemma GPX_fields_pure: "list_all pure_field GPX_fields"
  by (simp add: GPX_fields_def pure_attr pure_slice_elem pure_elem [OF unmarshal_Metadata_pure]
      pure_elem [OF unmarshal_Track_pure])

lemma unmarshal_WayPoint_without_fix_node:
  assumes "Skip c = None"
  shows "snd (unmarshal_WayPoint (without_fix c) w) = snd (unmarshal_WayPoint c w)"
proof (cases c)
  case (Leaf t)
  then show ?thesis by (simp add: without_fix_def)
next
  case (Element n as cs en)
  with assms have "list_all (\<lambda>c. is_element ''fix'' c \<longrightarrow> Skip c = None) cs"
    by (simp add: Skip_Element_None Skip_list_None list_all_iff del: Skip.simps)
  from unmarshal_WayPoint_without_fix [OF this, of n as en w] Element show ?thesis
    by (simp add: without_fix_def)
qed

lemma unmarshal_TrackSegment_without_fix:
  assumes "Skip c = None"
  shows "snd (unmarshal_TrackSegment (on_children ''trkpt'' without_fix c) s) =
         snd (unmarshal_TrackSegment c s)"
  unfolding unmarshal_TrackSegment_def
proof (rule unmarshal_struct_on_children [OF TrackSegment_fields_pure keeps_without_fix _ assms])
  fix f d s
  assume "ElemField ''trkpt'' f \<in> set TrackSegment_fields" and "Skip d = None"
  then show "snd (f (without_fix d) s) = snd (f d s)"
    using unmarshal_WayPoint_without_fix_node [of d WayPoint_zero]
    by (auto simp: TrackSegment_fields_def elem_def slice_elem_def split: prod.splits option.splits)
qed

lemma unmarshal_Track_without_fix:
  assumes "Skip c = None"
  shows "snd (unmarshal_Track (on_children ''trkseg'' (on_children ''trkpt'' without_fix) c) s) =
         snd (unmarshal_Track c s)"
  unfolding unmarshal_Track_def
proof (rule unmarshal_struct_on_children
    [OF Track_fields_pure keeps_on_children [OF keeps_without_fix] _ assms])
  fix f d s
  assume "ElemField ''trkseg'' f \<in> set Track_fields" and "Skip d = None"
  then show "snd (f (on_children ''trkpt'' without_fix d) s) = snd (f d s)"
    using unmarshal_TrackSegment_without_fix [of d TrackSegment_zero]
    by (auto simp: Track_fields_def elem_def slice_elem_def split: prod.splits option.splits)
qed

lemma unmarshal_Route_without_fix:
  assumes "Skip c = None"
  shows "snd (unmarshal_Route (on_children ''rtept'' without_fix c) s) = snd (unmarshal_Route c s)"
  unfolding unmarshal_Route_def
proof (rule unmarshal_struct_on_children [OF Route_fields_pure keeps_without_fix _ assms])
  fix f d s
  assume "ElemField ''rtept'' f \<in> set Route_fields" and "Skip d = None"
  then show "snd (f (without_fix d) s) = snd (f d s)"
    using unmarshal_WayPoint_without_fix_node [of d WayPoint_zero]
    by (auto simp: Route_fields_def elem_def slice_elem_def split: prod.splits option.splits)
qed

lemma unmarshal_GPX_without_fix:
  assumes "Skip c = None"
  shows "snd (unmarshal_GPX (document_without_fix c) g) = snd (unmarshal_GPX c g)"
proof -
  let ?c2 = "on_children ''trk'' (on_children ''trkseg'' (on_children ''trkpt'' without_fix)) c"
  let ?c1 = "on_children ''rte'' (on_children ''rtept'' without_fix) ?c2"
  have k2: "keeps (on_children ''trkseg'' (on_children ''trkpt'' without_fix))"
    by (intro keeps_on_children keeps_without_fix)
  have k1: "keeps (on_children ''rtept'' without_fix)"
    by (intro keeps_on_children keeps_without_fix)
  have s2: "Skip ?c2 = None" by (rule on_children_Skip [OF k2 assms])
  have s1: "Skip ?c1 = None" by (rule on_children_Skip [OF k1 s2])
  have "snd (unmarshal_GPX (on_children ''wpt'' without_fix ?c1) g) = snd (unmarshal_GPX ?c1 g)"
    unfolding unmarshal_GPX_def
  proof (rule unmarshal_struct_on_children [OF GPX_fields_pure keeps_without_fix _ s1])
    fix f d s
    assume "ElemField ''wpt'' f \<in> set GPX_fields" and "Skip d = None"
    then show "snd (f (without_fix d) s) = snd (f d s)"
      using unmarshal_WayPoint_without_fix_node [of d WayPoint_zero]
      by (auto simp: GPX_fields_def attr_def elem_def slice_elem_def split: prod.splits option.splits)
  qed
  also have "\<dots> = snd (unmarshal_GPX ?c2 g)"
    unfolding unmarshal_GPX_def
  proof (rule unmarshal_struct_on_children [OF GPX_fields_pure k1 _ s2])
    fix f d s
    assume "ElemField ''rte'' f \<in> set GPX_fields" and "Skip d = None"
    then show "snd (f (on_children ''rtept'' without_fix d) s) = snd (f d s)"
      using unmarshal_Route_without_fix [of d Route_zero]
      by (auto simp: GPX_fields_def attr_def elem_def slice_elem_def split: prod.splits option.splits)
  qed
  also have "\<dots> = snd (unmarshal_GPX c g)"
    unfolding unmarshal_GPX_def
  proof (rule unmarshal_struct_on_children [OF GPX_fields_pure k2 _ assms])
    fix f d s
    assume "ElemField ''trk'' f \<in> set GPX_fields" and "Skip d = None"
    then show "snd (f (on_children ''trkseg'' (on_children ''trkpt'' without_fix) d) s) = snd (f d s)"
      using unmarshal_Track_without_fix [of d "GPX.Tracks s"]
      by (auto simp: GPX_fields_def attr_def elem_def slice_elem_def split: prod.splits option.splits)
  qed
  finally show ?thesis
    by (simp add: document_without_fix_def)
qed

lemma parse_fix:
  \<open>parse_document
     ''<gpx version="1.1" creator="test"> <wpt lat="1.0" lon="2.0"> <name>A</name> <fix>bogus</fix> </wpt> <rte><rtept lat="3" lon="4"><fix>3d</fix></rtept></rte> <trk><trkseg><trkpt lat="5" lon="6"><fix>bogus</fix></trkpt></trkseg></trk> </gpx>'' =
   Inr (Element \<lparr>Space = [], Local = ''gpx''\<rparr>
         [\<lparr>Attr.Name = \<lparr>Space = [], Local = ''version''\<rparr>, Value = ''1.1''\<rparr>, \<lparr>Attr.Name = \<lparr>Space = [], Local = ''creator''\<rparr>, Value = ''test''\<rparr>]
         [Leaf (CharData '' ''),
          Element \<lparr>Space = [], Local = ''wpt''\<rparr> [\<lparr>Attr.Name = \<lparr>Space = [], Local = ''lat''\<rparr>, Value = ''1.0''\<rparr>, \<lparr>Attr.Name = \<lparr>Space = [], Local = ''lon''\<rparr>, Value = ''2.0''\<rparr>]
            [Leaf (CharData '' ''),
             Element \<lparr>Space = [], Local = ''name''\<rparr> [] [Leaf (CharData ''A'')] Closed,
             Leaf (CharData '' ''),
             Element \<lparr>Space = [], Local = ''fix''\<rparr> [] [Leaf (CharData ''bogus'')] Closed,
             Leaf (CharData '' '')] Closed,
          Leaf (CharData '' ''),
          Element \<lparr>Space = [], Local = ''rte''\<rparr> []
            [Element \<lparr>Space = [], Local = ''rtept''\<rparr> [\<lparr>Attr.Name = \<lparr>Space = [], Local = ''lat''\<rparr>, Value = ''3''\<rparr>, \<lparr>Attr.Name = \<lparr>Space = [], Local = ''lon''\<rparr>, Value = ''4''\<rparr>]
                [Element \<lparr>Space = [], Local = ''fix''\<rparr> [] [Leaf (CharData ''3d'')] Closed] Closed] Closed,
          Leaf (CharData '' ''),
          Element \<lparr>Space = [], Local = ''trk''\<rparr> []
            [Element \<lparr>Space = [], Local = ''trkseg''\<rparr> []
                [Element \<lparr>Space = [], Local = ''trkpt''\<rparr> [\<lparr>Attr.Name = \<lparr>Space = [], Local = ''lat''\<rparr>, Value = ''5''\<rparr>, \<lparr>Attr.Name = \<lparr>Space = [], Local = ''lon''\<rparr>, Value = ''6''\<rparr>]
                    [Element \<lparr>Space = [], Local = ''fix''\<rparr> [] [Leaf (CharData ''bogus'')] Closed] Closed] Closed] Closed,
          Leaf (CharData '' '')]
         Closed)\<close>
  by (simp add: lex_eval)

text \<open>
  C8. \<^verbatim>\<open>Fix\<close> is a string: \<^verbatim>\<open>unmarshal\<close> stores the character data of a \<^verbatim>\<open>fix\<close> element as it
  is, and nothing compares it with the five named values.

  For every waypoint element (the tables bind \<^verbatim>\<open>wpt\<close>, \<^verbatim>\<open>rtept\<close> and \<^verbatim>\<open>trkpt\<close> to the same
  \<^verbatim>\<open>unmarshal_WayPoint\<close>), with any attributes and any children, read into any record:

  \<^item> the \<^verbatim>\<open>fix\<close> children, whatever their text, make no difference to the error: the
    element decodes with the error, or without error, that it decodes with when its
    \<^verbatim>\<open>fix\<close> children are left out (provided the input does not end inside one of
    them);

  \<^item> when the element decodes without error, \<^verbatim>\<open>Fix\<close> is the character data of its last
    \<^verbatim>\<open>fix\<close> child, and what it was before when there is none.

  For every document:

  \<^item> when the input is well-formed up to the end tag of the root element (its tokens
    do not stop at an error), \<^verbatim>\<open>Parse\<close> returns the error, or no error, that decoding the
    document without the \<^verbatim>\<open>fix\<close> children of its waypoints, route points and track
    points returns: no text of a \<^verbatim>\<open>fix\<close> element makes \<^verbatim>\<open>Parse\<close> fail;

  \<^item> when \<^verbatim>\<open>Parse\<close> returns no error, the \<^verbatim>\<open>Fix\<close> of every waypoint, of every point of
    every route and of every point of every track segment is the character data of
    the last \<^verbatim>\<open>fix\<close> child of its element.
\<close>

theorem Parse_fix_is_literal_text:
  "(list_all (\<lambda>c. is_element ''fix'' c \<longrightarrow> Skip c = None) cs \<longrightarrow>
      snd (unmarshal_WayPoint (Element n as cs en) w) =
      snd (unmarshal_WayPoint (Element n as (filter (\<lambda>c. \<not> is_element ''fix'' c) cs) en) w)) \<and>
   (snd (unmarshal_WayPoint (Element n as cs en) w) = None \<longrightarrow>
      WayPoint.Fix (fst (unmarshal_WayPoint (Element n as cs en) w)) =
        (if elements ''fix'' cs = [] then WayPoint.Fix w
         else character_data (content (last (elements ''fix'' cs))))) \<and>
   (parse_document b = Inr el \<and> Skip el = None \<longrightarrow>
      snd (Parse b g) = snd (unmarshal_GPX (document_without_fix el) g)) \<and>
   (parse_document b = Inr (Element rn ras rcs ren) \<and> snd (Parse b GPX_zero) = None \<longrightarrow>
      map WayPoint.Fix (GPX.Waypoints (fst (Parse b GPX_zero))) =
        map fix_text (elements ''wpt'' rcs) \<and>
      map (\<lambda>rt. map WayPoint.Fix (Route.RoutePoints rt)) (GPX.Routes (fst (Parse b GPX_zero))) =
        map (\<lambda>c. map fix_text (elements ''rtept'' (content c))) (elements ''rte'' rcs) \<and>
      map (\<lambda>sg. map WayPoint.Fix (TrackSegment.TrackPoint sg))
          (Track.TrackSegments (GPX.Tracks (fst (Parse b GPX_zero)))) =
        map (\<lambda>c. map fix_text (elements ''trkpt'' (content c))) (grandchildren ''trk'' ''trkseg'' rcs))"
proof (intro conjI impI)
  assume "list_all (\<lambda>c. is_element ''fix'' c \<longrightarrow> Skip c = None) cs"
  then show "snd (unmarshal_WayPoint (Element n as cs en) w) =
      snd (unmarshal_WayPoint (Element n as (filter (\<lambda>c. \<not> is_element ''fix'' c) cs) en) w)"
    by (rule unmarshal_WayPoint_without_fix)
next
  assume "snd (unmarshal_WayPoint (Element n as cs en) w) = None"
  then have "unmarshal_WayPoint (Element n as cs en) w =
      (fst (unmarshal_WayPoint (Element n as cs en) w), None)"
    by (metis prod.collapse)
  then show "WayPoint.Fix (fst (unmarshal_WayPoint (Element n as cs en) w)) =
      (if elements ''fix'' cs = [] then WayPoint.Fix w
       else character_data (content (last (elements ''fix'' cs))))"
    by (rule unmarshal_WayPoint_Fix)
next
  assume "parse_document b = Inr el \<and> Skip el = None"
  then have "Parse b g = unmarshal_GPX el g" and "Skip el = None"
    by (simp_all add: Parse_document)
  then show "snd (Parse b g) = snd (unmarshal_GPX (document_without_fix el) g)"
    by (simp add: unmarshal_GPX_without_fix)
next
  assume a: "parse_document b = Inr (Element rn ras rcs ren) \<and> snd (Parse b GPX_zero) = None"
  then have u: "unmarshal_GPX (Element rn ras rcs ren) GPX_zero = (fst (Parse b GPX_zero), None)"
    by (metis Parse_document prod.collapse)
  show "map WayPoint.Fix (GPX.Waypoints (fst (Parse b GPX_zero))) = map fix_text (elements ''wpt'' rcs)"
    using u by (rule unmarshal_GPX_Fix)
  show "map (\<lambda>rt. map WayPoint.Fix (Route.RoutePoints rt)) (GPX.Routes (fst (Parse b GPX_zero))) =
      map (\<lambda>c. map fix_text (elements ''rtept'' (content c))) (elements ''rte'' rcs)"
    using u by (rule unmarshal_GPX_Fix)
  show "map (\<lambda>sg. map WayPoint.Fix (TrackSegment.TrackPoint sg))
        (Track.TrackSegments (GPX.Tracks (fst (Parse b GPX_zero)))) =
      map (\<lambda>c. map fix_text (elements ''trkpt'' (content c))) (grandchildren ''trk'' ''trkseg'' rcs)"
    using u by (rule unmarshal_GPX_Fix)
qed

theorem Parse_fix_is_literal_text_witness:
  \<open>snd (Parse
     ''<gpx version="1.1" creator="test"> <wpt lat="1.0" lon="2.0"> <name>A</name> <fix>bogus</fix> </wpt> <rte><rtept lat="3" lon="4"><fix>3d</fix></rtept></rte> <trk><trkseg><trkpt lat="5" lon="6"><fix>bogus</fix></trkpt></trkseg></trk> </gpx>''
     GPX_zero) = None \<and>
   map WayPoint.Fix (GPX.Waypoints (fst (Parse
     ''<gpx version="1.1" creator="test"> <wpt lat="1.0" lon="2.0"> <name>A</name> <fix>bogus</fix> </wpt> <rte><rtept lat="3" lon="4"><fix>3d</fix></rtept></rte> <trk><trkseg><trkpt lat="5" lon="6"><fix>bogus</fix></trkpt></trkseg></trk> </gpx>''
     GPX_zero))) = [''bogus''] \<and>
   map (\<lambda>rt. map WayPoint.Fix (Route.RoutePoints rt)) (GPX.Routes (fst (Parse
     ''<gpx version="1.1" creator="test"> <wpt lat="1.0" lon="2.0"> <name>A</name> <fix>bogus</fix> </wpt> <rte><rtept lat="3" lon="4"><fix>3d</fix></rtept></rte> <trk><trkseg><trkpt lat="5" lon="6"><fix>bogus</fix></trkpt></trkseg></trk> </gpx>''
     GPX_zero))) = [[''3d'']] \<and>
   map (\<lambda>sg. map WayPoint.Fix (TrackSegment.TrackPoint sg)) (Track.TrackSegments (GPX.Tracks (fst (Parse
     ''<gpx version="1.1" creator="test"> <wpt lat="1.0" lon="2.0"> <name>A</name> <fix>bogus</fix> </wpt> <rte><rtept lat="3" lon="4"><fix>3d</fix></rtept></rte> <trk><trkseg><trkpt lat="5" lon="6"><fix>bogus</fix></trkpt></trkseg></trk> </gpx>''
     GPX_zero)))) = [[''bogus'']] \<and>
   snd (unmarshal_WayPoint
     (Element \<lparr>Space = [], Local = ''wpt''\<rparr> [\<lparr>Attr.Name = \<lparr>Space = [], Local = ''lat''\<rparr>, Value = ''1.0''\<rparr>, \<lparr>Attr.Name = \<lparr>Space = [], Local = ''lon''\<rparr>, Value = ''2.0''\<rparr>]
            [Leaf (CharData '' ''),
             Element \<lparr>Space = [], Local = ''name''\<rparr> [] [Leaf (CharData ''A'')] Closed,
             Leaf (CharData '' ''),
             Element \<lparr>Space = [], Local = ''fix''\<rparr> [] [Leaf (CharData ''bogus'')] Closed,
             Leaf (CharData '' '')] Closed)
     WayPoint_zero) = None \<and>
   WayPoint.Fix (fst (unmarshal_WayPoint
     (Element \<lparr>Space = [], Local = ''wpt''\<rparr> [\<lparr>Attr.Name = \<lparr>Space = [], Local = ''lat''\<rparr>, Value = ''1.0''\<rparr>, \<lparr>Attr.Name = \<lparr>Space = [], Local = ''lon''\<rparr>, Value = ''2.0''\<rparr>]
            [Leaf (CharData '' ''),
             Element \<lparr>Space = [], Local = ''name''\<rparr> [] [Leaf (CharData ''A'')] Closed,
             Leaf (CharData '' ''),
             Element \<lparr>Space = [], Local = ''fix''\<rparr> [] [Leaf (CharData ''bogus'')] Closed,
             Leaf (CharData '' '')] Closed)
     WayPoint_zero)) = ''bogus'' \<and>
   ''bogus'' \<notin> {None_Fix, TwoDimensional, ThreeDimensional, DGPS, PPS}\<close>
proof -
  note t = Parse_fix_is_literal_text
    [where b = \<open>''<gpx version="1.1" creator="test"> <wpt lat="1.0" lon="2.0"> <name>A</name> <fix>bogus</fix> </wpt> <rte><rtept lat="3" lon="4"><fix>3d</fix></rtept></rte> <trk><trkseg><trkpt lat="5" lon="6"><fix>bogus</fix></trkpt></trkseg></trk> </gpx>''\<close>
       and el = \<open>Element \<lparr>Space = [], Local = ''gpx''\<rparr>
         [\<lparr>Attr.Name = \<lparr>Space = [], Local = ''version''\<rparr>, Value = ''1.1''\<rparr>, \<lparr>Attr.Name = \<lparr>Space = [], Local = ''creator''\<rparr>, Value = ''test''\<rparr>]
         [Leaf (CharData '' ''),
          Element \<lparr>Space = [], Local = ''wpt''\<rparr> [\<lparr>Attr.Name = \<lparr>Space = [], Local = ''lat''\<rparr>, Value = ''1.0''\<rparr>, \<lparr>Attr.Name = \<lparr>Space = [], Local = ''lon''\<rparr>, Value = ''2.0''\<rparr>]
            [Leaf (CharData '' ''),
             Element \<lparr>Space = [], Local = ''name''\<rparr> [] [Leaf (CharData ''A'')] Closed,
             Leaf (CharData '' ''),
             Element \<lparr>Space = [], Local = ''fix''\<rparr> [] [Leaf (CharData ''bogus'')] Closed,
             Leaf (CharData '' '')] Closed,
          Leaf (CharData '' ''),
          Element \<lparr>Space = [], Local = ''rte''\<rparr> []
            [Element \<lparr>Space = [], Local = ''rtept''\<rparr> [\<lparr>Attr.Name = \<lparr>Space = [], Local = ''lat''\<rparr>, Value = ''3''\<rparr>, \<lparr>Attr.Name = \<lparr>Space = [], Local = ''lon''\<rparr>, Value = ''4''\<rparr>]
                [Element \<lparr>Space = [], Local = ''fix''\<rparr> [] [Leaf (CharData ''3d'')] Closed] Closed] Closed,
          Leaf (CharData '' ''),
          Element \<lparr>Space = [], Local = ''trk''\<rparr> []
            [Element \<lparr>Space = [], Local = ''trkseg''\<rparr> []
                [Element \<lparr>Space = [], Local = ''trkpt''\<rparr> [\<lparr>Attr.Name = \<lparr>Space = [], Local = ''lat''\<rparr>, Value = ''5''\<rparr>, \<lparr>Attr.Name = \<lparr>Space = [], Local = ''lon''\<rparr>, Value = ''6''\<rparr>]
                    [Element \<lparr>Space = [], Local = ''fix''\<rparr> [] [Leaf (CharData ''bogus'')] Closed] Closed] Closed] Closed,
          Leaf (CharData '' '')]
         Closed\<close>
       and g = GPX_zero
       and rn = \<open>\<lparr>Space = [], Local = ''gpx''\<rparr>\<close>
       and ras = \<open>[\<lparr>Attr.Name = \<lparr>Space = [], Local = ''version''\<rparr>, Value = ''1.1''\<rparr>, \<lparr>Attr.Name = \<lparr>Space = [], Local = ''creator''\<rparr>, Value = ''test''\<rparr>]\<close>
       and rcs = \<open>[Leaf (CharData '' ''),
          Element \<lparr>Space = [], Local = ''wpt''\<rparr> [\<lparr>Attr.Name = \<lparr>Space = [], Local = ''lat''\<rparr>, Value = ''1.0''\<rparr>, \<lparr>Attr.Name = \<lparr>Space = [], Local = ''lon''\<rparr>, Value = ''2.0''\<rparr>]
            [Leaf (CharData '' ''),
             Element \<lparr>Space = [], Local = ''name''\<rparr> [] [Leaf (CharData ''A'')] Closed,
             Leaf (CharData '' ''),
             Element \<lparr>Space = [], Local = ''fix''\<rparr> [] [Leaf (CharData ''bogus'')] Closed,
             Leaf (CharData '' '')] Closed,
          Leaf (CharData '' ''),
          Element \<lparr>Space = [], Local = ''rte''\<rparr> []
            [Element \<lparr>Space = [], Local = ''rtept''\<rparr> [\<lparr>Attr.Name = \<lparr>Space = [], Local = ''lat''\<rparr>, Value = ''3''\<rparr>, \<lparr>Attr.Name = \<lparr>Space = [], Local = ''lon''\<rparr>, Value = ''4''\<rparr>]
                [Element \<lparr>Space = [], Local = ''fix''\<rparr> [] [Leaf (CharData ''3d'')] Closed] Closed] Closed,
          Leaf (CharData '' ''),
          Element \<lparr>Space = [], Local = ''trk''\<rparr> []
            [Element \<lparr>Space = [], Local = ''trkseg''\<rparr> []
                [Element \<lparr>Space = [], Local = ''trkpt''\<rparr> [\<lparr>Attr.Name = \<lparr>Space = [], Local = ''lat''\<rparr>, Value = ''5''\<rparr>, \<lparr>Attr.Name = \<lparr>Space = [], Local = ''lon''\<rparr>, Value = ''6''\<rparr>]
                    [Element \<lparr>Space = [], Local = ''fix''\<rparr> [] [Leaf (CharData ''bogus'')] Closed] Closed] Closed] Closed,
          Leaf (CharData '' '')]\<close>
       and ren = Closed
       and n = \<open>\<lparr>Space = [], Local = ''wpt''\<rparr>\<close>
       and as = \<open>[\<lparr>Attr.Name = \<lparr>Space = [], Local = ''lat''\<rparr>, Value = ''1.0''\<rparr>, \<lparr>Attr.Name = \<lparr>Space = [], Local = ''lon''\<rparr>, Value = ''2.0''\<rparr>]\<close>
       and cs = \<open>[Leaf (CharData '' ''),
             Element \<lparr>Space = [], Local = ''name''\<rparr> [] [Leaf (CharData ''A'')] Closed,
             Leaf (CharData '' ''),
             Element \<lparr>Space = [], Local = ''fix''\<rparr> [] [Leaf (CharData ''bogus'')] Closed,
             Leaf (CharData '' '')]\<close>
       and en = Closed
       and w = WayPoint_zero]
  have \<open>snd (Parse
     ''<gpx version="1.1" creator="test"> <wpt lat="1.0" lon="2.0"> <name>A</name> <fix>bogus</fix> </wpt> <rte><rtept lat="3" lon="4"><fix>3d</fix></rtept></rte> <trk><trkseg><trkpt lat="5" lon="6"><fix>bogus</fix></trkpt></trkseg></trk> </gpx>''
     GPX_zero) =
     snd (unmarshal_GPX (document_without_fix (Element \<lparr>Space = [], Local = ''gpx''\<rparr>
         [\<lparr>Attr.Name = \<lparr>Space = [], Local = ''version''\<rparr>, Value = ''1.1''\<rparr>, \<lparr>Attr.Name = \<lparr>Space = [], Local = ''creator''\<rparr>, Value = ''test''\<rparr>]
         [Leaf (CharData '' ''),
          Element \<lparr>Space = [], Local = ''wpt''\<rparr> [\<lparr>Attr.Name = \<lparr>Space = [], Local = ''lat''\<rparr>, Value = ''1.0''\<rparr>, \<lparr>Attr.Name = \<lparr>Space = [], Local = ''lon''\<rparr>, Value = ''2.0''\<rparr>]
            [Leaf (CharData '' ''),
             Element \<lparr>Space = [], Local = ''name''\<rparr> [] [Leaf (CharData ''A'')] Closed,
             Leaf (CharData '' ''),
             Element \<lparr>Space = [], Local = ''fix''\<rparr> [] [Leaf (CharData ''bogus'')] Closed,
             Leaf (CharData '' '')] Closed,
          Leaf (CharData '' ''),
          Element \<lparr>Space = [], Local = ''rte''\<rparr> []
            [Element \<lparr>Space = [], Local = ''rtept''\<rparr> [\<lparr>Attr.Name = \<lparr>Space = [], Local = ''lat''\<rparr>, Value = ''3''\<rparr>, \<lparr>Attr.Name = \<lparr>Space = [], Local = ''lon''\<rparr>, Value = ''4''\<rparr>]
                [Element \<lparr>Space = [], Local = ''fix''\<rparr> [] [Leaf (CharData ''3d'')] Closed] Closed] Closed,
          Leaf (CharData '' ''),
          Element \<lparr>Space = [], Local = ''trk''\<rparr> []
            [Element \<lparr>Space = [], Local = ''trkseg''\<rparr> []
                [Element \<lparr>Space = [], Local = ''trkpt''\<rparr> [\<lparr>Attr.Name = \<lparr>Space = [], Local = ''lat''\<rparr>, Value = ''5''\<rparr>, \<lparr>Attr.Name = \<lparr>Space = [], Local = ''lon''\<rparr>, Value = ''6''\<rparr>]
                    [Element \<lparr>Space = [], Local = ''fix''\<rparr> [] [Leaf (CharData ''bogus'')] Closed] Closed] Closed] Closed,
          Leaf (CharData '' '')]
         Closed)) GPX_zero)\<close>
    by (rule t [THEN conjunct2, THEN conjunct2, THEN conjunct1, THEN mp]) (simp add: parse_fix)
  also have \<open>\<dots> = None\<close>
    by (simp add: document_without_fix_def on_children_def without_fix_def is_element_def
        unmarshal_eval num_eval zero_eval)
  finally have 0: \<open>snd (Parse
     ''<gpx version="1.1" creator="test"> <wpt lat="1.0" lon="2.0"> <name>A</name> <fix>bogus</fix> </wpt> <rte><rtept lat="3" lon="4"><fix>3d</fix></rtept></rte> <trk><trkseg><trkpt lat="5" lon="6"><fix>bogus</fix></trkpt></trkseg></trk> </gpx>''
     GPX_zero) = None\<close> .
  from t [THEN conjunct2, THEN conjunct2, THEN conjunct2, THEN mp, OF conjI [OF parse_fix 0]]
  have 3: \<open>map WayPoint.Fix (GPX.Waypoints (fst (Parse
     ''<gpx version="1.1" creator="test"> <wpt lat="1.0" lon="2.0"> <name>A</name> <fix>bogus</fix> </wpt> <rte><rtept lat="3" lon="4"><fix>3d</fix></rtept></rte> <trk><trkseg><trkpt lat="5" lon="6"><fix>bogus</fix></trkpt></trkseg></trk> </gpx>''
     GPX_zero))) = [''bogus''] \<and>
   map (\<lambda>rt. map WayPoint.Fix (Route.RoutePoints rt)) (GPX.Routes (fst (Parse
     ''<gpx version="1.1" creator="test"> <wpt lat="1.0" lon="2.0"> <name>A</name> <fix>bogus</fix> </wpt> <rte><rtept lat="3" lon="4"><fix>3d</fix></rtept></rte> <trk><trkseg><trkpt lat="5" lon="6"><fix>bogus</fix></trkpt></trkseg></trk> </gpx>''
     GPX_zero))) = [[''3d'']] \<and>
   map (\<lambda>sg. map WayPoint.Fix (TrackSegment.TrackPoint sg)) (Track.TrackSegments (GPX.Tracks (fst (Parse
     ''<gpx version="1.1" creator="test"> <wpt lat="1.0" lon="2.0"> <name>A</name> <fix>bogus</fix> </wpt> <rte><rtept lat="3" lon="4"><fix>3d</fix></rtept></rte> <trk><trkseg><trkpt lat="5" lon="6"><fix>bogus</fix></trkpt></trkseg></trk> </gpx>''
     GPX_zero)))) = [[''bogus'']]\<close>
    by (simp add: elements_def is_element_def fix_text_def grandchildren_simps)
  have \<open>snd (unmarshal_WayPoint
     (Element \<lparr>Space = [], Local = ''wpt''\<rparr> [\<lparr>Attr.Name = \<lparr>Space = [], Local = ''lat''\<rparr>, Value = ''1.0''\<rparr>, \<lparr>Attr.Name = \<lparr>Space = [], Local = ''lon''\<rparr>, Value = ''2.0''\<rparr>]
            [Leaf (CharData '' ''),
             Element \<lparr>Space = [], Local = ''name''\<rparr> [] [Leaf (CharData ''A'')] Closed,
             Leaf (CharData '' ''),
             Element \<lparr>Space = [], Local = ''fix''\<rparr> [] [Leaf (CharData ''bogus'')] Closed,
             Leaf (CharData '' '')] Closed)
     WayPoint_zero) =
     snd (unmarshal_WayPoint
       (Element \<lparr>Space = [], Local = ''wpt''\<rparr> [\<lparr>Attr.Name = \<lparr>Space = [], Local = ''lat''\<rparr>, Value = ''1.0''\<rparr>, \<lparr>Attr.Name = \<lparr>Space = [], Local = ''lon''\<rparr>, Value = ''2.0''\<rparr>]
          (filter (\<lambda>c. \<not> is_element ''fix'' c) [Leaf (CharData '' ''),
             Element \<lparr>Space = [], Local = ''name''\<rparr> [] [Leaf (CharData ''A'')] Closed,
             Leaf (CharData '' ''),
             Element \<lparr>Space = [], Local = ''fix''\<rparr> [] [Leaf (CharData ''bogus'')] Closed,
             Leaf (CharData '' '')]) Closed)
       WayPoint_zero)\<close>
    by (rule t [THEN conjunct1, THEN mp]) (simp add: is_element_def)
  also have \<open>\<dots> = None\<close>
    by (simp add: is_element_def unmarshal_eval num_eval zero_eval)
  finally have 1: \<open>snd (unmarshal_WayPoint
     (Element \<lparr>Space = [], Local = ''wpt''\<rparr> [\<lparr>Attr.Name = \<lparr>Space = [], Local = ''lat''\<rparr>, Value = ''1.0''\<rparr>, \<lparr>Attr.Name = \<lparr>Space = [], Local = ''lon''\<rparr>, Value = ''2.0''\<rparr>]
            [Leaf (CharData '' ''),
             Element \<lparr>Space = [], Local = ''name''\<rparr> [] [Leaf (CharData ''A'')] Closed,
             Leaf (CharData '' ''),
             Element \<lparr>Space = [], Local = ''fix''\<rparr> [] [Leaf (CharData ''bogus'')] Closed,
             Leaf (CharData '' '')] Closed)
     WayPoint_zero) = None\<close> .
  from t [THEN conjunct2, THEN conjunct1, THEN mp, OF 1]
  have 2: \<open>WayPoint.Fix (fst (unmarshal_WayPoint
     (Element \<lparr>Space = [], Local = ''wpt''\<rparr> [\<lparr>Attr.Name = \<lparr>Space = [], Local = ''lat''\<rparr>, Value = ''1.0''\<rparr>, \<lparr>Attr.Name = \<lparr>Space = [], Local = ''lon''\<rparr>, Value = ''2.0''\<rparr>]
            [Leaf (CharData '' ''),
             Element \<lparr>Space = [], Local = ''name''\<rparr> [] [Leaf (CharData ''A'')] Closed,
             Leaf (CharData '' ''),
             Element \<lparr>Space = [], Local = ''fix''\<rparr> [] [Leaf (CharData ''bogus'')] Closed,
             Leaf (CharData '' '')] Closed)
     WayPoint_zero)) = ''bogus''\<close>
    by (simp add: elements_def is_element_def)
  have 4: \<open>''bogus'' \<notin> {None_Fix, TwoDimensional, ThreeDimensional, DGPS, PPS}\<close>
    by (simp add: None_Fix_def TwoDimensional_def ThreeDimensional_def DGPS_def PPS_def)
  from 0 3 1 2 4 show ?thesis by simp
qed
end
